(* ===== verification/AF_Base.thy ===== *)
theory AF_Base
  imports Main "HOL-Library.Word"
begin

text \<open>
  Shared vocabulary of the AsyncFile development: the types of bytes, paths and
  addresses, the byte-slice operations that a positional read or write performs on a
  file's contents, and the table with lowest-free-slot allocation that the kernel uses
  for its file descriptors. The collections \<open>kernel_simps\<close> and \<open>obj_simps\<close> gather
  the equations that evaluate a run of the kernel model and of the objects built on it.
\<close>

named_theorems kernel_simps "equations that evaluate the kernel model on a concrete state"

named_theorems obj_simps "equations that evaluate the reader and writer methods"

type_synonym byte = "8 word"

type_synonym bytes = "byte list"

type_synonym path = string

type_synonym addr = nat

text \<open>A \<open>std::string_view\<close>: a pointer into a buffer and a length.\<close>

record sview =
  sv_ptr :: addr
  sv_len :: nat

section \<open>Byte slices\<close>

text \<open>
  \<open>read_at c pos n\<close> is what a positional read of \<open>n\<close> bytes at \<open>pos\<close> returns from
  contents \<open>c\<close>: the bytes that exist there, fewer near the end of the file, none past it.
  \<open>write_at c pos d\<close> is the contents after writing \<open>d\<close> at \<open>pos\<close>: a write past
  the end fills the hole with zero bytes, and an empty write changes nothing.
\<close>

definition read_at :: "bytes \<Rightarrow> nat \<Rightarrow> nat \<Rightarrow> bytes" where
  "read_at c pos n = take n (drop pos c)"

definition write_at :: "bytes \<Rightarrow> nat \<Rightarrow> bytes \<Rightarrow> bytes" where
  "write_at c pos d =
     (if d = [] then c
      else take pos c @ replicate (pos - length c) 0 @ d @ drop (pos + length d) c)"

section \<open>Tables indexed by small integers\<close>

text \<open>
  The kernel's descriptor table: slot \<open>i\<close> holds \<open>Some e\<close> when descriptor \<open>i\<close> is
  open. A new entry takes the lowest free slot (POSIX requires it of \<open>open\<close>), so a
  closed descriptor number is reused by the next \<open>open\<close>.
\<close>

fun first_free :: "'a option list \<Rightarrow> nat" where
  "first_free [] = 0"
| "first_free (None # _) = 0"
| "first_free (Some _ # xs) = Suc (first_free xs)"

definition tbl_get :: "'a option list \<Rightarrow> int \<Rightarrow> 'a option" where
  "tbl_get t i = (if 0 \<le> i \<and> nat i < length t then t ! nat i else None)"

definition tbl_set :: "'a option list \<Rightarrow> int \<Rightarrow> 'a option \<Rightarrow> 'a option list" where
  "tbl_set t i v = (if 0 \<le> i \<and> nat i < length t then t[nat i := v] else t)"

definition tbl_install :: "'a option list \<Rightarrow> 'a \<Rightarrow> int \<times> 'a option list" where
  "tbl_install t e =
     (let i = first_free t
      in (int i, if i < length t then t[i := Some e] else t @ [Some e]))"

text \<open>The number of occupied slots: the open descriptors of a process.\<close>

fun tbl_count :: "'a option list \<Rightarrow> nat" where
  "tbl_count [] = 0"
| "tbl_count (None # xs) = tbl_count xs"
| "tbl_count (Some _ # xs) = Suc (tbl_count xs)"

section \<open>Exceptions\<close>

text \<open>
  Every failure of the library is a \<open>std::runtime_error\<close>; the constructors below are
  its throw sites, and \<open>what\<close> gives the message each one carries. The \<open>Win_\<close>
  constructors are the throw sites of the Windows backend.
\<close>

datatype exn =
    ReaderOpenFailed path
  | RingInitFailed
  | BufferAllocFailed
  | SqeUnavailable
  | ReadWaitFailed
  | ReadFailed int
  | WriterOpenFailed path
  | WriteWaitFailed
  | WriteFailed int
  | Win_ReaderOpenFailed
  | Win_ReaderEventFailed
  | Win_ReadFileFailed
  | Win_WriterOpenFailed
  | Win_WriterEventFailed
  | Win_WriteFileFailed
  | Win_OverlappedFailed
  | Win_BadAlloc

text \<open>\<open>strerror\<close> for the error numbers the kernel model produces.\<close>

definition strerror :: "int \<Rightarrow> string" where
  "strerror e =
     (if e = 9 then ''Bad file descriptor''
      else if e = 14 then ''Bad address''
      else if e = 22 then ''Invalid argument''
      else if e = 27 then ''File too large''
      else ''Unknown error'')"

fun what :: "exn \<Rightarrow> string" where
  "what (ReaderOpenFailed p) = ''Failed to open file: '' @ p"
| "what RingInitFailed = ''io_uring init failed''"
| "what BufferAllocFailed = ''Failed to allocate buffer''"
| "what SqeUnavailable = ''Failed to get submission queue entry''"
| "what ReadWaitFailed = ''Failed to wait for completion''"
| "what (ReadFailed e) = ''Async read failed: '' @ strerror e"
| "what (WriterOpenFailed p) = ''Failed to open file for writing: '' @ p"
| "what WriteWaitFailed = ''Failed to wait for write completion''"
| "what (WriteFailed e) = ''Async write failed: '' @ strerror e"
| "what Win_ReaderOpenFailed = ''Failed to open file for reading.''"
| "what Win_ReaderEventFailed = ''Failed to create event for async read.''"
| "what Win_ReadFileFailed = ''ReadFile failed.''"
| "what Win_WriterOpenFailed = ''Failed to open file for writing.''"
| "what Win_WriterEventFailed = ''Failed to create event for async write.''"
| "what Win_WriteFileFailed = ''WriteFile failed.''"
| "what Win_OverlappedFailed = ''GetOverlappedResult failed.''"
| "what Win_BadAlloc = ''std::bad_alloc''"

section \<open>Lemmas\<close>

subsection \<open>Byte slices\<close>

subsection \<open>Signed words\<close>

lemma sint_nonneg_uint:
  assumes "0 \<le> sint (w :: 'a::len word)"
  shows "sint w = uint w"
proof -
  have "\<not> bit w (LENGTH('a) - Suc 0)" using assms by (simp add: bit_last_iff)
  then have nb: "\<not> bit (uint w) (LENGTH('a) - Suc 0)" by (simp add: bit_uint_iff)
  have "sint w = take_bit (LENGTH('a) - Suc 0) (uint w)"
    using nb by (simp add: sint_uint signed_take_bit_eq_if_positive)
  also have "\<dots> = uint w"
  proof (rule bit_eqI)
    fix n show "bit (take_bit (LENGTH('a) - Suc 0) (uint w)) n = bit (uint w) n"
      using nb by (cases "n = LENGTH('a) - Suc 0") (auto simp: bit_take_bit_iff bit_uint_iff dest: bit_imp_le_length)
  qed
  finally show ?thesis .
qed

lemma nat_sint_nonneg: "0 \<le> sint (w :: 'a::len word) \<Longrightarrow> nat (sint w) = unat w"
  by (simp add: sint_nonneg_uint)

lemma length_read_at [simp]:
  "length (read_at c pos n) = min n (length c - pos)"
  by (simp add: read_at_def)

lemma read_at_past_end [simp]:
  "length c \<le> pos \<Longrightarrow> read_at c pos n = []"
  by (simp add: read_at_def)

lemma length_write_at:
  "d \<noteq> [] \<Longrightarrow> length (write_at c pos d) = max (length c) (pos + length d)"
  by (simp add: write_at_def)

lemma write_at_Nil [simp]: "write_at c pos [] = c"
  by (simp add: write_at_def)

lemma write_at_empty_0 [simp]: "write_at [] 0 d = d"
  by (simp add: write_at_def)

lemma write_at_end [simp]: "write_at c (length c) d = c @ d"
  by (simp add: write_at_def)

lemma read_at_write_at:
  "read_at (write_at c pos d) pos (length d) = d"
  by (simp add: read_at_def write_at_def)

lemma read_at_write_at_longer:
  "length d \<le> n \<Longrightarrow> read_at (write_at [] 0 d) 0 n = d"
  by (simp add: read_at_def)

lemma read_at_whole [simp]: "length c \<le> n \<Longrightarrow> read_at c 0 n = c"
  by (simp add: read_at_def)

subsection \<open>Tables\<close>

lemma first_free_le: "first_free t \<le> length t"
  by (induction t rule: first_free.induct) auto

lemma first_free_None: "first_free t < length t \<Longrightarrow> t ! first_free t = None"
  by (induction t rule: first_free.induct) auto

lemma first_free_below: "i < first_free t \<Longrightarrow> t ! i \<noteq> None"
  by (induction t arbitrary: i rule: first_free.induct) (auto simp: nth_Cons split: nat.splits)

lemma tbl_get_install_new:
  "tbl_install t e = (i, t') \<Longrightarrow> tbl_get t' i = Some e"
  using first_free_le [of t]
  by (auto simp: tbl_install_def tbl_get_def Let_def nth_append split: if_splits)

lemma tbl_get_install_free:
  "tbl_install t e = (i, t') \<Longrightarrow> tbl_get t i = None"
  using first_free_le [of t] first_free_None [of t]
  by (auto simp: tbl_install_def tbl_get_def Let_def)

lemma tbl_get_install_other:
  "tbl_install t e = (i, t') \<Longrightarrow> j \<noteq> i \<Longrightarrow> tbl_get t' j = tbl_get t j"
  using first_free_le [of t]
  by (auto simp: tbl_install_def tbl_get_def Let_def nth_append nat_eq_iff split: if_splits)

lemma tbl_install_nonneg: "tbl_install t e = (i, t') \<Longrightarrow> 0 \<le> i"
  by (auto simp: tbl_install_def Let_def)

lemma tbl_get_set_same:
  "tbl_get t i \<noteq> None \<Longrightarrow> tbl_get (tbl_set t i v) i = v"
  by (auto simp: tbl_get_def tbl_set_def split: if_splits)

lemma tbl_get_set_other:
  "j \<noteq> i \<Longrightarrow> tbl_get (tbl_set t i v) j = tbl_get t j"
  by (auto simp: tbl_get_def tbl_set_def nat_eq_iff split: if_splits)

lemma tbl_get_set:
  "tbl_get t i \<noteq> None \<Longrightarrow> tbl_get (tbl_set t i v) j = (if j = i then v else tbl_get t j)"
  by (simp add: tbl_get_set_same tbl_get_set_other)

lemma tbl_get_negative [simp]: "i < 0 \<Longrightarrow> tbl_get t i = None"
  by (simp add: tbl_get_def)

lemma tbl_set_negative [simp]: "i < 0 \<Longrightarrow> tbl_set t i v = t"
  by (simp add: tbl_set_def)

lemma tbl_set_absent: "tbl_get t i = None \<Longrightarrow> tbl_set t i None = t"
  by (auto simp: tbl_get_def tbl_set_def list_update_same_conv)

lemma tbl_set_get_restore:
  "tbl_set (tbl_set t i v) i (tbl_get t i) = t"
  by (auto simp: tbl_get_def tbl_set_def list_update_same_conv)

lemma tbl_get_set_None [simp]: "tbl_get (tbl_set t i None) i = None"
  by (simp add: tbl_get_def tbl_set_def)

lemma tbl_set_same: "tbl_get t i = v \<Longrightarrow> tbl_set t i v = t"
  by (auto simp: tbl_get_def tbl_set_def)

lemma tbl_set_set_same [simp]: "tbl_set (tbl_set t i a) i b = tbl_set t i b"
  by (simp add: tbl_set_def)

lemma tbl_set_commute:
  "i \<noteq> j \<Longrightarrow> tbl_set (tbl_set t i a) j b = tbl_set (tbl_set t j b) i a"
  by (auto simp: tbl_set_def list_update_swap nat_eq_iff)

lemma length_tbl_set [simp]: "length (tbl_set t i v) = length t"
  by (simp add: tbl_set_def)

lemma tbl_count_append [simp]: "tbl_count (xs @ ys) = tbl_count xs + tbl_count ys"
  by (induction xs rule: tbl_count.induct) auto

lemma tbl_count_update_Some:
  "i < length t \<Longrightarrow> t ! i = None \<Longrightarrow> tbl_count (t[i := Some e]) = Suc (tbl_count t)"
  by (induction t arbitrary: i rule: tbl_count.induct) (auto simp: nth_Cons split: nat.splits)

lemma tbl_count_update_None:
  "i < length t \<Longrightarrow> t ! i \<noteq> None \<Longrightarrow> Suc (tbl_count (t[i := None])) = tbl_count t"
  by (induction t arbitrary: i rule: tbl_count.induct) (auto simp: nth_Cons split: nat.splits)

lemma tbl_count_install:
  "tbl_install t e = (i, t') \<Longrightarrow> tbl_count t' = Suc (tbl_count t)"
  using first_free_le [of t] first_free_None [of t]
  by (auto simp: tbl_install_def Let_def tbl_count_update_Some split: if_splits)

lemma tbl_count_set_None:
  "tbl_get t i \<noteq> None \<Longrightarrow> Suc (tbl_count (tbl_set t i None)) = tbl_count t"
  by (auto simp: tbl_get_def tbl_set_def tbl_count_update_None split: if_splits)

lemma tbl_count_set_Some:
  "tbl_get t i \<noteq> None \<Longrightarrow> tbl_count (tbl_set t i (Some e)) = tbl_count t"
proof -
  assume a: "tbl_get t i \<noteq> None"
  then have "Suc (tbl_count (tbl_set t i None)) = tbl_count t" by (rule tbl_count_set_None)
  moreover have "tbl_set t i (Some e) = (tbl_set t i None)[nat i := Some e]"
    using a by (auto simp: tbl_get_def tbl_set_def split: if_splits)
  moreover have "tbl_count ((tbl_set t i None)[nat i := Some e]) = Suc (tbl_count (tbl_set t i None))"
    using a by (intro tbl_count_update_Some) (auto simp: tbl_get_def tbl_set_def split: if_splits)
  ultimately show ?thesis by simp
qed

subsection \<open>Machine integers\<close>

text \<open>A \<open>size_t\<close> passed where an \<open>unsigned\<close> (or a \<open>DWORD\<close>) is expected keeps its low 32 bits.\<close>

lemma unat_ucast_32: "unat (ucast (x :: 64 word) :: 32 word) = unat x mod 2 ^ 32"
  by (simp add: unsigned_ucast_eq take_bit_eq_mod)

lemma unat_ucast_32_small: "unat (x :: 64 word) < 2 ^ 32 \<Longrightarrow> unat (ucast x :: 32 word) = unat x"
  by (simp add: unat_ucast_32)

end
