(* ===== verification/Linux_Kernel.thy ===== *)
theory Linux_Kernel
  imports AF_Base
begin

text \<open>
  The environment the Linux backend runs against: the part of POSIX (\<open>open\<close>,
  \<open>close\<close>, \<open>aligned_alloc\<close>, \<open>free\<close>, \<open>memset\<close>) and of liburing
  (\<open>io_uring_queue_init\<close>, \<open>io_uring_queue_exit\<close>, \<open>io_uring_get_sqe\<close>,
  \<open>io_uring_prep_read\<close>, \<open>io_uring_prep_write\<close>, \<open>io_uring_submit\<close>,
  \<open>io_uring_wait_cqe\<close>, \<open>io_uring_cqe_seen\<close>) that \<open>src/src/AsyncFileReader.cpp\<close> and
  \<open>src/src/AsyncFileWriter.cpp\<close> call. None of it is code of the repository; it is
  modelled from the Linux and liburing documentation, as an explicit state:
  \<^item> the file contents by path, and the paths whose \<open>open\<close> is refused;
  \<^item> the descriptor table, whose slots hold an open file (with its access mode,
    append flag and position) or an io_uring instance (an io_uring is a descriptor);
  \<^item> an io_uring instance: the submission entries handed out and not yet submitted,
    the submitted requests the kernel has not completed, and the completions not yet
    marked seen;
  \<^item> the heap as a map from block addresses to contents, with a quota;
  \<^item> a log of the undefined-behaviour events a program triggers (using or releasing an
    io_uring that was already released, freeing a freed block).
  The kernel executes a submitted request in a step of its own (\<open>k_complete\<close>), so
  that the time at which it reads or writes user memory is explicit.
\<close>

unbundle bit_operations_syntax

section \<open>Constants\<close>

abbreviation EBADF :: int where "EBADF \<equiv> 9"
abbreviation ENOMEM :: int where "ENOMEM \<equiv> 12"
abbreviation EFAULT :: int where "EFAULT \<equiv> 14"
abbreviation EBUSY :: int where "EBUSY \<equiv> 16"
abbreviation EINVAL :: int where "EINVAL \<equiv> 22"
abbreviation EFBIG :: int where "EFBIG \<equiv> 27"

abbreviation O_RDONLY :: int where "O_RDONLY \<equiv> 0"
abbreviation O_WRONLY :: int where "O_WRONLY \<equiv> 1"
abbreviation O_RDWR :: int where "O_RDWR \<equiv> 2"
abbreviation O_CREAT :: int where "O_CREAT \<equiv> 64"
abbreviation O_TRUNC :: int where "O_TRUNC \<equiv> 512"
abbreviation O_APPEND :: int where "O_APPEND \<equiv> 1024"

text \<open>The kernel caps one read or write at \<open>MAX_RW_COUNT\<close> bytes.\<close>

abbreviation MAX_RW_COUNT :: nat where "MAX_RW_COUNT \<equiv> 2147479552"

section \<open>State\<close>

record ofile =
  of_path :: path
  of_read :: bool
  of_write :: bool
  of_append :: bool
  of_pos :: nat

text \<open>A submission queue entry: descriptor, buffer address, byte count, offset.\<close>

datatype sqe =
    SqeNop
  | SqeRead int addr "32 word" "64 word"
  | SqeWrite int addr "32 word" "64 word"

record ring =
  ring_sq :: "sqe list"
  ring_inflight :: "sqe list"
  ring_cq :: "int list"
  ring_sq_entries :: nat
  ring_cq_entries :: nat

datatype fentry = FFile ofile | FRing ring

datatype fault =
    StaleRingUse int
  | StaleRingExit int
  | DoubleFree addr
  | DanglingAccess addr

record kstate =
  k_files :: "path \<rightharpoonup> bytes"
  k_denied :: "path set"
  k_fdt :: "fentry option list"
  k_ring_quota :: nat
  k_heap :: "addr \<rightharpoonup> bytes"
  k_next_addr :: addr
  k_heap_quota :: nat
  k_junk :: byte
  k_fsize_limit :: nat
  k_faults :: "fault list"

definition ring_of :: "kstate \<Rightarrow> int \<Rightarrow> ring option" where
  "ring_of k rfd = (case tbl_get (k_fdt k) rfd of Some (FRing r) \<Rightarrow> Some r | _ \<Rightarrow> None)"

definition put_ring :: "kstate \<Rightarrow> int \<Rightarrow> ring \<Rightarrow> kstate" where
  "put_ring k rfd r = k\<lparr>k_fdt := tbl_set (k_fdt k) rfd (Some (FRing r))\<rparr>"

definition file_of :: "kstate \<Rightarrow> int \<Rightarrow> ofile option" where
  "file_of k fd = (case tbl_get (k_fdt k) fd of Some (FFile f) \<Rightarrow> Some f | _ \<Rightarrow> None)"

definition contents_of :: "kstate \<Rightarrow> path \<Rightarrow> bytes" where
  "contents_of k p = (case k_files k p of Some c \<Rightarrow> c | None \<Rightarrow> [])"

definition log_fault :: "fault \<Rightarrow> kstate \<Rightarrow> kstate" where
  "log_fault f k = k\<lparr>k_faults := k_faults k @ [f]\<rparr>"

section \<open>Files and descriptors\<close>

definition install_file :: "path \<Rightarrow> bool \<Rightarrow> bool \<Rightarrow> bool \<Rightarrow> bytes \<Rightarrow> kstate \<Rightarrow> int \<times> kstate" where
  "install_file p rd wr app c k =
     (let (fd, t) = tbl_install (k_fdt k)
                      (FFile \<lparr>of_path = p, of_read = rd, of_write = wr, of_append = app, of_pos = 0\<rparr>)
      in (fd, k\<lparr>k_files := (k_files k)(p \<mapsto> c), k_fdt := t\<rparr>))"

text \<open>\<open>open(path, flags, mode)\<close>; the mode only matters for permissions, not modelled.\<close>

definition sys_open :: "path \<Rightarrow> int \<Rightarrow> kstate \<Rightarrow> int \<times> kstate" where
  "sys_open p flags k =
     (let acc = flags AND 3;
          rd = (acc = O_RDONLY \<or> acc = O_RDWR);
          wr = (acc = O_WRONLY \<or> acc = O_RDWR);
          creat = (flags AND O_CREAT \<noteq> 0);
          trunc = (flags AND O_TRUNC \<noteq> 0);
          app = (flags AND O_APPEND \<noteq> 0)
      in if p \<in> k_denied k then (-1, k)
         else case k_files k p of
           None \<Rightarrow> if creat then install_file p rd wr app [] k else (-1, k)
         | Some c \<Rightarrow> install_file p rd wr app (if trunc \<and> wr then [] else c) k)"

text \<open>\<open>close(fd)\<close>: closing the descriptor of an io_uring releases the instance.\<close>

definition sys_close :: "int \<Rightarrow> kstate \<Rightarrow> int \<times> kstate" where
  "sys_close fd k =
     (case tbl_get (k_fdt k) fd of
        None \<Rightarrow> (-EBADF, k)
      | Some (FFile f) \<Rightarrow> (0, k\<lparr>k_fdt := tbl_set (k_fdt k) fd None\<rparr>)
      | Some (FRing r) \<Rightarrow>
          (0, k\<lparr>k_fdt := tbl_set (k_fdt k) fd None, k_ring_quota := Suc (k_ring_quota k)\<rparr>))"

section \<open>Heap\<close>

text \<open>
  \<open>aligned_alloc(alignment, size)\<close>: a fresh block whose contents are whatever the
  allocator left there (\<open>k_junk\<close>), or the null pointer when the quota is exhausted.
  Addresses stand for blocks; the alignment is not modelled.
\<close>

definition aligned_alloc :: "nat \<Rightarrow> nat \<Rightarrow> kstate \<Rightarrow> addr \<times> kstate" where
  "aligned_alloc al n k =
     (if n \<le> k_heap_quota k
      then (k_next_addr k,
            k\<lparr>k_heap := (k_heap k)(k_next_addr k \<mapsto> replicate n (k_junk k)),
              k_next_addr := Suc (k_next_addr k),
              k_heap_quota := k_heap_quota k - n\<rparr>)
      else (0, k))"

definition sys_free :: "addr \<Rightarrow> kstate \<Rightarrow> kstate" where
  "sys_free a k =
     (if a = 0 then k
      else case k_heap k a of
        None \<Rightarrow> log_fault (DoubleFree a) k
      | Some b \<Rightarrow> k\<lparr>k_heap := (k_heap k)(a := None), k_heap_quota := k_heap_quota k + length b\<rparr>)"

definition sys_memset :: "addr \<Rightarrow> byte \<Rightarrow> nat \<Rightarrow> kstate \<Rightarrow> kstate" where
  "sys_memset a v n k =
     (case k_heap k a of
        None \<Rightarrow> k
      | Some b \<Rightarrow> k\<lparr>k_heap := (k_heap k)(a \<mapsto> replicate n v @ drop n b)\<rparr>)"

section \<open>io\_uring\<close>

text \<open>
  \<open>io_uring_queue_init(entries, &ring, 0)\<close>: returns 0 and the descriptor of a new
  instance (\<open>entries\<close> submission slots, twice as many completion slots), or a negative
  error when the kernel cannot provide one (\<open>k_ring_quota\<close> stands for the locked-memory
  limit, and is 0 on a kernel without io\_uring).
\<close>

definition io_uring_queue_init :: "nat \<Rightarrow> kstate \<Rightarrow> int \<times> int \<times> kstate" where
  "io_uring_queue_init entries k =
     (if k_ring_quota k = 0 then (-ENOMEM, -1, k)
      else let (rfd, t) = tbl_install (k_fdt k)
                 (FRing \<lparr>ring_sq = [], ring_inflight = [], ring_cq = [],
                         ring_sq_entries = entries, ring_cq_entries = 2 * entries\<rparr>)
           in (0, rfd, k\<lparr>k_fdt := t, k_ring_quota := k_ring_quota k - 1\<rparr>))"

text \<open>
  \<open>io_uring_queue_exit(&ring)\<close> unmaps the rings and closes the ring descriptor. On an
  instance that was already released the unmapping hits released memory and the
  \<open>close\<close> hits whatever now holds that descriptor number: a double release, logged.
\<close>

definition io_uring_queue_exit :: "int \<Rightarrow> kstate \<Rightarrow> kstate" where
  "io_uring_queue_exit rfd k =
     (case tbl_get (k_fdt k) rfd of
        Some (FRing r) \<Rightarrow>
          k\<lparr>k_fdt := tbl_set (k_fdt k) rfd None, k_ring_quota := Suc (k_ring_quota k)\<rparr>
      | Some (FFile f) \<Rightarrow>
          log_fault (StaleRingExit rfd) (k\<lparr>k_fdt := tbl_set (k_fdt k) rfd None\<rparr>)
      | None \<Rightarrow> log_fault (StaleRingExit rfd) k)"

text \<open>
  \<open>io_uring_get_sqe(&ring)\<close>: the index of a fresh entry (initialised as a no-op) in
  the submission queue, or none when all its slots hold unsubmitted entries. On a
  released instance liburing reads the unmapped submission ring: undefined behaviour,
  which is logged; the model then returns no entry, one outcome among those it allows.
\<close>

definition io_uring_get_sqe :: "int \<Rightarrow> kstate \<Rightarrow> nat option \<times> kstate" where
  "io_uring_get_sqe rfd k =
     (case ring_of k rfd of
        None \<Rightarrow> (None, log_fault (StaleRingUse rfd) k)
      | Some r \<Rightarrow>
          if length (ring_sq r) < ring_sq_entries r
          then (Some (length (ring_sq r)), put_ring k rfd (r\<lparr>ring_sq := ring_sq r @ [SqeNop]\<rparr>))
          else (None, k))"

definition prep_sqe :: "int \<Rightarrow> nat \<Rightarrow> sqe \<Rightarrow> kstate \<Rightarrow> kstate" where
  "prep_sqe rfd i e k =
     (case ring_of k rfd of
        None \<Rightarrow> k
      | Some r \<Rightarrow> put_ring k rfd (r\<lparr>ring_sq := (ring_sq r)[i := e]\<rparr>))"

definition io_uring_prep_read ::
  "int \<Rightarrow> nat \<Rightarrow> int \<Rightarrow> addr \<Rightarrow> 32 word \<Rightarrow> 64 word \<Rightarrow> kstate \<Rightarrow> kstate" where
  "io_uring_prep_read rfd i fd buf n off = prep_sqe rfd i (SqeRead fd buf n off)"

definition io_uring_prep_write ::
  "int \<Rightarrow> nat \<Rightarrow> int \<Rightarrow> addr \<Rightarrow> 32 word \<Rightarrow> 64 word \<Rightarrow> kstate \<Rightarrow> kstate" where
  "io_uring_prep_write rfd i fd buf n off = prep_sqe rfd i (SqeWrite fd buf n off)"

text \<open>
  \<open>io_uring_submit(&ring)\<close>: hands every prepared entry to the kernel and returns their
  number; it fails with \<open>-EBUSY\<close>, handing nothing over, when the completions already
  owed would not fit in the completion queue.
\<close>

definition io_uring_submit :: "int \<Rightarrow> kstate \<Rightarrow> int \<times> kstate" where
  "io_uring_submit rfd k =
     (case ring_of k rfd of
        None \<Rightarrow> (-EBADF, log_fault (StaleRingUse rfd) k)
      | Some r \<Rightarrow>
          if ring_cq_entries r < length (ring_cq r) + length (ring_inflight r) + length (ring_sq r)
          then (-EBUSY, k)
          else (int (length (ring_sq r)),
                put_ring k rfd (r\<lparr>ring_inflight := ring_inflight r @ ring_sq r, ring_sq := []\<rparr>)))"

subsection \<open>The kernel executing a request\<close>

text \<open>
  A read of \<open>n\<close> bytes at offset \<open>off\<close> (an offset of -1 means the file position)
  into the block at \<open>buf\<close>: the result is the byte count or a negative error.
\<close>

definition k_read :: "int \<Rightarrow> addr \<Rightarrow> 32 word \<Rightarrow> 64 word \<Rightarrow> kstate \<Rightarrow> int \<times> kstate" where
  "k_read fd buf n off k =
     (case file_of k fd of
        None \<Rightarrow> (-EBADF, k)
      | Some f \<Rightarrow>
          if \<not> of_read f then (-EBADF, k)
          else if sint off < -1 then (-EINVAL, k)
          else
            let use_pos = (sint off = -1);
                pos = (if use_pos then of_pos f else unat off);
                d = read_at (contents_of k (of_path f)) pos (min (unat n) MAX_RW_COUNT)
            in case k_heap k buf of
                 None \<Rightarrow> (-EFAULT, k)
               | Some b \<Rightarrow>
                   if length b < length d then (-EFAULT, k)
                   else (int (length d),
                         k\<lparr>k_heap := (k_heap k)(buf \<mapsto> d @ drop (length d) b),
                           k_fdt := (if use_pos
                                     then tbl_set (k_fdt k) fd (Some (FFile (f\<lparr>of_pos := pos + length d\<rparr>)))
                                     else k_fdt k)\<rparr>))"

text \<open>
  A write of \<open>n\<close> bytes from the block at \<open>buf\<close>: at the end of the file when it was
  opened with \<open>O_APPEND\<close> (whatever the offset), else at the offset. A write that would
  pass the file-size limit writes what fits (a short write) or fails with \<open>-EFBIG\<close>.
\<close>

definition k_write :: "int \<Rightarrow> addr \<Rightarrow> 32 word \<Rightarrow> 64 word \<Rightarrow> kstate \<Rightarrow> int \<times> kstate" where
  "k_write fd buf n off k =
     (case file_of k fd of
        None \<Rightarrow> (-EBADF, k)
      | Some f \<Rightarrow>
          if \<not> of_write f then (-EBADF, k)
          else if \<not> of_append f \<and> sint off < -1 then (-EINVAL, k)
          else case k_heap k buf of
            None \<Rightarrow> (-EFAULT, k)
          | Some b \<Rightarrow>
              if length b < unat n then (-EFAULT, k)
              else
                let c = contents_of k (of_path f);
                    use_pos = (sint off = -1);
                    pos = (if of_append f then length c else if use_pos then of_pos f else unat off);
                    cnt = min (unat n) MAX_RW_COUNT
                in if cnt = 0 then (0, k)
                   else if k_fsize_limit k \<le> pos then (-EFBIG, k)
                   else
                     let m = min cnt (k_fsize_limit k - pos)
                     in (int m,
                         k\<lparr>k_files := (k_files k)(of_path f \<mapsto> write_at c pos (take m b)),
                           k_fdt := (if use_pos
                                     then tbl_set (k_fdt k) fd (Some (FFile (f\<lparr>of_pos := pos + m\<rparr>)))
                                     else k_fdt k)\<rparr>))"

fun k_exec :: "sqe \<Rightarrow> kstate \<Rightarrow> int \<times> kstate" where
  "k_exec SqeNop k = (0, k)"
| "k_exec (SqeRead fd buf n off) k = k_read fd buf n off k"
| "k_exec (SqeWrite fd buf n off) k = k_write fd buf n off k"

text \<open>
  One kernel step on an instance: the oldest submitted request is executed and its
  result posted to the completion queue.
\<close>

definition k_complete :: "int \<Rightarrow> kstate \<Rightarrow> kstate" where
  "k_complete rfd k =
     (case ring_of k rfd of
        None \<Rightarrow> k
      | Some r \<Rightarrow>
          (case ring_inflight r of
             [] \<Rightarrow> k
           | e # rest \<Rightarrow>
               let (res, k1) = k_exec e k
               in put_ring k1 rfd (r\<lparr>ring_inflight := rest, ring_cq := ring_cq r @ [res]\<rparr>)))"

text \<open>
  \<open>io_uring_wait_cqe(&ring, &cqe)\<close>: its return value and the completion's \<open>res\<close>.
  When no completion is posted it waits for the kernel to complete a submitted request;
  when none is submitted either it waits for ever, which is the value \<open>None\<close>.
\<close>

definition io_uring_wait_cqe :: "int \<Rightarrow> kstate \<Rightarrow> (int \<times> int \<times> kstate) option" where
  "io_uring_wait_cqe rfd k =
     (case ring_of k rfd of
        None \<Rightarrow> Some (-EBADF, 0, log_fault (StaleRingUse rfd) k)
      | Some r \<Rightarrow>
          (case ring_cq r of
             c # _ \<Rightarrow> Some (0, c, k)
           | [] \<Rightarrow>
               (case ring_inflight r of
                  [] \<Rightarrow> None
                | e # rest \<Rightarrow>
                    let (res, k1) = k_exec e k
                    in Some (0, res, put_ring k1 rfd (r\<lparr>ring_inflight := rest, ring_cq := [res]\<rparr>)))))"

definition io_uring_cqe_seen :: "int \<Rightarrow> kstate \<Rightarrow> kstate" where
  "io_uring_cqe_seen rfd k =
     (case ring_of k rfd of
        None \<Rightarrow> k
      | Some r \<Rightarrow> put_ring k rfd (r\<lparr>ring_cq := tl (ring_cq r)\<rparr>))"

text \<open>The number of open descriptors (files and io\_uring instances).\<close>

definition n_open :: "kstate \<Rightarrow> nat" where
  "n_open k = tbl_count (k_fdt k)"

section \<open>Lemmas\<close>

subsection \<open>The slot of an instance\<close>

definition ring_idle :: "kstate \<Rightarrow> int \<Rightarrow> bool" where
  "ring_idle k rfd =
     (case ring_of k rfd of
        None \<Rightarrow> False
      | Some r \<Rightarrow> ring_sq r = [] \<and> ring_inflight r = [] \<and> ring_cq r = []
                  \<and> 0 < ring_sq_entries r \<and> 0 < ring_cq_entries r)"

lemma ring_of_file_of_disjoint:
  "ring_of k rfd \<noteq> None \<Longrightarrow> file_of k fd \<noteq> None \<Longrightarrow> fd \<noteq> rfd"
  by (auto simp: ring_of_def file_of_def split: option.splits fentry.splits)

lemma ring_of_put_ring [kernel_simps]:
  "ring_of k rfd \<noteq> None \<Longrightarrow> ring_of (put_ring k rfd r) j = (if j = rfd then Some r else ring_of k j)"
  by (auto simp: ring_of_def put_ring_def tbl_get_set split: option.splits fentry.splits)

lemma file_of_put_ring [kernel_simps]:
  "ring_of k rfd \<noteq> None \<Longrightarrow> file_of (put_ring k rfd r) j = file_of k j"
  by (auto simp: ring_of_def file_of_def put_ring_def tbl_get_set split: option.splits fentry.splits)

lemma put_ring_put_ring [simp, kernel_simps]: "put_ring (put_ring k rfd r1) rfd r2 = put_ring k rfd r2"
  by (simp add: put_ring_def)

lemma put_ring_same: "ring_of k rfd = Some r \<Longrightarrow> put_ring k rfd r = k"
  by (auto simp: ring_of_def put_ring_def tbl_set_same split: option.splits fentry.splits)

lemma put_ring_fields [kernel_simps]:
  "k_files (put_ring k rfd r) = k_files k"
  "k_heap (put_ring k rfd r) = k_heap k"
  "k_denied (put_ring k rfd r) = k_denied k"
  "k_ring_quota (put_ring k rfd r) = k_ring_quota k"
  "k_faults (put_ring k rfd r) = k_faults k"
  "k_fsize_limit (put_ring k rfd r) = k_fsize_limit k"
  "contents_of (put_ring k rfd r) p = contents_of k p"
  by (simp_all add: put_ring_def contents_of_def)

subsection \<open>The kernel leaves instances alone\<close>

lemma file_of_SomeD: "file_of k fd = Some f \<Longrightarrow> tbl_get (k_fdt k) fd = Some (FFile f)"
  by (auto simp: file_of_def split: option.splits fentry.splits)

lemma ring_of_k_read: "ring_of (snd (k_read fd buf n off k)) j = ring_of k j"
proof (cases "file_of k fd")
  case None
  then show ?thesis by (simp add: k_read_def)
next
  case (Some f)
  then have "tbl_get (k_fdt k) fd = Some (FFile f)" by (rule file_of_SomeD)
  with Some show ?thesis
    by (auto simp: k_read_def Let_def ring_of_def tbl_get_set split: option.splits)
qed

lemma ring_of_k_write: "ring_of (snd (k_write fd buf n off k)) j = ring_of k j"
proof (cases "file_of k fd")
  case None
  then show ?thesis by (simp add: k_write_def)
next
  case (Some f)
  then have "tbl_get (k_fdt k) fd = Some (FFile f)" by (rule file_of_SomeD)
  with Some show ?thesis
    by (auto simp: k_write_def Let_def ring_of_def tbl_get_set split: option.splits)
qed

lemma ring_of_k_exec [kernel_simps]: "ring_of (snd (k_exec e k)) j = ring_of k j"
  by (cases e) (simp_all add: ring_of_k_read ring_of_k_write)

lemma put_ring_set_file:
  "fd \<noteq> rfd \<Longrightarrow>
   (put_ring k rfd r)\<lparr>k_fdt := tbl_set (k_fdt (put_ring k rfd r)) fd v\<rparr> =
   put_ring (k\<lparr>k_fdt := tbl_set (k_fdt k) fd v\<rparr>) rfd r"
  by (simp add: put_ring_def tbl_set_commute)

lemma k_read_put_ring:
  assumes "ring_of k rfd \<noteq> None"
  shows "k_read fd buf n off (put_ring k rfd r) =
           (let (res, k1) = k_read fd buf n off k in (res, put_ring k1 rfd r))"
proof (cases "file_of k fd")
  case None
  with assms show ?thesis by (simp add: k_read_def file_of_put_ring)
next
  case (Some f)
  with assms have ne: "fd \<noteq> rfd" using ring_of_file_of_disjoint [of k rfd fd] by simp
  from Some assms have F: "file_of (put_ring k rfd r) fd = Some f" by (simp add: file_of_put_ring)
  show ?thesis
  proof (cases "k_heap k buf")
    case None
    with Some F show ?thesis by (simp add: k_read_def Let_def put_ring_fields)
  next
    case (Some b)
    with \<open>file_of k fd = Some f\<close> F ne show ?thesis
      by (simp add: k_read_def Let_def put_ring_fields put_ring_set_file)
         (simp add: put_ring_def tbl_set_commute [of rfd fd] ne [symmetric])
  qed
qed

lemma k_write_put_ring:
  assumes "ring_of k rfd \<noteq> None"
  shows "k_write fd buf n off (put_ring k rfd r) =
           (let (res, k1) = k_write fd buf n off k in (res, put_ring k1 rfd r))"
proof (cases "file_of k fd")
  case None
  with assms show ?thesis by (simp add: k_write_def file_of_put_ring)
next
  case (Some f)
  with assms have ne: "fd \<noteq> rfd" using ring_of_file_of_disjoint [of k rfd fd] by simp
  from Some assms have F: "file_of (put_ring k rfd r) fd = Some f" by (simp add: file_of_put_ring)
  show ?thesis
  proof (cases "k_heap k buf")
    case None
    with Some F show ?thesis by (simp add: k_write_def Let_def put_ring_fields)
  next
    case (Some b)
    with \<open>file_of k fd = Some f\<close> F ne show ?thesis
      by (simp add: k_write_def Let_def put_ring_fields put_ring_set_file split: if_split)
         (auto simp: put_ring_def tbl_set_commute [of rfd fd] ne [symmetric])
  qed
qed

lemma k_exec_put_ring:
  "ring_of k rfd \<noteq> None \<Longrightarrow>
   k_exec e (put_ring k rfd r) = (let (res, k1) = k_exec e k in (res, put_ring k1 rfd r))"
  by (cases e) (simp_all add: k_read_put_ring k_write_put_ring)

subsection \<open>io\_uring calls on a known instance\<close>

text \<open>
  Each call evaluated on a state whose instance at \<open>rfd\<close> is known to be \<open>r\<close>
  (every live instance is: \<open>k = put_ring k rfd r\<close> by \<open>put_ring_same\<close>).
\<close>

lemma get_sqe_put_ring [kernel_simps]:
  "ring_of k rfd \<noteq> None \<Longrightarrow>
   io_uring_get_sqe rfd (put_ring k rfd r) =
     (if length (ring_sq r) < ring_sq_entries r
      then (Some (length (ring_sq r)), put_ring k rfd (r\<lparr>ring_sq := ring_sq r @ [SqeNop]\<rparr>))
      else (None, put_ring k rfd r))"
  by (simp add: io_uring_get_sqe_def ring_of_put_ring)

lemma prep_sqe_put_ring [kernel_simps]:
  "ring_of k rfd \<noteq> None \<Longrightarrow>
   prep_sqe rfd i e (put_ring k rfd r) = put_ring k rfd (r\<lparr>ring_sq := (ring_sq r)[i := e]\<rparr>)"
  by (simp add: prep_sqe_def ring_of_put_ring)

lemma submit_put_ring [kernel_simps]:
  "ring_of k rfd \<noteq> None \<Longrightarrow>
   io_uring_submit rfd (put_ring k rfd r) =
     (if ring_cq_entries r < length (ring_cq r) + length (ring_inflight r) + length (ring_sq r)
      then (-EBUSY, put_ring k rfd r)
      else (int (length (ring_sq r)),
            put_ring k rfd (r\<lparr>ring_inflight := ring_inflight r @ ring_sq r, ring_sq := []\<rparr>)))"
  by (simp add: io_uring_submit_def ring_of_put_ring)

lemma wait_cqe_put_ring [kernel_simps]:
  "ring_of k rfd \<noteq> None \<Longrightarrow>
   io_uring_wait_cqe rfd (put_ring k rfd r) =
     (case ring_cq r of
        c # _ \<Rightarrow> Some (0, c, put_ring k rfd r)
      | [] \<Rightarrow>
          (case ring_inflight r of
             [] \<Rightarrow> None
           | e # rest \<Rightarrow>
               let (res, k1) = k_exec e k
               in Some (0, res, put_ring k1 rfd (r\<lparr>ring_inflight := rest, ring_cq := [res]\<rparr>))))"
  by (auto simp: io_uring_wait_cqe_def ring_of_put_ring k_exec_put_ring
           split: list.splits prod.splits)

lemma cqe_seen_put_ring [kernel_simps]:
  "ring_of k rfd \<noteq> None \<Longrightarrow>
   io_uring_cqe_seen rfd (put_ring k rfd r) = put_ring k rfd (r\<lparr>ring_cq := tl (ring_cq r)\<rparr>)"
  by (simp add: io_uring_cqe_seen_def ring_of_put_ring)

lemma ring_idleD:
  "ring_idle k rfd \<Longrightarrow>
   \<exists>r. ring_of k rfd = Some r \<and> ring_sq r = [] \<and> ring_inflight r = [] \<and> ring_cq r = []
       \<and> 0 < ring_sq_entries r \<and> 0 < ring_cq_entries r"
  by (auto simp: ring_idle_def split: option.splits)

text \<open>
  One request through an idle instance: handing out an entry, preparing it and
  submitting it leaves exactly that request in flight; waiting then executes it, and
  marking the completion seen returns the instance to idle. The state after the round
  trip is the state the request alone produces.
\<close>

lemma submit_one_idle:
  assumes "ring_of k rfd = Some r" "ring_idle k rfd"
  shows "(case io_uring_get_sqe rfd k of
            (None, k1) \<Rightarrow> None
          | (Some i, k1) \<Rightarrow> Some (snd (io_uring_submit rfd (prep_sqe rfd i e k1)))) =
         Some (put_ring k rfd (r\<lparr>ring_inflight := [e]\<rparr>))"
proof -
  have k: "k = put_ring k rfd r" using assms(1) by (simp add: put_ring_same)
  have some: "ring_of k rfd \<noteq> None" using assms(1) by simp
  from assms have idle: "ring_sq r = []" "ring_inflight r = []" "ring_cq r = []"
    "0 < ring_sq_entries r" "0 < ring_cq_entries r"
    by (auto simp: ring_idle_def)
  have "io_uring_get_sqe rfd (put_ring k rfd r) = (Some 0, put_ring k rfd (r\<lparr>ring_sq := [SqeNop]\<rparr>))"
    using some idle by (simp add: get_sqe_put_ring)
  then show ?thesis
    using some idle k
    by (cases r) (simp add: prep_sqe_put_ring submit_put_ring Suc_le_eq)
qed

lemma wait_one_inflight:
  assumes "ring_of k rfd = Some r" "ring_idle k rfd"
  shows "io_uring_wait_cqe rfd (put_ring k rfd (r\<lparr>ring_inflight := [e]\<rparr>)) =
           Some (0, fst (k_exec e k), put_ring (snd (k_exec e k)) rfd (r\<lparr>ring_cq := [fst (k_exec e k)]\<rparr>))"
proof -
  from assms have idle: "ring_inflight r = []" "ring_cq r = []"
    by (auto simp: ring_idle_def)
  with assms(1) show ?thesis
    by (cases r) (simp add: wait_cqe_put_ring split: prod.splits)
qed

lemma seen_after_one:
  assumes "ring_of k rfd = Some r" "ring_idle k rfd"
  shows "io_uring_cqe_seen rfd (put_ring (snd (k_exec e k)) rfd (r\<lparr>ring_cq := [c]\<rparr>)) = snd (k_exec e k)"
proof -
  from assms have "ring_cq r = []" by (auto simp: ring_idle_def)
  moreover have "ring_of (snd (k_exec e k)) rfd = Some r"
    using assms(1) by (simp add: ring_of_k_exec)
  ultimately show ?thesis
    by (simp add: cqe_seen_put_ring put_ring_same)
qed

lemma ring_idle_k_exec [kernel_simps]: "ring_idle (snd (k_exec e k)) rfd = ring_idle k rfd"
  by (simp add: ring_idle_def ring_of_k_exec)

subsection \<open>What a request does to a file\<close>

lemma k_read_file:
  assumes "file_of k fd = Some f" "of_read f" "0 \<le> sint off"
    and "k_heap k buf = Some b" "min (unat n) MAX_RW_COUNT \<le> length b"
  shows "k_read fd buf n off k =
           (let d = read_at (contents_of k (of_path f)) (unat off) (min (unat n) MAX_RW_COUNT)
            in (int (length d), k\<lparr>k_heap := (k_heap k)(buf \<mapsto> d @ drop (length d) b)\<rparr>))"
proof -
  have "sint off \<noteq> -1" using assms(3) by linarith
  with assms show ?thesis
    by (simp add: k_read_def Let_def)
qed

lemma k_write_positional:
  assumes "file_of k fd = Some f" "of_write f" "\<not> of_append f" "0 \<le> sint off"
    and "k_heap k buf = Some b" "unat n \<le> length b" "0 < unat n" "unat off < k_fsize_limit k"
  shows "k_write fd buf n off k =
           (let m = min (min (unat n) MAX_RW_COUNT) (k_fsize_limit k - unat off)
            in (int m, k\<lparr>k_files := (k_files k)(of_path f \<mapsto>
                         write_at (contents_of k (of_path f)) (unat off) (take m b))\<rparr>))"
proof -
  have "sint off \<noteq> -1" "\<not> sint off < -1" using assms(4) by linarith+
  with assms show ?thesis
    by (simp add: k_write_def Let_def)
qed

lemma k_write_append:
  assumes "file_of k fd = Some f" "of_write f" "of_append f" "0 \<le> sint off"
    and "k_heap k buf = Some b" "unat n \<le> length b" "0 < unat n"
    and "length (contents_of k (of_path f)) < k_fsize_limit k"
  shows "k_write fd buf n off k =
           (let c = contents_of k (of_path f);
                m = min (min (unat n) MAX_RW_COUNT) (k_fsize_limit k - length c)
            in (int m, k\<lparr>k_files := (k_files k)(of_path f \<mapsto> c @ take m b)\<rparr>))"
proof -
  have "sint off \<noteq> -1" using assms(4) by linarith
  with assms show ?thesis
    by (simp add: k_write_def Let_def)
qed

subsection \<open>Descriptors\<close>

lemma sys_open_refused [kernel_simps]:
  "p \<in> k_denied k \<Longrightarrow> sys_open p flags k = (-1, k)"
  by (simp add: sys_open_def)

lemma sys_open_missing:
  "k_files k p = None \<Longrightarrow> flags AND O_CREAT = 0 \<Longrightarrow> sys_open p flags k = (-1, k)"
  by (simp add: sys_open_def Let_def)

lemma sys_open_rdonly:
  "p \<notin> k_denied k \<Longrightarrow> k_files k p = Some c \<Longrightarrow>
   sys_open p O_RDONLY k = install_file p True False False c k"
  by (simp add: sys_open_def)

lemma install_file_facts:
  assumes "install_file p rd wr app c k = (fd, k')"
  shows "0 \<le> fd" "tbl_get (k_fdt k) fd = None"
    "file_of k' fd = Some \<lparr>of_path = p, of_read = rd, of_write = wr, of_append = app, of_pos = 0\<rparr>"
    "j \<noteq> fd \<Longrightarrow> tbl_get (k_fdt k') j = tbl_get (k_fdt k) j"
    "ring_of k' j = ring_of k j" "k_files k' = (k_files k)(p \<mapsto> c)" "k_heap k' = k_heap k"
    "k_ring_quota k' = k_ring_quota k" "k_faults k' = k_faults k" "n_open k' = Suc (n_open k)"
    "k_fsize_limit k' = k_fsize_limit k" "k_denied k' = k_denied k"
    "k_heap_quota k' = k_heap_quota k" "k_next_addr k' = k_next_addr k" "k_junk k' = k_junk k"
proof -
  obtain t where t: "tbl_install (k_fdt k) (FFile \<lparr>of_path = p, of_read = rd, of_write = wr,
                        of_append = app, of_pos = 0\<rparr>) = (fd, t)"
    and k': "k' = k\<lparr>k_files := (k_files k)(p \<mapsto> c), k_fdt := t\<rparr>"
    using assms by (auto simp: install_file_def split: prod.splits)
  show "0 \<le> fd" using t by (rule tbl_install_nonneg)
  show "tbl_get (k_fdt k) fd = None" using t by (rule tbl_get_install_free)
  show "file_of k' fd = Some \<lparr>of_path = p, of_read = rd, of_write = wr, of_append = app, of_pos = 0\<rparr>"
    using tbl_get_install_new [OF t] k' by (simp add: file_of_def)
  show "j \<noteq> fd \<Longrightarrow> tbl_get (k_fdt k') j = tbl_get (k_fdt k) j"
    using tbl_get_install_other [OF t] k' by simp
  show "ring_of k' j = ring_of k j"
    using tbl_get_install_other [OF t, of j] tbl_get_install_new [OF t] tbl_get_install_free [OF t] k'
    by (cases "j = fd") (simp_all add: ring_of_def)
  show "n_open k' = Suc (n_open k)"
    using tbl_count_install [OF t] k' by (simp add: n_open_def)
qed (use assms in \<open>auto simp: install_file_def split: prod.splits\<close>)

lemma queue_init_fails [kernel_simps]:
  "k_ring_quota k = 0 \<Longrightarrow> io_uring_queue_init n k = (-ENOMEM, -1, k)"
  by (simp add: io_uring_queue_init_def)

lemma queue_init_facts:
  assumes "io_uring_queue_init n k = (ret, rfd, k')" "0 < k_ring_quota k"
  shows "ret = 0" "0 \<le> rfd" "tbl_get (k_fdt k) rfd = None"
    "ring_of k' rfd = Some \<lparr>ring_sq = [], ring_inflight = [], ring_cq = [],
                             ring_sq_entries = n, ring_cq_entries = 2 * n\<rparr>"
    "j \<noteq> rfd \<Longrightarrow> tbl_get (k_fdt k') j = tbl_get (k_fdt k) j"
    "file_of k' j = file_of k j" "k_files k' = k_files k" "k_heap k' = k_heap k"
    "k_ring_quota k' = k_ring_quota k - 1" "k_faults k' = k_faults k" "n_open k' = Suc (n_open k)"
    "k_fsize_limit k' = k_fsize_limit k" "k_heap_quota k' = k_heap_quota k"
    "k_next_addr k' = k_next_addr k" "k_junk k' = k_junk k" "k_denied k' = k_denied k"
proof -
  obtain t where t: "tbl_install (k_fdt k) (FRing \<lparr>ring_sq = [], ring_inflight = [], ring_cq = [],
                        ring_sq_entries = n, ring_cq_entries = 2 * n\<rparr>) = (rfd, t)"
    and k': "k' = k\<lparr>k_fdt := t, k_ring_quota := k_ring_quota k - 1\<rparr>" and "ret = 0"
    using assms by (auto simp: io_uring_queue_init_def split: prod.splits)
  then show "ret = 0" by simp
  show "0 \<le> rfd" using t by (rule tbl_install_nonneg)
  show "tbl_get (k_fdt k) rfd = None" using t by (rule tbl_get_install_free)
  show "ring_of k' rfd = Some \<lparr>ring_sq = [], ring_inflight = [], ring_cq = [],
                             ring_sq_entries = n, ring_cq_entries = 2 * n\<rparr>"
    using tbl_get_install_new [OF t] k' by (simp add: ring_of_def)
  show "j \<noteq> rfd \<Longrightarrow> tbl_get (k_fdt k') j = tbl_get (k_fdt k) j"
    using tbl_get_install_other [OF t] k' by simp
  show "file_of k' j = file_of k j"
    using tbl_get_install_other [OF t, of j] tbl_get_install_new [OF t] tbl_get_install_free [OF t] k'
    by (cases "j = rfd") (simp_all add: file_of_def)
  show "n_open k' = Suc (n_open k)"
    using tbl_count_install [OF t] k' by (simp add: n_open_def)
qed (use assms in \<open>auto simp: io_uring_queue_init_def split: prod.splits if_splits\<close>)

lemma sys_close_file:
  assumes "file_of k fd = Some f"
  shows "sys_close fd k = (0, k\<lparr>k_fdt := tbl_set (k_fdt k) fd None\<rparr>)"
  using file_of_SomeD [OF assms] by (simp add: sys_close_def)

lemma queue_exit_live:
  assumes "ring_of k rfd = Some r"
  shows "io_uring_queue_exit rfd k =
           k\<lparr>k_fdt := tbl_set (k_fdt k) rfd None, k_ring_quota := Suc (k_ring_quota k)\<rparr>"
  using assms by (auto simp: io_uring_queue_exit_def ring_of_def split: option.splits fentry.splits)

lemma queue_exit_released:
  assumes "tbl_get (k_fdt k) rfd = None"
  shows "io_uring_queue_exit rfd k = log_fault (StaleRingExit rfd) k"
  using assms by (simp add: io_uring_queue_exit_def)

subsection \<open>Heap operations leave descriptors alone\<close>

lemma heap_ops_fdt [simp]:
  "k_fdt (snd (aligned_alloc al n k)) = k_fdt k"
  "k_fdt (sys_memset a v n k) = k_fdt k"
  "k_fdt (sys_free a k) = k_fdt k"
  "k_fdt (log_fault f k) = k_fdt k"
  by (simp_all add: aligned_alloc_def sys_memset_def sys_free_def log_fault_def split: option.splits)

lemma fdt_cong:
  assumes "k_fdt k' = k_fdt k"
  shows "file_of k' = file_of k" "ring_of k' = ring_of k" "ring_idle k' = ring_idle k" "n_open k' = n_open k"
  using assms by (simp_all add: file_of_def ring_of_def fun_eq_iff ring_idle_def n_open_def)

lemma file_of_nonneg: "file_of k fd = Some f \<Longrightarrow> 0 \<le> fd"
  by (cases "fd < 0") (auto simp: file_of_def)

lemma ring_of_nonneg: "ring_of k fd = Some r \<Longrightarrow> 0 \<le> fd"
  by (cases "fd < 0") (auto simp: ring_of_def)

lemma aligned_alloc_ok:
  "n \<le> k_heap_quota k \<Longrightarrow>
   aligned_alloc al n k =
     (k_next_addr k,
      k\<lparr>k_heap := (k_heap k)(k_next_addr k \<mapsto> replicate n (k_junk k)),
        k_next_addr := Suc (k_next_addr k), k_heap_quota := k_heap_quota k - n\<rparr>)"
  by (simp add: aligned_alloc_def)

lemma aligned_alloc_fails:
  "k_heap_quota k < n \<Longrightarrow> aligned_alloc al n k = (0, k)"
  by (simp add: aligned_alloc_def)

lemma memset_fresh:
  "k_heap k a = Some (replicate n x) \<Longrightarrow>
   k_heap (sys_memset a v n k) = (k_heap k)(a \<mapsto> replicate n v)"
  by (simp add: sys_memset_def)

lemma sys_free_live:
  "a \<noteq> 0 \<Longrightarrow> k_heap k a = Some b \<Longrightarrow>
   sys_free a k = k\<lparr>k_heap := (k_heap k)(a := None), k_heap_quota := k_heap_quota k + length b\<rparr>"
  by (simp add: sys_free_def)

lemma log_fault_fields [simp]:
  "k_faults (log_fault f k) = k_faults k @ [f]"
  "k_heap (log_fault f k) = k_heap k"
  "k_files (log_fault f k) = k_files k"
  by (simp_all add: log_fault_def)

subsection \<open>Evaluation\<close>

text \<open>The equations that run the model on a concrete state, by \<open>simp\<close>.\<close>

lemmas kernel_eval = sys_open_def install_file_def sys_close_def aligned_alloc_def sys_free_def
  sys_memset_def io_uring_queue_init_def io_uring_queue_exit_def io_uring_get_sqe_def prep_sqe_def
  io_uring_prep_read_def io_uring_prep_write_def io_uring_submit_def k_read_def k_write_def
  k_complete_def io_uring_wait_cqe_def io_uring_cqe_seen_def ring_of_def put_ring_def file_of_def
  contents_of_def log_fault_def tbl_get_def tbl_set_def tbl_install_def ring_idle_def n_open_def
  read_at_def write_at_def

end
