(* ===== verification/Reader_Linux.thy ===== *)
theory Reader_Linux
  imports Linux_Kernel
begin

text \<open>
  The Linux \<open>AsyncFileReader\<close> (\<open>src/include/AsyncFile/AsyncFileReader.hpp\<close> and the
  \<open>__linux__\<close> half of \<open>src/src/AsyncFileReader.cpp\<close>): its fields as a record, and
  each member function as a function of the object and the kernel state that returns
  the new kernel state and, for a function that may throw, the exception as a left
  value. A constructor that throws leaves the kernel state as it was at the throw: no
  destructor runs for an object whose constructor did not finish. A move assignment
  compares object addresses, so it works on a store of objects.
\<close>

record reader =
  r_fd :: int
  r_buffer :: addr
  r_buffer_size :: "64 word"
  r_ring :: int

text \<open>The bytes a \<open>std::string_view\<close> names, while its buffer is live.\<close>

definition sv_bytes :: "kstate \<Rightarrow> sview \<Rightarrow> bytes option" where
  "sv_bytes k v = map_option (take (sv_len v)) (k_heap k (sv_ptr v))"

section \<open>Member functions\<close>

definition reader_cleanup :: "reader \<Rightarrow> kstate \<Rightarrow> kstate" where
  "reader_cleanup r k =
     (let k1 = (if 0 \<le> r_fd r then snd (sys_close (r_fd r) k) else k);
          k2 = (if r_buffer r \<noteq> 0 then sys_free (r_buffer r) k1 else k1)
      in io_uring_queue_exit (r_ring r) k2)"

definition reader_ctor :: "path \<Rightarrow> 64 word \<Rightarrow> kstate \<Rightarrow> (exn + reader) \<times> kstate" where
  "reader_ctor p bsz k =
     (let (fd, k1) = sys_open p O_RDONLY k
      in if fd < 0 then (Inl (ReaderOpenFailed p), k1)
      else let (ret, rfd, k2) = io_uring_queue_init 8 k1
      in if ret < 0 then (Inl RingInitFailed, k2)
      else let (buf, k3) = aligned_alloc 4096 (unat bsz) k2
      in if buf = 0 then (Inl BufferAllocFailed, k3)
      else (Inr \<lparr>r_fd = fd, r_buffer = buf, r_buffer_size = bsz, r_ring = rfd\<rparr>,
            sys_memset buf 0 (unat bsz) k3))"

text \<open>
  The move constructor: the new object, and the source as it is left. Only the
  descriptor and the buffer pointer of the source are reset; \<open>ring_\<close> is copied, so
  both objects name the same io\_uring instance.
\<close>

definition reader_move :: "reader \<Rightarrow> reader \<times> reader" where
  "reader_move other =
     (\<lparr>r_fd = r_fd other, r_buffer = r_buffer other,
       r_buffer_size = r_buffer_size other, r_ring = r_ring other\<rparr>,
      other\<lparr>r_fd := -1, r_buffer := 0\<rparr>)"

definition reader_move_assign ::
  "'o \<Rightarrow> 'o \<Rightarrow> ('o \<rightharpoonup> reader) \<Rightarrow> kstate \<Rightarrow> ('o \<rightharpoonup> reader) \<times> kstate" where
  "reader_move_assign this other objs k =
     (if this = other then (objs, k)
      else case (objs this, objs other) of
        (Some t, Some s) \<Rightarrow>
          (let k1 = reader_cleanup t k;
               t' = t\<lparr>r_fd := r_fd s, r_buffer := r_buffer s,
                      r_buffer_size := r_buffer_size s, r_ring := r_ring s\<rparr>;
               s' = s\<lparr>r_fd := -1, r_buffer := 0\<rparr>
           in (objs(this \<mapsto> t', other \<mapsto> s'), k1))
      | _ \<Rightarrow> (objs, k))"

text \<open>
  \<open>readAsync(offset)\<close>: the byte count handed to \<open>io_uring_prep_read\<close> is an
  \<open>unsigned\<close>, so \<open>buffer_size_\<close> reaches the kernel truncated to 32 bits; the result
  of \<open>io_uring_submit\<close> is discarded.
\<close>

definition reader_readAsync :: "reader \<Rightarrow> 64 word \<Rightarrow> kstate \<Rightarrow> (exn + unit) \<times> kstate" where
  "reader_readAsync r off k =
     (case io_uring_get_sqe (r_ring r) k of
        (None, k1) \<Rightarrow> (Inl SqeUnavailable, k1)
      | (Some i, k1) \<Rightarrow>
          let k2 = io_uring_prep_read (r_ring r) i (r_fd r) (r_buffer r)
                     (ucast (r_buffer_size r)) off k1;
              k3 = snd (io_uring_submit (r_ring r) k2)
          in (Inr (), k3))"

text \<open>
  \<open>waitAndGetResult()\<close>: \<open>None\<close> when the wait never returns; otherwise the view of the
  bytes read or the exception.
\<close>

definition reader_waitAndGetResult :: "reader \<Rightarrow> kstate \<Rightarrow> ((exn + sview) \<times> kstate) option" where
  "reader_waitAndGetResult r k =
     (case io_uring_wait_cqe (r_ring r) k of
        None \<Rightarrow> None
      | Some (ret, res, k1) \<Rightarrow>
          if ret < 0 then Some (Inl ReadWaitFailed, k1)
          else if res < 0 then Some (Inl (ReadFailed (- res)), io_uring_cqe_seen (r_ring r) k1)
          else Some (Inr \<lparr>sv_ptr = r_buffer r, sv_len = nat res\<rparr>, io_uring_cqe_seen (r_ring r) k1))"

definition reader_dtor :: "reader \<Rightarrow> kstate \<Rightarrow> kstate" where
  "reader_dtor r k = reader_cleanup r k"

text \<open>
  How \<open>src/examples/main.cpp\<close> reads: \<open>readAsync\<close>, then \<open>waitAndGetResult\<close> when the
  submission did not throw.
\<close>

definition reader_read_once :: "reader \<Rightarrow> 64 word \<Rightarrow> kstate \<Rightarrow> ((exn + sview) \<times> kstate) option" where
  "reader_read_once r off k =
     (case reader_readAsync r off k of
        (Inl e, k1) \<Rightarrow> Some (Inl e, k1)
      | (Inr _, k1) \<Rightarrow> reader_waitAndGetResult r k1)"

section \<open>Invariant\<close>

text \<open>
  A usable reader: its descriptor is open for reading, its buffer is a live block of
  \<open>buffer_size_\<close> bytes, and its io\_uring instance is live with nothing pending.
\<close>

definition reader_ok :: "reader \<Rightarrow> kstate \<Rightarrow> bool" where
  "reader_ok r k \<longleftrightarrow>
     (case file_of k (r_fd r) of None \<Rightarrow> False | Some f \<Rightarrow> of_read f) \<and>
     r_buffer r \<noteq> 0 \<and>
     (case k_heap k (r_buffer r) of None \<Rightarrow> False | Some b \<Rightarrow> length b = unat (r_buffer_size r)) \<and>
     ring_idle k (r_ring r)"

section \<open>Lemmas\<close>

subsection \<open>One request\<close>

lemma reader_readAsync_idle:
  assumes "ring_of k (r_ring r) = Some rg" "ring_idle k (r_ring r)"
  shows "reader_readAsync r off k =
           (Inr (), put_ring k (r_ring r)
              (rg\<lparr>ring_inflight := [SqeRead (r_fd r) (r_buffer r) (ucast (r_buffer_size r)) off]\<rparr>))"
proof -
  have k: "put_ring k (r_ring r) rg = k" using assms(1) by (simp add: put_ring_same)
  from assms have idle: "ring_sq rg = []" "ring_inflight rg = []" "ring_cq rg = []"
    "0 < ring_sq_entries rg" "0 < ring_cq_entries rg"
    by (auto simp: ring_idle_def)
  have "reader_readAsync r off (put_ring k (r_ring r) rg) =
          (Inr (), put_ring k (r_ring r)
             (rg\<lparr>ring_inflight := [SqeRead (r_fd r) (r_buffer r) (ucast (r_buffer_size r)) off]\<rparr>))"
    using assms(1) idle
    by (cases rg) (simp add: reader_readAsync_def io_uring_prep_read_def get_sqe_put_ring
                             prep_sqe_put_ring submit_put_ring Suc_le_eq)
  then show ?thesis by (simp only: k)
qed

lemma reader_wait_one:
  assumes "ring_of k (r_ring r) = Some rg" "ring_idle k (r_ring r)"
  shows "reader_waitAndGetResult r (put_ring k (r_ring r) (rg\<lparr>ring_inflight := [e]\<rparr>)) =
           Some (let (res, k1) = k_exec e k
                 in if res < 0 then (Inl (ReadFailed (- res)), k1)
                    else (Inr \<lparr>sv_ptr = r_buffer r, sv_len = nat res\<rparr>, k1))"
  using wait_one_inflight [OF assms] seen_after_one [OF assms]
  by (simp add: reader_waitAndGetResult_def split: prod.splits)

text \<open>
  A submit followed by a wait on an idle reader performs exactly one positional read
  of the kernel, and returns either the view of what it read or its error; the
  instance is idle again afterwards.
\<close>

lemma reader_cycle:
  assumes "ring_idle k (r_ring r)"
  shows "reader_read_once r off k =
           Some (let (res, k1) = k_read (r_fd r) (r_buffer r) (ucast (r_buffer_size r)) off k
                 in if res < 0 then (Inl (ReadFailed (- res)), k1)
                    else (Inr \<lparr>sv_ptr = r_buffer r, sv_len = nat res\<rparr>, k1))"
proof -
  obtain rg where rg: "ring_of k (r_ring r) = Some rg" using assms by (auto dest: ring_idleD)
  show ?thesis
    using reader_readAsync_idle [OF rg assms] reader_wait_one [OF rg assms]
    by (simp add: reader_read_once_def)
qed

lemma reader_read_file:
  assumes "reader_ok r k" "0 \<le> sint off" "file_of k (r_fd r) = Some f"
    and "d = read_at (contents_of k (of_path f)) (unat off)
               (min (unat (r_buffer_size r) mod 2 ^ 32) MAX_RW_COUNT)"
  shows "reader_read_once r off k =
           Some (Inr \<lparr>sv_ptr = r_buffer r, sv_len = length d\<rparr>,
                 k\<lparr>k_heap := (k_heap k)(r_buffer r \<mapsto> d @ drop (length d) (the (k_heap k (r_buffer r))))\<rparr>)"
proof -
  from assms(1,3) obtain b where b: "k_heap k (r_buffer r) = Some b"
    and len: "length b = unat (r_buffer_size r)" and rd: "of_read f" and idle: "ring_idle k (r_ring r)"
    by (auto simp: reader_ok_def split: option.splits)
  have "min (unat (ucast (r_buffer_size r) :: 32 word)) MAX_RW_COUNT \<le> length b"
    using len by (simp add: unat_ucast_32)
  then have "k_read (r_fd r) (r_buffer r) (ucast (r_buffer_size r)) off k =
               (int (length d), k\<lparr>k_heap := (k_heap k)(r_buffer r \<mapsto> d @ drop (length d) b)\<rparr>)"
    using k_read_file [OF assms(3) rd assms(2) b] assms(4) by (simp add: unat_ucast_32 Let_def)
  then show ?thesis
    using reader_cycle [OF idle, of off] b by simp
qed

subsection \<open>Construction\<close>

text \<open>C23. Constructing a reader on a path that cannot be opened (missing or refused) throws the open failure and leaves the kernel state exactly as it was: no descriptor, io\_uring instance or buffer is left behind.\<close>

lemma reader_ctor_open_failure:
  assumes "p \<in> k_denied k \<or> k_files k p = None"
  shows "reader_ctor p bsz k = (Inl (ReaderOpenFailed p), k)"
proof -
  have "sys_open p O_RDONLY k = (-1, k)"
    using assms by (auto simp: sys_open_refused sys_open_missing)
  then show ?thesis by (simp add: reader_ctor_def)
qed

lemma reader_ctor_opened:
  assumes "p \<notin> k_denied k" "k_files k p = Some c"
  obtains fd k1 where "install_file p True False False c k = (fd, k1)"
    "reader_ctor p bsz k =
       (let (ret, rfd, k2) = io_uring_queue_init 8 k1
        in if ret < 0 then (Inl RingInitFailed, k2)
        else let (buf, k3) = aligned_alloc 4096 (unat bsz) k2
        in if buf = 0 then (Inl BufferAllocFailed, k3)
        else (Inr \<lparr>r_fd = fd, r_buffer = buf, r_buffer_size = bsz, r_ring = rfd\<rparr>,
              sys_memset buf 0 (unat bsz) k3))"
proof -
  obtain fd k1 where i: "install_file p True False False c k = (fd, k1)" by fastforce
  have "0 \<le> fd" using install_file_facts (1) [OF i] .
  with assms i have "reader_ctor p bsz k =
       (let (ret, rfd, k2) = io_uring_queue_init 8 k1
        in if ret < 0 then (Inl RingInitFailed, k2)
        else let (buf, k3) = aligned_alloc 4096 (unat bsz) k2
        in if buf = 0 then (Inl BufferAllocFailed, k3)
        else (Inr \<lparr>r_fd = fd, r_buffer = buf, r_buffer_size = bsz, r_ring = rfd\<rparr>,
              sys_memset buf 0 (unat bsz) k3))"
    by (simp add: reader_ctor_def sys_open_rdonly)
  with i show ?thesis by (rule that)
qed

text \<open>C24. When the io\_uring instance cannot be created, the reader constructor throws, but the descriptor it has already opened stays open with nothing referring to it: the open-descriptor count grows by one.\<close>

lemma reader_ctor_ring_failure:
  assumes "p \<notin> k_denied k" "k_files k p = Some c" "k_ring_quota k = 0"
  shows "\<exists>k'. reader_ctor p bsz k = (Inl RingInitFailed, k') \<and> n_open k' = Suc (n_open k)"
proof -
  obtain fd k1 where i: "install_file p True False False c k = (fd, k1)"
    and ctor: "reader_ctor p bsz k =
       (let (ret, rfd, k2) = io_uring_queue_init 8 k1
        in if ret < 0 then (Inl RingInitFailed, k2)
        else let (buf, k3) = aligned_alloc 4096 (unat bsz) k2
        in if buf = 0 then (Inl BufferAllocFailed, k3)
        else (Inr \<lparr>r_fd = fd, r_buffer = buf, r_buffer_size = bsz, r_ring = rfd\<rparr>,
              sys_memset buf 0 (unat bsz) k3))"
    using reader_ctor_opened [OF assms(1,2)] by blast
  note F = install_file_facts [OF i]
  have "io_uring_queue_init 8 k1 = (-ENOMEM, -1, k1)"
    using F(8) assms(3) by (simp add: queue_init_fails)
  with ctor F(10) show ?thesis by simp
qed

text \<open>C26. When the buffer cannot be allocated, the reader constructor throws, but the descriptor and the io\_uring instance it has already acquired stay allocated.\<close>

lemma reader_ctor_alloc_failure:
  assumes "p \<notin> k_denied k" "k_files k p = Some c" "0 < k_ring_quota k"
    and "k_heap_quota k < unat bsz"
  shows "\<exists>k'. reader_ctor p bsz k = (Inl BufferAllocFailed, k') \<and>
              n_open k' = n_open k + 2 \<and> k_ring_quota k' = k_ring_quota k - 1"
proof -
  obtain fd k1 where i: "install_file p True False False c k = (fd, k1)"
    and ctor: "reader_ctor p bsz k =
       (let (ret, rfd, k2) = io_uring_queue_init 8 k1
        in if ret < 0 then (Inl RingInitFailed, k2)
        else let (buf, k3) = aligned_alloc 4096 (unat bsz) k2
        in if buf = 0 then (Inl BufferAllocFailed, k3)
        else (Inr \<lparr>r_fd = fd, r_buffer = buf, r_buffer_size = bsz, r_ring = rfd\<rparr>,
              sys_memset buf 0 (unat bsz) k3))"
    using reader_ctor_opened [OF assms(1,2)] by blast
  note F = install_file_facts [OF i]
  obtain ret rfd k2 where q: "io_uring_queue_init 8 k1 = (ret, rfd, k2)"
    by (cases "io_uring_queue_init 8 k1") auto
  have quota: "0 < k_ring_quota k1" using F assms by simp
  note Q = queue_init_facts [OF q quota]
  have "aligned_alloc 4096 (unat bsz) k2 = (0, k2)"
    using Q(13) F(13) assms(4) by (simp add: aligned_alloc_fails)
  with ctor q Q(1,9,11) F(8,10) show ?thesis by simp
qed

lemma reader_ctor_ok:
  assumes "p \<notin> k_denied k" "k_files k p = Some c" "0 < k_ring_quota k"
    and "unat bsz \<le> k_heap_quota k" "0 < k_next_addr k"
  shows "\<exists>r k'. reader_ctor p bsz k = (Inr r, k') \<and> reader_ok r k' \<and>
            r_buffer_size r = bsz \<and> k_heap k' (r_buffer r) = Some (replicate (unat bsz) 0) \<and>
            file_of k' (r_fd r) =
              Some \<lparr>of_path = p, of_read = True, of_write = False, of_append = False, of_pos = 0\<rparr> \<and>
            k_files k' = k_files k \<and> n_open k' = n_open k + 2 \<and>
            k_ring_quota k' = k_ring_quota k - 1 \<and> k_heap_quota k' = k_heap_quota k - unat bsz \<and>
            k_faults k' = k_faults k \<and> k_denied k' = k_denied k \<and>
            r_buffer r = k_next_addr k \<and> k_next_addr k' = Suc (k_next_addr k) \<and>
            (\<forall>a. a \<noteq> r_buffer r \<longrightarrow> k_heap k' a = k_heap k a) \<and> k_fsize_limit k' = k_fsize_limit k"
proof -
  obtain fd k1 where i: "install_file p True False False c k = (fd, k1)"
    and ctor: "reader_ctor p bsz k =
       (let (ret, rfd, k2) = io_uring_queue_init 8 k1
        in if ret < 0 then (Inl RingInitFailed, k2)
        else let (buf, k3) = aligned_alloc 4096 (unat bsz) k2
        in if buf = 0 then (Inl BufferAllocFailed, k3)
        else (Inr \<lparr>r_fd = fd, r_buffer = buf, r_buffer_size = bsz, r_ring = rfd\<rparr>,
              sys_memset buf 0 (unat bsz) k3))"
    using reader_ctor_opened [OF assms(1,2)] by blast
  note F = install_file_facts [OF i]
  obtain ret rfd k2 where q: "io_uring_queue_init 8 k1 = (ret, rfd, k2)"
    by (cases "io_uring_queue_init 8 k1") auto
  have quota: "0 < k_ring_quota k1" using F assms by simp
  note Q = queue_init_facts [OF q quota]
  define buf where "buf = k_next_addr k"
  define k3 where "k3 = k2\<lparr>k_heap := (k_heap k2)(buf \<mapsto> replicate (unat bsz) (k_junk k2)),
        k_next_addr := Suc (k_next_addr k2), k_heap_quota := k_heap_quota k2 - unat bsz\<rparr>"
  have alloc: "aligned_alloc 4096 (unat bsz) k2 = (buf, k3)"
    using Q(13,14) F(13,14) assms(4) by (simp add: aligned_alloc_ok buf_def k3_def)
  have "buf \<noteq> 0" using assms(5) by (simp add: buf_def)
  define r where "r = \<lparr>r_fd = fd, r_buffer = buf, r_buffer_size = bsz, r_ring = rfd\<rparr>"
  define k' where "k' = sys_memset buf 0 (unat bsz) k3"
  have res: "reader_ctor p bsz k = (Inr r, k')"
    using ctor q Q(1) alloc \<open>buf \<noteq> 0\<close> by (simp add: r_def k'_def)
  have fdt: "k_fdt k' = k_fdt k2" by (simp add: k'_def k3_def)
  have heap: "k_heap k' buf = Some (replicate (unat bsz) 0)"
    by (simp add: k'_def k3_def sys_memset_def)
  have fopen: "file_of k' fd =
      Some \<lparr>of_path = p, of_read = True, of_write = False, of_append = False, of_pos = 0\<rparr>"
    using fdt_cong(1) [OF fdt] Q(6) F(3) by simp
  have idle: "ring_idle k' rfd"
    using fdt_cong(3) [OF fdt] Q(4) by (simp add: ring_idle_def)
  have "reader_ok r k'"
    using fopen heap idle \<open>buf \<noteq> 0\<close> by (simp add: reader_ok_def r_def)
  moreover have "k_files k' = k_files k"
    using Q(7) F(6) assms(2) by (auto simp: k'_def k3_def sys_memset_def split: option.splits)
  moreover have "n_open k' = n_open k + 2"
    using fdt_cong(4) [OF fdt] Q(11) F(10) by simp
  moreover have "k_ring_quota k' = k_ring_quota k - 1 \<and> k_heap_quota k' = k_heap_quota k - unat bsz \<and>
                 k_faults k' = k_faults k \<and> k_denied k' = k_denied k \<and>
                 k_next_addr k' = Suc (k_next_addr k) \<and> k_fsize_limit k' = k_fsize_limit k"
    using Q(9,10,12,13,14,16) F(8,9,11,12,13,14) by (simp add: k'_def k3_def sys_memset_def)
  moreover have "\<forall>a. a \<noteq> buf \<longrightarrow> k_heap k' a = k_heap k a"
    using Q(8) F(7) by (simp add: k'_def k3_def sys_memset_def)
  ultimately show ?thesis using res heap fopen by (auto simp: r_def buf_def)
qed

subsection \<open>Destruction and move\<close>

lemma reader_okD:
  assumes "reader_ok r k"
  obtains f b rg where "file_of k (r_fd r) = Some f" "of_read f" "r_buffer r \<noteq> 0"
    "k_heap k (r_buffer r) = Some b" "length b = unat (r_buffer_size r)"
    "ring_of k (r_ring r) = Some rg" "ring_idle k (r_ring r)" "r_fd r \<noteq> r_ring r" "0 \<le> r_fd r"
proof -
  from assms obtain f b rg where f: "file_of k (r_fd r) = Some f" and rg: "ring_of k (r_ring r) = Some rg"
    and rest: "of_read f" "r_buffer r \<noteq> 0" "k_heap k (r_buffer r) = Some b"
      "length b = unat (r_buffer_size r)" "ring_idle k (r_ring r)"
    by (auto simp: reader_ok_def ring_idle_def split: option.splits)
  have "r_fd r \<noteq> r_ring r" using ring_of_file_of_disjoint [of k "r_ring r" "r_fd r"] f rg by simp
  then show ?thesis
    by (rule that [OF f rest(1,2,3,4) rg rest(5) _ file_of_nonneg [OF f]])
qed

text \<open>Overwriting the buffer with as many bytes keeps a reader usable.\<close>

lemma reader_ok_fill:
  assumes "reader_ok r k" "k_heap k (r_buffer r) = Some b" "length b' = length b"
  shows "reader_ok r (k\<lparr>k_heap := (k_heap k)(r_buffer r \<mapsto> b')\<rparr>)"
  using assms by (auto simp: reader_ok_def file_of_def ring_idle_def ring_of_def)

lemma reader_cleanup_ok:
  assumes "reader_ok r k"
  shows "reader_cleanup r k =
           k\<lparr>k_fdt := tbl_set (tbl_set (k_fdt k) (r_fd r) None) (r_ring r) None,
             k_heap := (k_heap k)(r_buffer r := None),
             k_heap_quota := k_heap_quota k + unat (r_buffer_size r),
             k_ring_quota := Suc (k_ring_quota k)\<rparr>"
proof -
  obtain f b rg where f: "file_of k (r_fd r) = Some f" and nz: "r_buffer r \<noteq> 0"
    and b: "k_heap k (r_buffer r) = Some b" "length b = unat (r_buffer_size r)"
    and rg: "ring_of k (r_ring r) = Some rg" and ne: "r_fd r \<noteq> r_ring r" and pos: "0 \<le> r_fd r"
    using assms by (rule reader_okD)
  define k1 where "k1 = k\<lparr>k_fdt := tbl_set (k_fdt k) (r_fd r) None\<rparr>"
  have c: "sys_close (r_fd r) k = (0, k1)" using sys_close_file [OF f] by (simp add: k1_def)
  define k2 where "k2 = k1\<lparr>k_heap := (k_heap k1)(r_buffer r := None),
                            k_heap_quota := k_heap_quota k1 + length b\<rparr>"
  have fr: "sys_free (r_buffer r) k1 = k2"
    using sys_free_live [OF nz, of k1 b] b by (simp add: k1_def k2_def)
  have "ring_of k2 (r_ring r) = Some rg"
    using rg ne by (simp add: k2_def k1_def ring_of_def tbl_get_set_other)
  then have "io_uring_queue_exit (r_ring r) k2 =
               k2\<lparr>k_fdt := tbl_set (k_fdt k2) (r_ring r) None, k_ring_quota := Suc (k_ring_quota k2)\<rparr>"
    by (rule queue_exit_live)
  then show ?thesis
    using c fr pos nz b by (simp add: reader_cleanup_def k1_def k2_def)
qed

lemma reader_cleanup_releases:
  assumes "reader_ok r k"
  shows "n_open (reader_cleanup r k) + 2 = n_open k"
    "k_heap (reader_cleanup r k) (r_buffer r) = None"
    "k_faults (reader_cleanup r k) = k_faults k"
    "k_files (reader_cleanup r k) = k_files k"
proof -
  obtain f b rg where f: "file_of k (r_fd r) = Some f"
    and rg: "ring_of k (r_ring r) = Some rg" and ne: "r_fd r \<noteq> r_ring r"
    using assms by (rule reader_okD)
  have p1: "tbl_get (k_fdt k) (r_fd r) \<noteq> None" using file_of_SomeD [OF f] by simp
  have p2: "tbl_get (tbl_set (k_fdt k) (r_fd r) None) (r_ring r) \<noteq> None"
    using rg ne by (auto simp: ring_of_def tbl_get_set_other split: option.splits)
  show "n_open (reader_cleanup r k) + 2 = n_open k"
    using tbl_count_set_None [OF p1] tbl_count_set_None [OF p2]
    by (simp add: reader_cleanup_ok [OF assms] n_open_def)
qed (simp_all add: reader_cleanup_ok [OF assms])

lemma reader_move_eq: "reader_move r = (r, r\<lparr>r_fd := -1, r_buffer := 0\<rparr>)"
  by (simp add: reader_move_def)

lemma reader_cleanup_moved_from:
  "reader_cleanup (r\<lparr>r_fd := -1, r_buffer := 0\<rparr>) k = io_uring_queue_exit (r_ring r) k"
  by (simp add: reader_cleanup_def)

text \<open>After the move constructor, destroying the moved-from reader releases the io\_uring instance the new reader still names, while the new reader keeps its file and its buffer.\<close>

lemma reader_move_source_dtor:
  assumes "reader_ok r k" "reader_move r = (dst, src)"
  shows "ring_of (reader_dtor src k) (r_ring dst) = None \<and>
         file_of (reader_dtor src k) (r_fd dst) = file_of k (r_fd r) \<and>
         k_heap (reader_dtor src k) (r_buffer dst) = k_heap k (r_buffer r)"
proof -
  obtain f b rg where f: "file_of k (r_fd r) = Some f"
    and rg: "ring_of k (r_ring r) = Some rg" and ne: "r_fd r \<noteq> r_ring r"
    using assms(1) by (rule reader_okD)
  have d: "dst = r" using assms(2) by (simp add: reader_move_eq)
  have s: "src = r\<lparr>r_fd := -1, r_buffer := 0\<rparr>" using assms(2) by (auto simp: reader_move_eq)
  have "reader_dtor src k =
          k\<lparr>k_fdt := tbl_set (k_fdt k) (r_ring r) None, k_ring_quota := Suc (k_ring_quota k)\<rparr>"
    using queue_exit_live [OF rg] by (simp add: s reader_dtor_def reader_cleanup_moved_from)
  then show ?thesis
    using f rg ne by (simp add: d ring_of_def file_of_def tbl_get_set split: option.splits)
qed

text \<open>Destroying the moved-from reader and then the new reader releases the same io\_uring instance twice.\<close>

theorem reader_move_double_release:
  assumes "reader_ok r k" "reader_move r = (dst, src)"
  shows "StaleRingExit (r_ring r) \<in> set (k_faults (reader_dtor dst (reader_dtor src k)))"
proof -
  obtain f b rg where f: "file_of k (r_fd r) = Some f" and nz: "r_buffer r \<noteq> 0"
    and b: "k_heap k (r_buffer r) = Some b"
    and rg: "ring_of k (r_ring r) = Some rg" and ne: "r_fd r \<noteq> r_ring r" and pos: "0 \<le> r_fd r"
    using assms(1) by (rule reader_okD)
  have d: "dst = r" using assms(2) by (simp add: reader_move_eq)
  have s: "src = r\<lparr>r_fd := -1, r_buffer := 0\<rparr>" using assms(2) by (auto simp: reader_move_eq)
  define k1 where "k1 = k\<lparr>k_fdt := tbl_set (k_fdt k) (r_ring r) None, k_ring_quota := Suc (k_ring_quota k)\<rparr>"
  have k1: "reader_dtor src k = k1"
    using queue_exit_live [OF rg] by (simp add: s k1_def reader_dtor_def reader_cleanup_moved_from)
  have f1: "file_of k1 (r_fd r) = Some f"
    using f ne by (simp add: k1_def file_of_def tbl_get_set_other)
  define k2 where "k2 = k1\<lparr>k_fdt := tbl_set (k_fdt k1) (r_fd r) None\<rparr>"
  define k3 where "k3 = sys_free (r_buffer r) k2"
  have gone: "tbl_get (k_fdt k3) (r_ring r) = None"
    using ne by (simp add: k3_def k2_def k1_def tbl_get_set_other)
  have "reader_dtor dst k1 = log_fault (StaleRingExit (r_ring r)) k3"
    using sys_close_file [OF f1] pos nz queue_exit_released [OF gone]
    by (simp add: d reader_dtor_def reader_cleanup_def k3_def k2_def)
  then show ?thesis by (simp add: k1)
qed

section \<open>Properties\<close>

text \<open>C37. \<open>waitAndGetResult\<close> on a reader with no submitted request never returns.\<close>

lemma reader_wait_idle_blocks:
  assumes "ring_idle k (r_ring r)"
  shows "reader_waitAndGetResult r k = None"
proof -
  obtain rg where rg: "ring_of k (r_ring r) = Some rg" and e: "ring_cq rg = []" "ring_inflight rg = []"
    using assms by (auto dest: ring_idleD)
  have "io_uring_wait_cqe (r_ring r) (put_ring k (r_ring r) rg) = None"
    using rg e by (simp add: wait_cqe_put_ring)
  then show ?thesis using rg by (simp add: put_ring_same reader_waitAndGetResult_def)
qed

text \<open>C39. On an idle reader, \<open>readAsync\<close> followed by \<open>waitAndGetResult\<close> returns.\<close>

lemma reader_read_returns:
  assumes "ring_idle k (r_ring r)"
  shows "\<exists>res. reader_read_once r off k = Some res"
  using reader_cycle [OF assms] by (simp split: prod.splits)

text \<open>C21. A read at a non-negative offset on a usable reader succeeds and leaves the reader usable (invariant \<open>reader_ok\<close>).\<close>

lemma reader_read_keeps_ok:
  assumes "reader_ok r k" "0 \<le> sint off"
  shows "\<exists>v k'. reader_read_once r off k = Some (Inr v, k') \<and> reader_ok r k'"
proof -
  obtain f b rg where f: "file_of k (r_fd r) = Some f" and b: "k_heap k (r_buffer r) = Some b"
    "length b = unat (r_buffer_size r)"
    using assms(1) by (rule reader_okD)
  define d where "d = read_at (contents_of k (of_path f)) (unat off)
               (min (unat (r_buffer_size r) mod 2 ^ 32) MAX_RW_COUNT)"
  have dl: "length d \<le> length b" using b(2) by (simp add: d_def)
  define k' where "k' = k\<lparr>k_heap := (k_heap k)(r_buffer r \<mapsto> d @ drop (length d) b)\<rparr>"
  have "reader_read_once r off k = Some (Inr \<lparr>sv_ptr = r_buffer r, sv_len = length d\<rparr>, k')"
    using reader_read_file [OF assms f d_def] b by (simp add: k'_def)
  moreover have "reader_ok r k'"
    using reader_ok_fill [OF assms(1) b(1)] dl by (simp add: k'_def)
  ultimately show ?thesis by blast
qed

text \<open>C3. With a buffer of n bytes, n not above the kernel cap nor the file length, a read at offset 0 yields exactly the first n bytes of the file.\<close>

lemma reader_short_read:
  assumes "reader_ok r k" "file_of k (r_fd r) = Some f"
    and "unat (r_buffer_size r) \<le> MAX_RW_COUNT" "unat (r_buffer_size r) \<le> length (contents_of k (of_path f))"
  shows "\<exists>v k'. reader_read_once r 0 k = Some (Inr v, k') \<and>
            sv_bytes k' v = Some (take (unat (r_buffer_size r)) (contents_of k (of_path f)))"
proof -
  obtain b where b: "k_heap k (r_buffer r) = Some b" "length b = unat (r_buffer_size r)"
    using assms(1) by (rule reader_okD)
  have small: "unat (r_buffer_size r) mod 2 ^ 32 = unat (r_buffer_size r)"
    using assms(3) by simp
  define d where "d = read_at (contents_of k (of_path f)) (unat (0 :: 64 word))
               (min (unat (r_buffer_size r) mod 2 ^ 32) MAX_RW_COUNT)"
  have d: "d = take (unat (r_buffer_size r)) (contents_of k (of_path f))"
    using assms(3) small by (simp add: d_def read_at_def)
  show ?thesis
    using reader_read_file [OF assms(1) _ assms(2) d_def] b d assms(4)
    by (simp add: sv_bytes_def)
qed

text \<open>C19. A read at an offset at or past the end of the file succeeds with a zero-length view.\<close>

lemma reader_read_at_eof:
  assumes "reader_ok r k" "file_of k (r_fd r) = Some f" "0 \<le> sint off"
    and "length (contents_of k (of_path f)) \<le> unat off"
  shows "\<exists>k'. reader_read_once r off k = Some (Inr \<lparr>sv_ptr = r_buffer r, sv_len = 0\<rparr>, k')"
  using reader_read_file [OF assms(1,3,2) refl] assms(4) by simp

text \<open>C15. The length of the view a read returns is the least of \<open>buffer_size_\<close> modulo 2 to the 32, the kernel cap and the bytes left in the file: the buffer size reaches the kernel truncated to 32 bits.\<close>

lemma reader_view_length:
  assumes "reader_ok r k" "0 \<le> sint off" "file_of k (r_fd r) = Some f"
  shows "\<exists>k'. reader_read_once r off k =
           Some (Inr \<lparr>sv_ptr = r_buffer r,
                      sv_len = min (min (unat (r_buffer_size r) mod 2 ^ 32) MAX_RW_COUNT)
                                   (length (contents_of k (of_path f)) - unat off)\<rparr>, k')"
  using reader_read_file [OF assms refl] by simp

text \<open>C30. A successful reader construction followed by its destruction gives back everything: the descriptor count, the io\_uring quota and the heap quota return to their initial values and no fault is logged.\<close>

lemma reader_lifecycle_balance:
  assumes "reader_ctor p bsz k = (Inr r, k1)"
    and "p \<notin> k_denied k" "k_files k p = Some c" "0 < k_ring_quota k"
    and "unat bsz \<le> k_heap_quota k" "0 < k_next_addr k"
  shows "n_open (reader_dtor r k1) = n_open k \<and> k_ring_quota (reader_dtor r k1) = k_ring_quota k
         \<and> k_heap_quota (reader_dtor r k1) = k_heap_quota k \<and> k_faults (reader_dtor r k1) = k_faults k"
proof -
  obtain r' k' where c: "reader_ctor p bsz k = (Inr r', k')" and ok: "reader_ok r' k'"
    and sz: "r_buffer_size r' = bsz" and q: "n_open k' = n_open k + 2"
      "k_ring_quota k' = k_ring_quota k - 1" "k_heap_quota k' = k_heap_quota k - unat bsz"
      "k_faults k' = k_faults k"
    using reader_ctor_ok [OF assms(2-6)] by blast
  have r: "r' = r" "k' = k1" using c assms(1) by simp_all
  show ?thesis
    using reader_cleanup_releases [OF ok] reader_cleanup_ok [OF ok] q sz assms(4,5) r
    by (simp add: reader_dtor_def)
qed

end
