(* ===== verification/Writer_Linux.thy ===== *)
theory Writer_Linux
  imports Linux_Kernel
begin

text \<open>
  The Linux \<open>AsyncFileWriter\<close> (\<open>src/include/AsyncFile/AsyncFileWriter.hpp\<close> and the
  \<open>__linux__\<close> half of \<open>src/src/AsyncFileWriter.cpp\<close>), modelled as the reader is. The
  writer borrows its data: \<open>buffer_\<close> is the address of a block of the caller, which the
  kernel reads only when it executes the request. \<open>writeAsync\<close> stores the pointer and
  the size in the object before it can throw, so it returns the updated object on both
  branches.
\<close>

unbundle bit_operations_syntax

record writer =
  w_fd :: int
  w_buffer :: addr
  w_buffer_size :: "64 word"
  w_ring :: int

section \<open>Member functions\<close>

definition writer_cleanup :: "writer \<Rightarrow> kstate \<Rightarrow> kstate" where
  "writer_cleanup w k =
     (let k1 = (if 0 \<le> w_fd w then snd (sys_close (w_fd w) k) else k)
      in io_uring_queue_exit (w_ring w) k1)"

text \<open>The flags of \<open>open\<close>: \<open>O_WRONLY | O_CREAT\<close>, then \<open>O_APPEND\<close> or \<open>O_TRUNC\<close>.\<close>

definition writer_flags :: "bool \<Rightarrow> int" where
  "writer_flags app = (O_WRONLY OR O_CREAT) OR (if app then O_APPEND else O_TRUNC)"

definition writer_ctor :: "path \<Rightarrow> bool \<Rightarrow> kstate \<Rightarrow> (exn + writer) \<times> kstate" where
  "writer_ctor p app k =
     (let (fd, k1) = sys_open p (writer_flags app) k
      in if fd < 0 then (Inl (WriterOpenFailed p), k1)
      else let (ret, rfd, k2) = io_uring_queue_init 8 k1
      in if ret < 0 then (Inl RingInitFailed, k2)
      else (Inr \<lparr>w_fd = fd, w_buffer = 0, w_buffer_size = 0, w_ring = rfd\<rparr>, k2))"

text \<open>The move constructor: the new object, and the source as it is left.\<close>

definition writer_move :: "writer \<Rightarrow> writer \<times> writer" where
  "writer_move other =
     (\<lparr>w_fd = w_fd other, w_buffer = w_buffer other,
       w_buffer_size = w_buffer_size other, w_ring = w_ring other\<rparr>,
      other\<lparr>w_fd := -1, w_buffer := 0\<rparr>)"

definition writer_move_assign ::
  "'o \<Rightarrow> 'o \<Rightarrow> ('o \<rightharpoonup> writer) \<Rightarrow> kstate \<Rightarrow> ('o \<rightharpoonup> writer) \<times> kstate" where
  "writer_move_assign this other objs k =
     (if this = other then (objs, k)
      else case (objs this, objs other) of
        (Some t, Some s) \<Rightarrow>
          (let k1 = writer_cleanup t k;
               t' = t\<lparr>w_fd := w_fd s, w_buffer := w_buffer s,
                      w_buffer_size := w_buffer_size s, w_ring := w_ring s\<rparr>;
               s' = s\<lparr>w_fd := -1, w_buffer := 0\<rparr>
           in (objs(this \<mapsto> t', other \<mapsto> s'), k1))
      | _ \<Rightarrow> (objs, k))"

definition writer_wait :: "writer \<Rightarrow> kstate \<Rightarrow> ((exn + unit) \<times> kstate) option" where
  "writer_wait w k =
     (case io_uring_wait_cqe (w_ring w) k of
        None \<Rightarrow> None
      | Some (ret, res, k1) \<Rightarrow>
          if ret < 0 then Some (Inl WriteWaitFailed, k1)
          else if res < 0 then Some (Inl (WriteFailed (- res)), io_uring_cqe_seen (w_ring w) k1)
          else Some (Inr (), io_uring_cqe_seen (w_ring w) k1))"

definition writer_dtor :: "writer \<Rightarrow> kstate \<Rightarrow> kstate" where
  "writer_dtor w k = writer_cleanup w k"

text \<open>
  \<open>writeAsync(data, buffer_size, offset)\<close>: as for the reader, the count reaches
  \<open>io_uring_prep_write\<close> as an \<open>unsigned\<close>, and the result of the submission is dropped.
\<close>

definition writer_writeAsync ::
  "writer \<Rightarrow> addr \<Rightarrow> 64 word \<Rightarrow> 64 word \<Rightarrow> kstate \<Rightarrow> (exn + unit) \<times> writer \<times> kstate" where
  "writer_writeAsync w data bsize off k =
     (let w1 = w\<lparr>w_buffer := data, w_buffer_size := bsize\<rparr>
      in case io_uring_get_sqe (w_ring w1) k of
           (None, k1) \<Rightarrow> (Inl SqeUnavailable, w1, k1)
         | (Some i, k1) \<Rightarrow>
             let k2 = io_uring_prep_write (w_ring w1) i (w_fd w1) (w_buffer w1)
                        (ucast (w_buffer_size w1)) off k1;
                 k3 = snd (io_uring_submit (w_ring w1) k2)
             in (Inr (), w1, k3))"

text \<open>
  How \<open>src/examples/main.cpp\<close> and the tests write: \<open>writeAsync\<close>, then \<open>wait\<close> when the
  submission did not throw.
\<close>

definition writer_write_once ::
  "writer \<Rightarrow> addr \<Rightarrow> 64 word \<Rightarrow> 64 word \<Rightarrow> kstate \<Rightarrow> ((exn + unit) \<times> writer \<times> kstate) option" where
  "writer_write_once w data bsize off k =
     (case writer_writeAsync w data bsize off k of
        (Inl e, w1, k1) \<Rightarrow> Some (Inl e, w1, k1)
      | (Inr _, w1, k1) \<Rightarrow> map_option (\<lambda>(res, k2). (res, w1, k2)) (writer_wait w1 k1))"

section \<open>Invariant\<close>

text \<open>A usable writer: its descriptor is open for writing and its instance is idle.\<close>

definition writer_ok :: "writer \<Rightarrow> kstate \<Rightarrow> bool" where
  "writer_ok w k \<longleftrightarrow>
     (case file_of k (w_fd w) of None \<Rightarrow> False | Some f \<Rightarrow> of_write f) \<and>
     ring_idle k (w_ring w)"

section \<open>Lemmas\<close>

subsection \<open>Opening\<close>

text \<open>
  The flags the constructor passes decode to a write-only descriptor that creates the
  file, and truncates it unless \<open>append\<close> is set.
\<close>

lemma sys_open_writer:
  assumes "p \<notin> k_denied k"
  shows "sys_open p (writer_flags app) k =
           install_file p False True app (if app then contents_of k p else []) k"
  using assms by (cases app; cases "k_files k p") (simp_all add: sys_open_def writer_flags_def contents_of_def)

subsection \<open>One request\<close>

lemma writer_writeAsync_idle:
  assumes "ring_of k (w_ring w) = Some rg" "ring_idle k (w_ring w)"
  shows "writer_writeAsync w buf n off k =
           (Inr (), w\<lparr>w_buffer := buf, w_buffer_size := n\<rparr>,
            put_ring k (w_ring w) (rg\<lparr>ring_inflight := [SqeWrite (w_fd w) buf (ucast n) off]\<rparr>))"
proof -
  have k: "put_ring k (w_ring w) rg = k" using assms(1) by (simp add: put_ring_same)
  from assms have idle: "ring_sq rg = []" "ring_inflight rg = []" "ring_cq rg = []"
    "0 < ring_sq_entries rg" "0 < ring_cq_entries rg"
    by (auto simp: ring_idle_def)
  have "writer_writeAsync w buf n off (put_ring k (w_ring w) rg) =
          (Inr (), w\<lparr>w_buffer := buf, w_buffer_size := n\<rparr>,
           put_ring k (w_ring w) (rg\<lparr>ring_inflight := [SqeWrite (w_fd w) buf (ucast n) off]\<rparr>))"
    using assms(1) idle
    by (cases rg) (simp add: writer_writeAsync_def io_uring_prep_write_def get_sqe_put_ring
                             prep_sqe_put_ring submit_put_ring Suc_le_eq)
  then show ?thesis by (simp only: k)
qed

lemma writer_wait_one:
  assumes "ring_of k (w_ring w) = Some rg" "ring_idle k (w_ring w)"
  shows "writer_wait w (put_ring k (w_ring w) (rg\<lparr>ring_inflight := [e]\<rparr>)) =
           Some (let (res, k1) = k_exec e k
                 in if res < 0 then (Inl (WriteFailed (- res)), k1) else (Inr (), k1))"
  using wait_one_inflight [OF assms] seen_after_one [OF assms]
  by (simp add: writer_wait_def split: prod.splits)

text \<open>
  A \<open>writeAsync\<close> followed by \<open>wait\<close> on an idle writer performs exactly one write of
  the kernel, of the size truncated to 32 bits, and reports only whether its result was
  negative.
\<close>

lemma writer_cycle:
  assumes "ring_idle k (w_ring w)"
  shows "writer_write_once w buf n off k =
           Some (let (res, k1) = k_write (w_fd w) buf (ucast n) off k
                 in (if res < 0 then Inl (WriteFailed (- res)) else Inr (),
                     w\<lparr>w_buffer := buf, w_buffer_size := n\<rparr>, k1))"
proof -
  obtain rg where rg: "ring_of k (w_ring w) = Some rg" using assms by (auto dest: ring_idleD)
  show ?thesis
    using writer_writeAsync_idle [OF rg assms, of buf n off] rg assms
      writer_wait_one [of k "w\<lparr>w_buffer := buf, w_buffer_size := n\<rparr>" rg
                          "SqeWrite (w_fd w) buf (ucast n) off"]
    by (simp add: writer_write_once_def split: prod.splits)
qed

subsection \<open>Construction\<close>

lemma writer_ctor_opened:
  assumes "p \<notin> k_denied k"
  obtains fd k1 where "install_file p False True app (if app then contents_of k p else []) k = (fd, k1)"
    "writer_ctor p app k =
       (let (ret, rfd, k2) = io_uring_queue_init 8 k1
        in if ret < 0 then (Inl RingInitFailed, k2)
        else (Inr \<lparr>w_fd = fd, w_buffer = 0, w_buffer_size = 0, w_ring = rfd\<rparr>, k2))"
proof -
  obtain fd k1 where i: "install_file p False True app (if app then contents_of k p else []) k = (fd, k1)"
    by fastforce
  have "0 \<le> fd" using install_file_facts (1) [OF i] .
  with assms i have "writer_ctor p app k =
       (let (ret, rfd, k2) = io_uring_queue_init 8 k1
        in if ret < 0 then (Inl RingInitFailed, k2)
        else (Inr \<lparr>w_fd = fd, w_buffer = 0, w_buffer_size = 0, w_ring = rfd\<rparr>, k2))"
    by (simp add: writer_ctor_def sys_open_writer)
  with i show ?thesis by (rule that)
qed

lemma writer_ctor_ok:
  assumes "p \<notin> k_denied k" "0 < k_ring_quota k"
  shows "\<exists>w k'. writer_ctor p app k = (Inr w, k') \<and> writer_ok w k' \<and>
            file_of k' (w_fd w) =
              Some \<lparr>of_path = p, of_read = False, of_write = True, of_append = app, of_pos = 0\<rparr> \<and>
            k_files k' = (k_files k)(p \<mapsto> (if app then contents_of k p else [])) \<and>
            k_heap k' = k_heap k \<and> n_open k' = n_open k + 2 \<and>
            k_ring_quota k' = k_ring_quota k - 1 \<and> k_heap_quota k' = k_heap_quota k \<and>
            k_faults k' = k_faults k \<and> k_fsize_limit k' = k_fsize_limit k \<and>
            k_denied k' = k_denied k \<and> k_next_addr k' = k_next_addr k"
proof -
  obtain fd k1 where i: "install_file p False True app (if app then contents_of k p else []) k = (fd, k1)"
    and ctor: "writer_ctor p app k =
       (let (ret, rfd, k2) = io_uring_queue_init 8 k1
        in if ret < 0 then (Inl RingInitFailed, k2)
        else (Inr \<lparr>w_fd = fd, w_buffer = 0, w_buffer_size = 0, w_ring = rfd\<rparr>, k2))"
    using writer_ctor_opened [OF assms(1)] by blast
  note F = install_file_facts [OF i]
  obtain ret rfd k2 where q: "io_uring_queue_init 8 k1 = (ret, rfd, k2)"
    by (cases "io_uring_queue_init 8 k1") auto
  have quota: "0 < k_ring_quota k1" using F assms by simp
  note Q = queue_init_facts [OF q quota]
  define w where "w = \<lparr>w_fd = fd, w_buffer = 0, w_buffer_size = 0, w_ring = rfd\<rparr>"
  have res: "writer_ctor p app k = (Inr w, k2)" using ctor q Q(1) by (simp add: w_def)
  have fopen: "file_of k2 fd =
      Some \<lparr>of_path = p, of_read = False, of_write = True, of_append = app, of_pos = 0\<rparr>"
    using Q(6) F(3) by simp
  have "writer_ok w k2" using fopen Q(4) by (simp add: writer_ok_def ring_idle_def w_def)
  then show ?thesis
    using res fopen Q(7-16) F(6-15) by (simp add: w_def)
qed

lemma writer_okD:
  assumes "writer_ok w k"
  obtains f rg where "file_of k (w_fd w) = Some f" "of_write f"
    "ring_of k (w_ring w) = Some rg" "ring_idle k (w_ring w)" "w_fd w \<noteq> w_ring w" "0 \<le> w_fd w"
proof -
  from assms obtain f rg where f: "file_of k (w_fd w) = Some f" and rg: "ring_of k (w_ring w) = Some rg"
    and rest: "of_write f" "ring_idle k (w_ring w)"
    by (auto simp: writer_ok_def ring_idle_def split: option.splits)
  have "w_fd w \<noteq> w_ring w" using ring_of_file_of_disjoint [of k "w_ring w" "w_fd w"] f rg by simp
  then show ?thesis
    by (rule that [OF f rest(1) rg rest(2) _ file_of_nonneg [OF f]])
qed

subsection \<open>Destruction and move\<close>

lemma writer_cleanup_ok:
  assumes "writer_ok w k"
  shows "writer_cleanup w k =
           k\<lparr>k_fdt := tbl_set (tbl_set (k_fdt k) (w_fd w) None) (w_ring w) None,
             k_ring_quota := Suc (k_ring_quota k)\<rparr>"
proof -
  obtain f rg where f: "file_of k (w_fd w) = Some f"
    and rg: "ring_of k (w_ring w) = Some rg" and ne: "w_fd w \<noteq> w_ring w" and pos: "0 \<le> w_fd w"
    using assms by (rule writer_okD)
  define k1 where "k1 = k\<lparr>k_fdt := tbl_set (k_fdt k) (w_fd w) None\<rparr>"
  have c: "sys_close (w_fd w) k = (0, k1)" using sys_close_file [OF f] by (simp add: k1_def)
  have "ring_of k1 (w_ring w) = Some rg"
    using rg ne by (simp add: k1_def ring_of_def tbl_get_set_other)
  then show ?thesis
    using c pos queue_exit_live by (simp add: writer_cleanup_def k1_def)
qed

lemma writer_cleanup_releases:
  assumes "writer_ok w k"
  shows "n_open (writer_cleanup w k) + 2 = n_open k"
    "k_faults (writer_cleanup w k) = k_faults k"
    "k_files (writer_cleanup w k) = k_files k"
proof -
  obtain f rg where f: "file_of k (w_fd w) = Some f"
    and rg: "ring_of k (w_ring w) = Some rg" and ne: "w_fd w \<noteq> w_ring w"
    using assms by (rule writer_okD)
  have p1: "tbl_get (k_fdt k) (w_fd w) \<noteq> None" using file_of_SomeD [OF f] by simp
  have p2: "tbl_get (tbl_set (k_fdt k) (w_fd w) None) (w_ring w) \<noteq> None"
    using rg ne by (auto simp: ring_of_def tbl_get_set_other split: option.splits)
  show "n_open (writer_cleanup w k) + 2 = n_open k"
    using tbl_count_set_None [OF p1] tbl_count_set_None [OF p2]
    by (simp add: writer_cleanup_ok [OF assms] n_open_def)
qed (simp_all add: writer_cleanup_ok [OF assms])

lemma writer_move_eq: "writer_move w = (w, w\<lparr>w_fd := -1, w_buffer := 0\<rparr>)"
  by (simp add: writer_move_def)

lemma writer_cleanup_moved_from:
  "writer_cleanup (w\<lparr>w_fd := -1, w_buffer := 0\<rparr>) k = io_uring_queue_exit (w_ring w) k"
  by (simp add: writer_cleanup_def)

subsection \<open>What one write does\<close>

lemma writer_write_file:
  assumes "writer_ok w k" "file_of k (w_fd w) = Some f" "\<not> of_append f" "0 \<le> sint off"
    and "k_heap k buf = Some b" "unat n mod 2 ^ 32 \<le> length b" "0 < unat n mod 2 ^ 32"
    and "unat off < k_fsize_limit k"
  shows "writer_write_once w buf n off k =
           Some (Inr (), w\<lparr>w_buffer := buf, w_buffer_size := n\<rparr>,
                 k\<lparr>k_files := (k_files k)(of_path f \<mapsto>
                    write_at (contents_of k (of_path f)) (unat off)
                      (take (min (min (unat n mod 2 ^ 32) MAX_RW_COUNT) (k_fsize_limit k - unat off)) b))\<rparr>)"
proof -
  obtain f' rg where "file_of k (w_fd w) = Some f'" "of_write f'" and idle: "ring_idle k (w_ring w)"
    using assms(1) by (rule writer_okD)
  then have wr: "of_write f" using assms(2) by simp
  show ?thesis
    using k_write_positional [OF assms(2) wr assms(3,4,5), of "ucast n"] assms(6-8)
      writer_cycle [OF idle, of buf n off]
    by (simp add: unat_ucast_32 Let_def)
qed

lemma writer_write_append_file:
  assumes "writer_ok w k" "file_of k (w_fd w) = Some f" "of_append f" "0 \<le> sint off"
    and "k_heap k buf = Some b" "unat n mod 2 ^ 32 \<le> length b" "0 < unat n mod 2 ^ 32"
    and "length (contents_of k (of_path f)) < k_fsize_limit k"
  shows "writer_write_once w buf n off k =
           Some (Inr (), w\<lparr>w_buffer := buf, w_buffer_size := n\<rparr>,
                 k\<lparr>k_files := (k_files k)(of_path f \<mapsto> contents_of k (of_path f) @
                      take (min (min (unat n mod 2 ^ 32) MAX_RW_COUNT)
                                (k_fsize_limit k - length (contents_of k (of_path f)))) b)\<rparr>)"
proof -
  obtain f' rg where "file_of k (w_fd w) = Some f'" "of_write f'" and idle: "ring_idle k (w_ring w)"
    using assms(1) by (rule writer_okD)
  then have wr: "of_write f" using assms(2) by simp
  show ?thesis
    using k_write_append [OF assms(2) wr assms(3,4,5), of "ucast n"] assms(6-8)
      writer_cycle [OF idle, of buf n off]
    by (simp add: unat_ucast_32 Let_def)
qed

text \<open>Updating the file map only changes the contents: a usable writer stays usable.\<close>

lemma writer_ok_files [simp]: "writer_ok w (k\<lparr>k_files := fs\<rparr>) = writer_ok w k"
  by (simp add: writer_ok_def file_of_def ring_idle_def ring_of_def)

lemma writer_ok_buffer [simp]:
  "writer_ok (w\<lparr>w_buffer := a, w_buffer_size := n\<rparr>) k = writer_ok w k"
  by (simp add: writer_ok_def)

lemma contents_of_upd [simp]: "contents_of (k\<lparr>k_files := (k_files k)(p \<mapsto> c)\<rparr>) p = c"
  by (simp add: contents_of_def)

section \<open>Properties\<close>

text \<open>C2. A write of n bytes (0 < n, n within the kernel cap, the block holding at least n bytes, offset + n within the file-size limit) at a non-negative offset on a usable writer not in append mode succeeds, puts exactly those n bytes at the offset, and leaves the writer usable.\<close>

theorem writer_write_full:
  assumes "writer_ok w k" "file_of k (w_fd w) = Some f" "\<not> of_append f" "0 \<le> sint off"
    and "k_heap k buf = Some b" "0 < unat n" "unat n \<le> length b" "unat n \<le> MAX_RW_COUNT"
    and "unat off + unat n \<le> k_fsize_limit k"
  shows "\<exists>k'. writer_write_once w buf n off k = Some (Inr (), w\<lparr>w_buffer := buf, w_buffer_size := n\<rparr>, k') \<and>
              contents_of k' (of_path f) = write_at (contents_of k (of_path f)) (unat off) (take (unat n) b) \<and>
              writer_ok (w\<lparr>w_buffer := buf, w_buffer_size := n\<rparr>) k'"
proof -
  have small: "unat n mod 2 ^ 32 = unat n" using assms(8) by simp
  have m: "min (min (unat n) MAX_RW_COUNT) (k_fsize_limit k - unat off) = unat n"
    using assms(8,9) by simp
  show ?thesis
    using writer_write_file [OF assms(1-5)] assms(1,6,7,9) small m by simp
qed

text \<open>C10. A write that would pass the file-size limit is short: the kernel writes only the bytes up to the limit, and \<open>wait\<close> still reports success, although the spec classifies a short completion as a failure.\<close>

theorem writer_short_write_accepted:
  assumes "writer_ok w k" "file_of k (w_fd w) = Some f" "\<not> of_append f" "0 \<le> sint off"
    and "k_heap k buf = Some b" "unat n \<le> length b" "unat n \<le> MAX_RW_COUNT"
    and "unat off < k_fsize_limit k" "k_fsize_limit k < unat off + unat n"
  shows "\<exists>k'. writer_write_once w buf n off k = Some (Inr (), w\<lparr>w_buffer := buf, w_buffer_size := n\<rparr>, k') \<and>
              contents_of k' (of_path f) =
                write_at (contents_of k (of_path f)) (unat off) (take (k_fsize_limit k - unat off) b) \<and>
              k_fsize_limit k - unat off < unat n"
proof -
  have small: "unat n mod 2 ^ 32 = unat n" using assms(7) by simp
  have m: "min (min (unat n) MAX_RW_COUNT) (k_fsize_limit k - unat off) = k_fsize_limit k - unat off"
    using assms(7,9) by simp
  show ?thesis
    using writer_write_file [OF assms(1-5)] assms(6,8,9) small m by simp
qed

text \<open>C17. The number of bytes one write puts in the file is the least of \<open>buffer_size\<close> modulo 2 to the 32, the kernel cap and the room left under the file-size limit, and the write is reported as a success whatever that number is: a size of 2 to the 32 or more is silently truncated.\<close>

theorem writer_write_length:
  assumes "writer_ok w k" "file_of k (w_fd w) = Some f" "\<not> of_append f" "0 \<le> sint off"
    and "k_heap k buf = Some b" "unat n mod 2 ^ 32 \<le> length b" "0 < unat n mod 2 ^ 32"
    and "unat off < k_fsize_limit k"
  shows "\<exists>k'. writer_write_once w buf n off k = Some (Inr (), w\<lparr>w_buffer := buf, w_buffer_size := n\<rparr>, k') \<and>
              contents_of k' (of_path f) = write_at (contents_of k (of_path f)) (unat off)
                (take (min (min (unat n mod 2 ^ 32) MAX_RW_COUNT) (k_fsize_limit k - unat off)) b)"
  using writer_write_file [OF assms] by simp

text \<open>C18. A \<open>buffer_size\<close> that is a non-zero multiple of 2 to the 32 reaches the kernel as a count of 0: nothing is written, and \<open>wait\<close> reports success.\<close>

theorem writer_write_wrapped_zero:
  assumes "writer_ok w k" "0 \<le> sint off" "k_heap k buf \<noteq> None" "unat n mod 2 ^ 32 = 0"
  shows "writer_write_once w buf n off k = Some (Inr (), w\<lparr>w_buffer := buf, w_buffer_size := n\<rparr>, k)"
proof -
  obtain f rg where f: "file_of k (w_fd w) = Some f" "of_write f" and idle: "ring_idle k (w_ring w)"
    using assms(1) by (rule writer_okD)
  have "\<not> sint off < -1" using assms(2) by linarith
  then have "k_write (w_fd w) buf (ucast n) off k = (0, k)"
    using f assms(3,4) by (auto simp: k_write_def unat_ucast_32 Let_def)
  then show ?thesis using writer_cycle [OF idle, of buf n off] by simp
qed

text \<open>C11. A writer constructed with \<open>append = true\<close> on a file keeps its contents, and a write on it lands at the end of the file, whatever offset is passed.\<close>

theorem writer_append_write:
  assumes "writer_ctor p True k = (Inr w, k1)" "p \<notin> k_denied k" "0 < k_ring_quota k" "0 \<le> sint off"
    and "k_heap k buf = Some b" "0 < unat n" "unat n \<le> length b" "unat n \<le> MAX_RW_COUNT"
    and "length (contents_of k p) + unat n \<le> k_fsize_limit k"
  shows "\<exists>k'. writer_write_once w buf n off k1 = Some (Inr (), w\<lparr>w_buffer := buf, w_buffer_size := n\<rparr>, k') \<and>
              contents_of k' p = contents_of k p @ take (unat n) b"
proof -
  obtain w' k' where c: "writer_ctor p True k = (Inr w', k')" and ok: "writer_ok w' k'"
    and f: "file_of k' (w_fd w') =
              Some \<lparr>of_path = p, of_read = False, of_write = True, of_append = True, of_pos = 0\<rparr>"
    and fs: "k_files k' = (k_files k)(p \<mapsto> contents_of k p)" and h: "k_heap k' = k_heap k"
    and lim: "k_fsize_limit k' = k_fsize_limit k"
    using writer_ctor_ok [OF assms(2,3), of True] by auto
  have r: "w' = w" "k' = k1" using c assms(1) by simp_all
  have cont: "contents_of k1 p = contents_of k p" using fs r by (simp add: contents_of_def)
  have small: "unat n mod 2 ^ 32 = unat n" using assms(8) by simp
  have m: "min (min (unat n) MAX_RW_COUNT) (k_fsize_limit k - length (contents_of k p)) = unat n"
    using assms(8,9) by simp
  show ?thesis
    using writer_write_append_file [OF ok f _ assms(4), of buf b n] assms(5-9) small m cont h lim r
    by simp
qed

text \<open>C22. A write at an offset at or past the file-size limit fails: \<open>wait\<close> throws the write failure with \<open>EFBIG\<close> and the file is unchanged.\<close>

theorem writer_write_efbig:
  assumes "writer_ok w k" "file_of k (w_fd w) = Some f" "\<not> of_append f" "0 \<le> sint off"
    and "k_heap k buf = Some b" "unat n mod 2 ^ 32 \<le> length b" "0 < unat n mod 2 ^ 32"
    and "k_fsize_limit k \<le> unat off"
  shows "writer_write_once w buf n off k =
           Some (Inl (WriteFailed EFBIG), w\<lparr>w_buffer := buf, w_buffer_size := n\<rparr>, k)"
proof -
  obtain f' rg where "file_of k (w_fd w) = Some f'" "of_write f'" and idle: "ring_idle k (w_ring w)"
    using assms(1) by (rule writer_okD)
  have "\<not> sint off < -1" "sint off \<noteq> -1" using assms(4) by linarith+
  then have "k_write (w_fd w) buf (ucast n) off k = (- EFBIG, k)"
    using assms(2-8) \<open>file_of k (w_fd w) = Some f'\<close> \<open>of_write f'\<close>
    by (simp add: k_write_def unat_ucast_32 Let_def)
  then show ?thesis using writer_cycle [OF idle, of buf n off] by simp
qed

text \<open>A write from a pointer that names no live block (freed, or never allocated) is refused by the kernel with \<open>EFAULT\<close>, which \<open>wait\<close> throws; the file is unchanged.\<close>

theorem writer_write_efault:
  assumes "writer_ok w k" "0 \<le> sint off" "k_heap k buf = None"
  shows "writer_write_once w buf n off k =
           Some (Inl (WriteFailed EFAULT), w\<lparr>w_buffer := buf, w_buffer_size := n\<rparr>, k)"
proof -
  obtain f rg where f: "file_of k (w_fd w) = Some f" "of_write f" and idle: "ring_idle k (w_ring w)"
    using assms(1) by (rule writer_okD)
  have "\<not> sint off < -1" using assms(2) by linarith
  then have "k_write (w_fd w) buf (ucast n) off k = (- EFAULT, k)"
    using f assms(3) by (simp add: k_write_def)
  then show ?thesis using writer_cycle [OF idle, of buf n off] by simp
qed

text \<open>C14. Constructing a writer on a path that may be opened succeeds with a usable writer; the file exists afterwards and is empty, unless \<open>append\<close> is set, in which case its contents are kept.\<close>

theorem writer_ctor_contents:
  assumes "p \<notin> k_denied k" "0 < k_ring_quota k"
  shows "\<exists>w k'. writer_ctor p app k = (Inr w, k') \<and> writer_ok w k' \<and>
            k_files k' p = Some (if app then contents_of k p else []) \<and>
            (\<forall>q. q \<noteq> p \<longrightarrow> k_files k' q = k_files k q)"
  using writer_ctor_ok [OF assms, of app] by fastforce

text \<open>Constructing a writer on a path that may not be opened throws the open failure and leaves the kernel state exactly as it was.\<close>

theorem writer_ctor_open_failure:
  assumes "p \<in> k_denied k"
  shows "writer_ctor p app k = (Inl (WriterOpenFailed p), k)"
  using assms by (simp add: writer_ctor_def sys_open_refused)

text \<open>C25. When the io\_uring instance cannot be created, the writer constructor throws after it has opened (and, without \<open>append\<close>, truncated) the file: the descriptor stays open with nothing referring to it.\<close>

theorem writer_ctor_ring_failure:
  assumes "p \<notin> k_denied k" "k_ring_quota k = 0"
  shows "\<exists>k'. writer_ctor p app k = (Inl RingInitFailed, k') \<and> n_open k' = Suc (n_open k) \<and>
              k_files k' p = Some (if app then contents_of k p else [])"
proof -
  obtain fd k1 where i: "install_file p False True app (if app then contents_of k p else []) k = (fd, k1)"
    and ctor: "writer_ctor p app k =
       (let (ret, rfd, k2) = io_uring_queue_init 8 k1
        in if ret < 0 then (Inl RingInitFailed, k2)
        else (Inr \<lparr>w_fd = fd, w_buffer = 0, w_buffer_size = 0, w_ring = rfd\<rparr>, k2))"
    using writer_ctor_opened [OF assms(1)] by blast
  note F = install_file_facts [OF i]
  have "io_uring_queue_init 8 k1 = (-ENOMEM, -1, k1)"
    using F(8) assms(2) by (simp add: queue_init_fails)
  with ctor F(6,10) show ?thesis by simp
qed

text \<open>C31. A successful writer construction followed by its destruction gives back the descriptor count and the io\_uring quota, and logs no fault.\<close>

theorem writer_lifecycle_balance:
  assumes "writer_ctor p app k = (Inr w, k1)" "p \<notin> k_denied k" "0 < k_ring_quota k"
  shows "n_open (writer_dtor w k1) = n_open k \<and> k_ring_quota (writer_dtor w k1) = k_ring_quota k \<and>
         k_faults (writer_dtor w k1) = k_faults k"
proof -
  obtain w' k' where c: "writer_ctor p app k = (Inr w', k')" and ok: "writer_ok w' k'"
    and q: "n_open k' = n_open k + 2" "k_ring_quota k' = k_ring_quota k - 1" "k_faults k' = k_faults k"
    using writer_ctor_ok [OF assms(2,3), of app] by blast
  have r: "w' = w" "k' = k1" using c assms(1) by simp_all
  show ?thesis
    using writer_cleanup_releases [OF ok] writer_cleanup_ok [OF ok] q assms(3) r
    by (simp add: writer_dtor_def)
qed

text \<open>C34. Destroying a moved-from writer and then the writer it was moved into releases the same io\_uring instance twice.\<close>

theorem writer_move_double_release:
  assumes "writer_ok w k" "writer_move w = (dst, src)"
  shows "StaleRingExit (w_ring w) \<in> set (k_faults (writer_dtor dst (writer_dtor src k)))"
proof -
  obtain f rg where f: "file_of k (w_fd w) = Some f"
    and rg: "ring_of k (w_ring w) = Some rg" and ne: "w_fd w \<noteq> w_ring w" and pos: "0 \<le> w_fd w"
    using assms(1) by (rule writer_okD)
  have d: "dst = w" using assms(2) by (simp add: writer_move_eq)
  have s: "src = w\<lparr>w_fd := -1, w_buffer := 0\<rparr>" using assms(2) by (auto simp: writer_move_eq)
  define k1 where "k1 = k\<lparr>k_fdt := tbl_set (k_fdt k) (w_ring w) None, k_ring_quota := Suc (k_ring_quota k)\<rparr>"
  have k1: "writer_dtor src k = k1"
    using queue_exit_live [OF rg] by (simp add: s k1_def writer_dtor_def writer_cleanup_moved_from)
  have f1: "file_of k1 (w_fd w) = Some f"
    using f ne by (simp add: k1_def file_of_def tbl_get_set_other)
  define k2 where "k2 = k1\<lparr>k_fdt := tbl_set (k_fdt k1) (w_fd w) None\<rparr>"
  have gone: "tbl_get (k_fdt k2) (w_ring w) = None"
    using ne by (simp add: k2_def k1_def tbl_get_set_other)
  have "writer_dtor dst k1 = log_fault (StaleRingExit (w_ring w)) k2"
    using sys_close_file [OF f1] pos queue_exit_released [OF gone]
    by (simp add: d writer_dtor_def writer_cleanup_def k2_def)
  then show ?thesis by (simp add: k1)
qed

text \<open>\<open>wait\<close> on a writer with no submitted request never returns.\<close>

theorem writer_wait_idle_blocks:
  assumes "ring_idle k (w_ring w)"
  shows "writer_wait w k = None"
proof -
  obtain rg where rg: "ring_of k (w_ring w) = Some rg" and e: "ring_cq rg = []" "ring_inflight rg = []"
    using assms by (auto dest: ring_idleD)
  have "io_uring_wait_cqe (w_ring w) (put_ring k (w_ring w) rg) = None"
    using rg e by (simp add: wait_cqe_put_ring)
  then show ?thesis using rg by (simp add: put_ring_same writer_wait_def)
qed

end
