(* ===== verification/Demo_Main.thy ===== *)
theory Demo_Main
  imports Reader_Linux Writer_Linux
begin

text \<open>
  The demonstration program \<open>src/examples/main.cpp\<close>: a scope that writes the test
  string to \<open>test.txt\<close> with an \<open>AsyncFileWriter\<close> (truncating it), then a scope that
  reads it back with an \<open>AsyncFileReader\<close> of the default buffer size 4096, copying the
  view into a \<open>std::string\<close>, and the comparison of the two. Leaving a scope, normally or
  by an exception, runs the destructor of the object it declared; an exception leaving
  \<open>main\<close> ends the program, which is the left value. The test string is the block of
  \<open>n\<close> bytes at address \<open>data\<close>.
\<close>

definition demo_write :: "addr \<Rightarrow> nat \<Rightarrow> kstate \<Rightarrow> ((exn + unit) \<times> kstate) option" where
  "demo_write data n k =
     (case writer_ctor ''test.txt'' False k of
        (Inl e, k1) \<Rightarrow> Some (Inl e, k1)
      | (Inr w, k1) \<Rightarrow>
          (case writer_write_once w data (of_nat n) 0 k1 of
             None \<Rightarrow> None
           | Some (res, w2, k2) \<Rightarrow> Some (res, writer_dtor w2 k2)))"

text \<open>
  \<open>content = reader.waitAndGetResult()\<close> copies the bytes the view names; a view into
  memory that is no longer live would be undefined behaviour, logged as a fault.
\<close>

definition demo_read :: "kstate \<Rightarrow> ((exn + bytes) \<times> kstate) option" where
  "demo_read k =
     (case reader_ctor ''test.txt'' 4096 k of
        (Inl e, k1) \<Rightarrow> Some (Inl e, k1)
      | (Inr r, k1) \<Rightarrow>
          (case reader_read_once r 0 k1 of
             None \<Rightarrow> None
           | Some (Inl e, k2) \<Rightarrow> Some (Inl e, reader_dtor r k2)
           | Some (Inr v, k2) \<Rightarrow>
               (case sv_bytes k2 v of
                  Some c \<Rightarrow> Some (Inr c, reader_dtor r k2)
                | None \<Rightarrow> Some (Inr [], reader_dtor r (log_fault (DanglingAccess (sv_ptr v)) k2)))))"

text \<open>The value is whether the program prints \<open>SUCCESS\<close>: the content read equals the test string.\<close>

definition demo_main :: "addr \<Rightarrow> nat \<Rightarrow> kstate \<Rightarrow> ((exn + bool) \<times> kstate) option" where
  "demo_main data n k =
     (case demo_write data n k of
        None \<Rightarrow> None
      | Some (Inl e, k1) \<Rightarrow> Some (Inl e, k1)
      | Some (Inr _, k1) \<Rightarrow>
          (case demo_read k1 of
             None \<Rightarrow> None
           | Some (Inl e, k2) \<Rightarrow> Some (Inl e, k2)
           | Some (Inr content, k2) \<Rightarrow>
               Some (Inr (Some content = map_option (take n) (k_heap k2 data)), k2)))"

section \<open>Lemmas\<close>

text \<open>
  The write scope on a state where \<open>test.txt\<close> may be opened: the file holds exactly the
  test string afterwards, and every descriptor and io\_uring instance the scope acquired
  is released.
\<close>

lemma demo_write_ok:
  assumes "''test.txt'' \<notin> k_denied k" "0 < k_ring_quota k" "k_heap k data = Some d"
    and "0 < length d" "length d \<le> MAX_RW_COUNT" "length d \<le> k_fsize_limit k"
  shows "\<exists>k'. demo_write data (length d) k = Some (Inr (), k') \<and>
              k_files k' = (k_files k)(''test.txt'' \<mapsto> d) \<and> k_heap k' = k_heap k \<and>
              k_denied k' = k_denied k \<and> k_ring_quota k' = k_ring_quota k \<and>
              k_heap_quota k' = k_heap_quota k \<and> k_next_addr k' = k_next_addr k \<and>
              k_faults k' = k_faults k \<and> n_open k' = n_open k"
proof -
  obtain w k1 where c: "writer_ctor ''test.txt'' False k = (Inr w, k1)" and ok: "writer_ok w k1"
    and f: "file_of k1 (w_fd w) =
              Some \<lparr>of_path = ''test.txt'', of_read = False, of_write = True, of_append = False, of_pos = 0\<rparr>"
    and fs: "k_files k1 = (k_files k)(''test.txt'' \<mapsto> [])" and h: "k_heap k1 = k_heap k"
    and no: "n_open k1 = n_open k + 2"
    and q: "k_ring_quota k1 = k_ring_quota k - 1" "k_heap_quota k1 = k_heap_quota k"
      "k_faults k1 = k_faults k" "k_fsize_limit k1 = k_fsize_limit k" "k_denied k1 = k_denied k"
      "k_next_addr k1 = k_next_addr k"
    using writer_ctor_ok [OF assms(1,2), of False] by auto
  have len: "unat (of_nat (length d) :: 64 word) = length d" "length d mod 2 ^ 32 = length d"
    using assms(5) by (simp_all add: unat_of_nat)
  define w2 where "w2 = w\<lparr>w_buffer := data, w_buffer_size := of_nat (length d)\<rparr>"
  define k2 where "k2 = k1\<lparr>k_files := (k_files k1)(''test.txt'' \<mapsto> d)\<rparr>"
  have "writer_write_once w data (of_nat (length d)) 0 k1 = Some (Inr (), w2, k2)"
    using writer_write_file [OF ok f _ _ _ , of 0 data d "of_nat (length d)"] assms(3-6) h q(4) fs len
    by (simp add: w2_def k2_def contents_of_def)
  then have dw: "demo_write data (length d) k = Some (Inr (), writer_dtor w2 k2)"
    using c by (simp add: demo_write_def)
  have ok2: "writer_ok w2 k2" using ok by (simp add: w2_def k2_def)
  have "n_open k2 = n_open k1" using fdt_cong(4) [of k2 k1] by (simp add: k2_def)
  then show ?thesis
    using dw writer_cleanup_ok [OF ok2] writer_cleanup_releases [OF ok2] fs h q no assms(2)
    by (simp add: writer_dtor_def k2_def)
qed

text \<open>
  The read scope on a state where \<open>test.txt\<close> holds \<open>d\<close>: the content copied out is the
  first 4096 bytes of \<open>d\<close>, and the scope gives back everything it acquired; memory below
  the next fresh address is untouched.
\<close>

lemma demo_read_ok:
  assumes "''test.txt'' \<notin> k_denied k" "k_files k ''test.txt'' = Some d" "0 < k_ring_quota k"
    and "4096 \<le> k_heap_quota k" "a < k_next_addr k"
  shows "\<exists>k'. demo_read k = Some (Inr (take 4096 d), k') \<and> k_heap k' a = k_heap k a \<and>
              k_files k' = k_files k \<and> n_open k' = n_open k \<and> k_ring_quota k' = k_ring_quota k \<and>
              k_heap_quota k' = k_heap_quota k \<and> k_faults k' = k_faults k"
proof -
  have na: "0 < k_next_addr k" using assms(5) by simp
  obtain r k1 where c: "reader_ctor ''test.txt'' 4096 k = (Inr r, k1)" and ok: "reader_ok r k1"
    and sz: "r_buffer_size r = 4096" and hb: "k_heap k1 (r_buffer r) = Some (replicate 4096 0)"
    and f: "file_of k1 (r_fd r) =
              Some \<lparr>of_path = ''test.txt'', of_read = True, of_write = False, of_append = False, of_pos = 0\<rparr>"
    and fs: "k_files k1 = k_files k" and no: "n_open k1 = n_open k + 2"
    and q: "k_ring_quota k1 = k_ring_quota k - 1" "k_heap_quota k1 = k_heap_quota k - 4096"
      "k_faults k1 = k_faults k"
    and buf: "r_buffer r = k_next_addr k" and ha: "\<forall>a. a \<noteq> r_buffer r \<longrightarrow> k_heap k1 a = k_heap k a"
    using reader_ctor_ok [OF assms(1,2,3) _ na, of 4096] assms(4) by auto
  define v where "v = \<lparr>sv_ptr = r_buffer r, sv_len = length (take 4096 d)\<rparr>"
  define k2 where "k2 = k1\<lparr>k_heap := (k_heap k1)(r_buffer r \<mapsto>
                          take 4096 d @ drop (length (take 4096 d)) (replicate 4096 0))\<rparr>"
  have "reader_read_once r 0 k1 = Some (Inr v, k2)"
    using reader_read_file [OF ok _ f refl] hb fs assms(2) sz
    by (simp add: v_def k2_def contents_of_def read_at_def)
  moreover have "sv_bytes k2 v = Some (take 4096 d)"
    by (simp add: sv_bytes_def v_def k2_def min_def)
  ultimately have dr: "demo_read k = Some (Inr (take 4096 d), reader_dtor r k2)"
    using c by (simp add: demo_read_def)
  have ok2: "reader_ok r k2"
    using reader_ok_fill [OF ok hb] by (simp add: k2_def min_def)
  have "n_open k2 = n_open k1" using fdt_cong(4) [of k2 k1] by (simp add: k2_def)
  moreover have "a \<noteq> r_buffer r" using assms(5) buf by simp
  ultimately show ?thesis
    using dr reader_cleanup_ok [OF ok2] reader_cleanup_releases [OF ok2] ha fs q no sz assms(3,4)
    by (simp add: reader_dtor_def k2_def)
qed

section \<open>Properties\<close>

text \<open>C1. The demonstration program round trip: on a state where \<open>test.txt\<close> may be opened and there is room for the reader's buffer, \<open>main\<close> writes the test string, reads it back and prints SUCCESS exactly when the string has at most 4096 bytes (the reader's default buffer size; a longer string is read back cut to 4096 bytes); the file holds the test string afterwards, and every descriptor, io\_uring instance and buffer acquired is released.\<close>

theorem demo_main_roundtrip:
  assumes "''test.txt'' \<notin> k_denied k" "0 < k_ring_quota k" "k_heap k data = Some d"
    and "0 < length d" "length d \<le> MAX_RW_COUNT" "length d \<le> k_fsize_limit k"
    and "4096 \<le> k_heap_quota k" "data < k_next_addr k"
  shows "\<exists>k'. demo_main data (length d) k = Some (Inr (length d \<le> 4096), k') \<and>
              k_files k' ''test.txt'' = Some d \<and> n_open k' = n_open k \<and>
              k_ring_quota k' = k_ring_quota k \<and> k_heap_quota k' = k_heap_quota k \<and>
              k_faults k' = k_faults k"
proof -
  obtain k1 where w: "demo_write data (length d) k = Some (Inr (), k1)"
    and k1: "k_files k1 = (k_files k)(''test.txt'' \<mapsto> d)" "k_heap k1 = k_heap k"
      "k_denied k1 = k_denied k" "k_ring_quota k1 = k_ring_quota k" "k_heap_quota k1 = k_heap_quota k"
      "k_next_addr k1 = k_next_addr k" "k_faults k1 = k_faults k" "n_open k1 = n_open k"
    using demo_write_ok [OF assms(1-6)] by blast
  obtain k2 where r: "demo_read k1 = Some (Inr (take 4096 d), k2)"
    and k2: "k_heap k2 data = k_heap k1 data" "k_files k2 = k_files k1" "n_open k2 = n_open k1"
      "k_ring_quota k2 = k_ring_quota k1" "k_heap_quota k2 = k_heap_quota k1" "k_faults k2 = k_faults k1"
    using demo_read_ok [of k1 d data] k1 assms by auto
  have "(Some (take 4096 d) = map_option (take (length d)) (k_heap k2 data)) = (length d \<le> 4096)"
    using k2(1) k1(2) assms(3) by simp
  then show ?thesis
    using w r k1 k2 by (simp add: demo_main_def)
qed

end
