(* ===== verification/Op_Spec.thy ===== *)
theory Op_Spec
  imports AF_Base "HOL-Library.Sublist"
begin

text \<open>
  The abstract contract of one operation object, from the specification (sections 4.1 to
  4.3 and 7): per object the state machine \<open>Idle \<rightarrow> Submitted \<rightarrow> (Completed | Failed) \<rightarrow>
  Idle\<close>, with the events a caller observes. It is independent of either backend; the
  theories \<open>Refine_Linux\<close> and \<open>Refine_Win32\<close> show which traces of the implementations
  are traces of these machines. Offsets are integers, as in the public interface; the
  specification gives a negative offset no meaning, so the contract constrains a result
  only at offsets that are not negative.
\<close>

section \<open>The read contract\<close>

datatype op_phase = Idle | Submitted int

datatype read_event =
    RdSubmit int
  | RdSubmitFailed
  | RdResult bytes
  | RdFailed

text \<open>
  A reader with a buffer of \<open>bsz\<close> bytes over a file holding \<open>c\<close>: a submission moves
  from \<open>Idle\<close> to \<open>Submitted\<close> (or fails and stays \<open>Idle\<close>); the wait ends the
  operation with a view of at most \<open>bsz\<close> bytes that are the file's bytes from the
  offset (a short read, down to zero bytes, is a success), or with a failure. A read at
  or past the end of the file does not fail: it is a success with no bytes (section 4.1,
  "a read past end-of-file yields a zero-length successful result, not an error").
\<close>

inductive read_spec :: "nat \<Rightarrow> bytes \<Rightarrow> op_phase \<Rightarrow> read_event \<Rightarrow> op_phase \<Rightarrow> bool"
  for bsz :: nat and c :: bytes where
  rs_submit: "read_spec bsz c Idle (RdSubmit off) (Submitted off)"
| rs_submit_failed: "read_spec bsz c Idle RdSubmitFailed Idle"
| rs_result: "length d \<le> bsz \<Longrightarrow> (0 \<le> off \<longrightarrow> prefix d (drop (nat off) c)) \<Longrightarrow>
                read_spec bsz c (Submitted off) (RdResult d) Idle"
| rs_failed: "\<not> (0 \<le> off \<and> length c \<le> nat off) \<Longrightarrow> read_spec bsz c (Submitted off) RdFailed Idle"

inductive read_spec_trace :: "nat \<Rightarrow> bytes \<Rightarrow> op_phase \<Rightarrow> read_event list \<Rightarrow> op_phase \<Rightarrow> bool"
  for bsz :: nat and c :: bytes where
  rst_nil: "read_spec_trace bsz c s [] s"
| rst_snoc: "read_spec_trace bsz c s es s' \<Longrightarrow> read_spec bsz c s' e s'' \<Longrightarrow>
               read_spec_trace bsz c s (es @ [e]) s''"

inductive_cases read_spec_IdleE [elim!]: "read_spec bsz c Idle e s'"
inductive_cases read_spec_SubmittedE [elim!]: "read_spec bsz c (Submitted off) e s'"
inductive_simps read_spec_Idle_iff: "read_spec bsz c Idle e s'"
inductive_simps read_spec_Submitted_iff: "read_spec bsz c (Submitted off) e s'"

section \<open>The write contract\<close>

datatype wphase = WIdle | WPending int bytes

datatype write_event =
    WrSubmit int bytes
  | WrSubmitFailed
  | WrDone
  | WrFailed

text \<open>
  A writer over a file holding \<open>c\<close>: the submission records the offset and the bytes
  borrowed from the caller; a successful wait means that all of them were written at the
  offset (at the end of the file in append mode): the specification treats a short write
  as a failure. A failed operation leaves the file as it was.
\<close>

inductive write_spec :: "bool \<Rightarrow> wphase \<times> bytes \<Rightarrow> write_event \<Rightarrow> wphase \<times> bytes \<Rightarrow> bool"
  for app :: bool where
  ws_submit: "write_spec app (WIdle, c) (WrSubmit off d) (WPending off d, c)"
| ws_submit_failed: "write_spec app (WIdle, c) WrSubmitFailed (WIdle, c)"
| ws_done: "0 \<le> off \<Longrightarrow>
              write_spec app (WPending off d, c) WrDone (WIdle, if app then c @ d else write_at c (nat off) d)"
| ws_done_negative: "off < 0 \<Longrightarrow> write_spec app (WPending off d, c) WrDone (WIdle, c')"
| ws_failed: "write_spec app (WPending off d, c) WrFailed (WIdle, c)"

inductive write_spec_trace :: "bool \<Rightarrow> wphase \<times> bytes \<Rightarrow> write_event list \<Rightarrow> wphase \<times> bytes \<Rightarrow> bool"
  for app :: bool where
  wst_nil: "write_spec_trace app s [] s"
| wst_snoc: "write_spec_trace app s es s' \<Longrightarrow> write_spec app s' e s'' \<Longrightarrow>
               write_spec_trace app s (es @ [e]) s''"

inductive_simps write_spec_WIdle_iff: "write_spec app (WIdle, c) e s'"
inductive_simps write_spec_WPending_iff: "write_spec app (WPending off d, c) e s'"

section \<open>Lemmas\<close>

text \<open>What a read of a positional \<open>read_at\<close> returns meets the contract.\<close>

lemma read_at_prefix: "prefix (read_at c pos n) (drop pos c)"
  by (simp add: read_at_def take_is_prefix)

lemma read_spec_trace_single:
  "read_spec bsz c s e s' \<Longrightarrow> read_spec_trace bsz c s [e] s'"
  using rst_snoc [OF rst_nil] by fastforce

lemma write_spec_trace_single:
  "write_spec app s e s' \<Longrightarrow> write_spec_trace app s [e] s'"
  using wst_snoc [OF wst_nil] by fastforce

text \<open>
  A successful read-cycle of the contract from \<open>Idle\<close>: the two events a caller sees when
  it submits at offset \<open>off\<close> and gets back the bytes \<open>d\<close>.
\<close>

lemma read_spec_cycle:
  assumes "read_spec_trace bsz c s es Idle" "length d \<le> bsz" "0 \<le> off \<longrightarrow> prefix d (drop (nat off) c)"
  shows "read_spec_trace bsz c s (es @ [RdSubmit off, RdResult d]) Idle"
  using rst_snoc [OF rst_snoc [OF assms(1) rs_submit] rs_result [OF assms(2,3)]] by simp

lemma write_spec_cycle:
  assumes "write_spec_trace app s es (WIdle, c)" "0 \<le> off"
  shows "write_spec_trace app s (es @ [WrSubmit off d, WrDone])
           (WIdle, if app then c @ d else write_at c (nat off) d)"
  using wst_snoc [OF wst_snoc [OF assms(1) ws_submit] ws_done [OF assms(2)]] by simp

end
