(* ===== verification/Refine_Linux.thy ===== *)
theory Refine_Linux
  imports Reader_Linux Writer_Linux Op_Spec
begin

text \<open>
  The Linux reader of \<open>Reader_Linux\<close> against the read contract of \<open>Op_Spec\<close>: the
  events of a caller as a step relation over the kernel state, the abstraction of the
  io\_uring instance to the phase of the contract, and the simulation that makes every
  concrete trace a trace of the contract.
\<close>

section \<open>The Linux reader against the read contract\<close>

text \<open>
  The abstraction of a reader's io\_uring instance to the phase of the contract: the
  instance holds a read in flight exactly while an operation is submitted.
\<close>

definition reader_phase :: "reader \<Rightarrow> kstate \<Rightarrow> op_phase" where
  "reader_phase r k =
     (case ring_of k (r_ring r) of
        Some rg \<Rightarrow> (case ring_inflight rg of [SqeRead _ _ _ off] \<Rightarrow> Submitted (sint off) | _ \<Rightarrow> Idle)
      | None \<Rightarrow> Idle)"

text \<open>
  The events a caller of one Linux reader observes. The caller keeps the contract of
  the specification: it submits only when no operation is pending.
\<close>

inductive reader_step :: "reader \<Rightarrow> kstate \<Rightarrow> read_event \<Rightarrow> kstate \<Rightarrow> bool" for r where
  rstep_submit: "reader_phase r k = Idle \<Longrightarrow> reader_readAsync r off k = (Inr (), k') \<Longrightarrow>
                   reader_step r k (RdSubmit (sint off)) k'"
| rstep_submit_failed: "reader_phase r k = Idle \<Longrightarrow> reader_readAsync r off k = (Inl e, k') \<Longrightarrow>
                   reader_step r k RdSubmitFailed k'"
| rstep_result: "reader_waitAndGetResult r k = Some (Inr v, k') \<Longrightarrow> sv_bytes k' v = Some d \<Longrightarrow>
                   reader_step r k (RdResult d) k'"
| rstep_failed: "reader_waitAndGetResult r k = Some (Inl e, k') \<Longrightarrow> reader_step r k RdFailed k'"

inductive reader_trace :: "reader \<Rightarrow> kstate \<Rightarrow> read_event list \<Rightarrow> kstate \<Rightarrow> bool" for r k where
  rtr_nil: "reader_trace r k [] k"
| rtr_snoc: "reader_trace r k es k' \<Longrightarrow> reader_step r k' e k'' \<Longrightarrow> reader_trace r k (es @ [e]) k''"


text \<open>A pending read: a usable reader with exactly this read in flight.\<close>

definition reader_busy :: "reader \<Rightarrow> 64 word \<Rightarrow> kstate \<Rightarrow> bool" where
  "reader_busy r off k \<longleftrightarrow>
     (\<exists>k0 rg. reader_ok r k0 \<and> ring_of k0 (r_ring r) = Some rg \<and>
        k = put_ring k0 (r_ring r)
              (rg\<lparr>ring_inflight := [SqeRead (r_fd r) (r_buffer r) (ucast (r_buffer_size r)) off]\<rparr>))"

text \<open>What the reader keeps while a caller uses it: the file it reads and its contents.\<close>

definition reader_keeps :: "reader \<Rightarrow> path \<Rightarrow> bytes \<Rightarrow> kstate \<Rightarrow> bool" where
  "reader_keeps r p c k \<longleftrightarrow>
     (case file_of k (r_fd r) of Some f \<Rightarrow> of_path f = p | None \<Rightarrow> False) \<and> contents_of k p = c"

lemma reader_ok_phase: "reader_ok r k \<Longrightarrow> reader_phase r k = Idle"
  by (auto simp: reader_phase_def ring_idle_def reader_ok_def split: option.splits)

lemma reader_busy_phase: "reader_busy r off k \<Longrightarrow> reader_phase r k = Submitted (sint off)"
  by (auto simp: reader_busy_def reader_phase_def ring_of_put_ring)

lemma reader_keeps_put_ring:
  "ring_of k rfd \<noteq> None \<Longrightarrow> reader_keeps r p c (put_ring k rfd rg) = reader_keeps r p c k"
  by (simp add: reader_keeps_def file_of_put_ring contents_of_def put_ring_fields)

lemma reader_ok_set_pos:
  assumes "reader_ok r k" "file_of k (r_fd r) = Some f"
  shows "reader_ok r (k\<lparr>k_fdt := tbl_set (k_fdt k) (r_fd r) (Some (FFile (f\<lparr>of_pos := x\<rparr>)))\<rparr>)"
proof -
  obtain rg where rg: "ring_of k (r_ring r) = Some rg" and ne: "r_fd r \<noteq> r_ring r"
    using assms(1) by (auto elim!: reader_okD)
  have "tbl_get (k_fdt k) (r_fd r) \<noteq> None" using assms(2) by (simp add: file_of_SomeD)
  then show ?thesis
    using assms rg ne
    by (auto simp: reader_ok_def file_of_def ring_idle_def ring_of_def tbl_get_set split: option.splits)
qed

text \<open>A read by the kernel on a usable reader's descriptor and buffer keeps it usable.\<close>

lemma reader_k_read:
  assumes "reader_ok r k" "k_read (r_fd r) (r_buffer r) n off k = (res, k')"
    and "file_of k (r_fd r) = Some f"
  shows "reader_ok r k' \<and> k_files k' = k_files k \<and>
         (\<exists>f'. file_of k' (r_fd r) = Some f' \<and> of_path f' = of_path f) \<and>
         (min (unat n) MAX_RW_COUNT \<le> unat (r_buffer_size r) \<longrightarrow> -1 \<le> sint off \<longrightarrow> 0 \<le> res) \<and>
         (0 \<le> res \<longrightarrow> (\<exists>pos. sv_bytes k' \<lparr>sv_ptr = r_buffer r, sv_len = nat res\<rparr> =
                               Some (read_at (contents_of k (of_path f)) pos (min (unat n) MAX_RW_COUNT)) \<and>
                             (0 \<le> sint off \<longrightarrow> pos = unat off)))"
proof -
  obtain b where rd: "of_read f" and b: "k_heap k (r_buffer r) = Some b"
    "length b = unat (r_buffer_size r)"
    using assms(1) assms(3) by (auto elim!: reader_okD)
  define pos where "pos = (if sint off = -1 then of_pos f else unat off)"
  define d where "d = read_at (contents_of k (of_path f)) pos (min (unat n) MAX_RW_COUNT)"
  define k1 where "k1 = k\<lparr>k_heap := (k_heap k)(r_buffer r \<mapsto> d @ drop (length d) b)\<rparr>"
  define k2 where "k2 = k1\<lparr>k_fdt := (if sint off = -1
                     then tbl_set (k_fdt k) (r_fd r) (Some (FFile (f\<lparr>of_pos := pos + length d\<rparr>)))
                     else k_fdt k)\<rparr>"
  have kr: "k_read (r_fd r) (r_buffer r) n off k =
              (if sint off < -1 then (-EINVAL, k) else if length b < length d then (-EFAULT, k)
               else (int (length d), k2))"
    using assms(3) rd b by (simp add: k_read_def Let_def pos_def d_def k2_def k1_def)
  show ?thesis
  proof (cases "sint off < -1 \<or> length b < length d")
    case True
    have "length d \<le> min (unat n) MAX_RW_COUNT" by (simp add: d_def min_le_iff_disj)
    then show ?thesis using True assms kr b(2) by (auto split: if_splits)
  next
    case False
    then have res: "res = int (length d)" "k' = k2" using assms(2) kr by simp_all
    have ok1: "reader_ok r k1"
      using reader_ok_fill [OF assms(1) b(1)] False by (simp add: k1_def)
    have f1: "file_of k1 (r_fd r) = Some f" using assms(3) by (simp add: k1_def file_of_def)
    have ok2: "reader_ok r k2"
      using reader_ok_set_pos [OF ok1 f1, of "pos + length d"] ok1
      by (cases "sint off = -1") (simp_all add: k2_def k1_def)
    have file2: "\<exists>f'. file_of k2 (r_fd r) = Some f' \<and> of_path f' = of_path f"
      using f1 file_of_SomeD [OF f1]
      by (auto simp: k2_def k1_def file_of_def tbl_get_set)
    have "sv_bytes k2 \<lparr>sv_ptr = r_buffer r, sv_len = length d\<rparr> = Some d"
      by (simp add: sv_bytes_def k2_def k1_def)
    moreover have "0 \<le> sint off \<longrightarrow> pos = unat off" by (simp add: pos_def)
    ultimately show ?thesis
      using ok2 file2 res by (auto simp: k2_def k1_def d_def)
  qed
qed

text \<open>On a usable reader, \<open>readAsync\<close> leaves exactly its read pending.\<close>

lemma reader_submit_busy:
  assumes "reader_ok r k"
  shows "\<exists>k'. reader_readAsync r off k = (Inr (), k') \<and> reader_busy r off k' \<and>
              (\<forall>p c. reader_keeps r p c k' = reader_keeps r p c k)"
proof -
  obtain f b rg where rg: "ring_of k (r_ring r) = Some rg" and idle: "ring_idle k (r_ring r)"
    using assms by (rule reader_okD)
  show ?thesis
    using reader_readAsync_idle [OF rg idle, of off] assms rg
    by (auto simp: reader_busy_def reader_keeps_put_ring)
qed

text \<open>On a usable reader nothing is pending: \<open>waitAndGetResult\<close> never returns.\<close>

lemma reader_ok_wait_None: "reader_ok r k \<Longrightarrow> reader_waitAndGetResult r k = None"
proof -
  assume "reader_ok r k"
  then obtain f b rg where rg: "ring_of k (r_ring r) = Some rg" and idle: "ring_idle k (r_ring r)"
    by (rule reader_okD)
  then have e: "ring_cq rg = []" "ring_inflight rg = []" by (auto simp: ring_idle_def)
  have "io_uring_wait_cqe (r_ring r) (put_ring k (r_ring r) rg) = None"
    using rg e by (simp add: wait_cqe_put_ring)
  then show ?thesis using rg by (simp add: put_ring_same reader_waitAndGetResult_def)
qed

text \<open>
  The wait on a pending read returns; the reader is usable again, reads the same file,
  and a view it returns holds at most \<open>buffer_size_\<close> bytes of the file from the offset.
\<close>

lemma reader_wait_busy:
  assumes "reader_busy r off k" "reader_keeps r p c k"
  shows "\<exists>res k'. reader_waitAndGetResult r k = Some (res, k') \<and> reader_ok r k' \<and> reader_keeps r p c k' \<and>
           (\<forall>v. res = Inr v \<longrightarrow> (\<exists>d. sv_bytes k' v = Some d \<and> length d \<le> unat (r_buffer_size r) \<and>
                                   (0 \<le> sint off \<longrightarrow> prefix d (drop (nat (sint off)) c)))) \<and>
           (\<forall>e. res = Inl e \<longrightarrow> sint off < 0)"
proof -
  obtain k0 rg where ok0: "reader_ok r k0" and rg: "ring_of k0 (r_ring r) = Some rg"
    and k: "k = put_ring k0 (r_ring r)
                  (rg\<lparr>ring_inflight := [SqeRead (r_fd r) (r_buffer r) (ucast (r_buffer_size r)) off]\<rparr>)"
    using assms(1) by (auto simp: reader_busy_def)
  have idle: "ring_idle k0 (r_ring r)" using ok0 by (simp add: reader_ok_def)
  have keep0: "reader_keeps r p c k0" using assms(2) rg by (simp add: k reader_keeps_put_ring)
  then obtain f where f: "file_of k0 (r_fd r) = Some f" "of_path f = p" and c: "contents_of k0 p = c"
    by (auto simp: reader_keeps_def split: option.splits)
  obtain res k1 where kr: "k_read (r_fd r) (r_buffer r) (ucast (r_buffer_size r)) off k0 = (res, k1)"
    by fastforce
  note rd = reader_k_read [OF ok0 kr f(1)]
  have keep1: "reader_keeps r p c k1"
    using rd f c by (auto simp: reader_keeps_def contents_of_def)
  have wait: "reader_waitAndGetResult r k =
                Some (if res < 0 then (Inl (ReadFailed (- res)), k1)
                      else (Inr \<lparr>sv_ptr = r_buffer r, sv_len = nat res\<rparr>, k1))"
    using reader_wait_one [OF rg idle] kr by (simp add: k)
  have len: "min (unat (ucast (r_buffer_size r) :: 32 word)) MAX_RW_COUNT \<le> unat (r_buffer_size r)"
    by (simp add: unat_ucast_32)
  show ?thesis
  proof (cases "res < 0")
    case True
    then show ?thesis using wait rd keep1 len by auto
  next
    case False
    then obtain pos where v: "sv_bytes k1 \<lparr>sv_ptr = r_buffer r, sv_len = nat res\<rparr> =
          Some (read_at c pos (min (unat (ucast (r_buffer_size r) :: 32 word)) MAX_RW_COUNT))"
      and pos: "0 \<le> sint off \<longrightarrow> pos = unat off"
      using rd f c by auto
    have "length (read_at c pos (min (unat (ucast (r_buffer_size r) :: 32 word)) MAX_RW_COUNT))
            \<le> unat (r_buffer_size r)"
      using len by simp
    then show ?thesis
      using wait rd keep1 v pos False read_at_prefix [of c pos]
      by (auto simp: nat_sint_nonneg)
  qed
qed

text \<open>
  The simulation: along any trace of a caller that keeps the contract, the reader is
  usable when the contract is \<open>Idle\<close> and holds the pending read when it is
  \<open>Submitted\<close>, and every event is a step of the contract.
\<close>

lemma reader_trace_sim:
  assumes "reader_trace r k0 es k" "reader_ok r k0" "reader_keeps r p c k0"
  shows "read_spec_trace (unat (r_buffer_size r)) c Idle es (reader_phase r k) \<and> reader_keeps r p c k \<and>
         (reader_ok r k \<or> (\<exists>off. reader_busy r off k))"
  using assms(1)
proof induction
  case rtr_nil
  then show ?case using assms(2,3) by (simp add: reader_ok_phase rst_nil)
next
  case (rtr_snoc es k' e k'')
  then have tr: "read_spec_trace (unat (r_buffer_size r)) c Idle es (reader_phase r k')"
    and keep: "reader_keeps r p c k'" and inv: "reader_ok r k' \<or> (\<exists>off. reader_busy r off k')"
    by auto
  from rtr_snoc.hyps(2) show ?case
  proof (cases rule: reader_step.cases)
    case (rstep_submit off)
    then have ok: "reader_ok r k'" using inv reader_busy_phase by fastforce
    obtain k1 where a: "reader_readAsync r off k' = (Inr (), k1)" "reader_busy r off k1"
      "\<forall>p c. reader_keeps r p c k1 = reader_keeps r p c k'"
      using reader_submit_busy [OF ok] by blast
    have "k'' = k1" using a(1) rstep_submit by simp
    then show ?thesis
      using a tr keep reader_ok_phase [OF ok] reader_busy_phase [OF a(2)] rstep_submit
      by (auto intro: rst_snoc rs_submit)
  next
    case (rstep_submit_failed off ex)
    then have ok: "reader_ok r k'" using inv reader_busy_phase by fastforce
    then show ?thesis using reader_submit_busy [OF ok, of off] rstep_submit_failed by auto
  next
    case (rstep_result v d)
    then obtain off where busy: "reader_busy r off k'" using inv reader_ok_wait_None by fastforce
    then show ?thesis
      using reader_wait_busy [OF busy keep] rstep_result tr reader_busy_phase [OF busy]
      by (fastforce intro: rst_snoc rs_result simp: reader_ok_phase)
  next
    case (rstep_failed ex)
    then obtain off where busy: "reader_busy r off k'" using inv reader_ok_wait_None by fastforce
    then show ?thesis
      using reader_wait_busy [OF busy keep] rstep_failed tr reader_busy_phase [OF busy]
      by (fastforce intro: rst_snoc rs_failed simp: reader_ok_phase)
  qed
qed

text \<open>C6. Refinement: every trace of events a caller observes on a usable Linux reader, keeping the contract of submitting only when nothing is pending, is a trace of the read contract of the specification, for the reader's buffer size and the file's contents: each view holds at most \<open>buffer_size_\<close> bytes, which are the file's bytes from the offset, and a read at or past the end of the file never fails (it is a success with no bytes).\<close>

theorem reader_refines_read_spec:
  assumes "reader_ok r k" "file_of k (r_fd r) = Some f" "reader_trace r k es k'"
  shows "read_spec_trace (unat (r_buffer_size r)) (contents_of k (of_path f)) Idle es (reader_phase r k')"
  using reader_trace_sim [OF assms(3,1)] assms(2) by (simp add: reader_keeps_def)

section \<open>The Linux writer against the write contract\<close>

text \<open>The bytes a caller lends: the first \<open>n\<close> bytes of its block.\<close>

definition borrowed :: "kstate \<Rightarrow> addr \<Rightarrow> 64 word \<Rightarrow> bytes" where
  "borrowed k a n = (case k_heap k a of Some b \<Rightarrow> take (unat n) b | None \<Rightarrow> [])"

definition borrow_ok :: "kstate \<Rightarrow> addr \<Rightarrow> 64 word \<Rightarrow> bool" where
  "borrow_ok k a n = (case k_heap k a of Some b \<Rightarrow> unat n \<le> length b | None \<Rightarrow> False)"

definition writer_phase :: "writer \<Rightarrow> kstate \<Rightarrow> wphase" where
  "writer_phase w k =
     (case ring_of k (w_ring w) of
        Some rg \<Rightarrow> (case ring_inflight rg of
                     [SqeWrite _ _ _ off] \<Rightarrow> WPending (sint off) (borrowed k (w_buffer w) (w_buffer_size w))
                   | _ \<Rightarrow> WIdle)
      | None \<Rightarrow> WIdle)"

text \<open>
  The events a caller of one Linux writer observes, keeping the contract: it submits only
  when nothing is pending, lending a live block that holds the \<open>buffer_size\<close> bytes.
\<close>

inductive writer_step :: "writer \<times> kstate \<Rightarrow> write_event \<Rightarrow> writer \<times> kstate \<Rightarrow> bool" where
  wstep_submit: "writer_phase w k = WIdle \<Longrightarrow> borrow_ok k data n \<Longrightarrow>
                   writer_writeAsync w data n off k = (Inr (), w', k') \<Longrightarrow>
                   writer_step (w, k) (WrSubmit (sint off) (borrowed k data n)) (w', k')"
| wstep_submit_failed: "writer_phase w k = WIdle \<Longrightarrow> borrow_ok k data n \<Longrightarrow>
                   writer_writeAsync w data n off k = (Inl e, w', k') \<Longrightarrow>
                   writer_step (w, k) WrSubmitFailed (w', k')"
| wstep_done: "writer_wait w k = Some (Inr (), k') \<Longrightarrow> writer_step (w, k) WrDone (w, k')"
| wstep_failed: "writer_wait w k = Some (Inl e, k') \<Longrightarrow> writer_step (w, k) WrFailed (w, k')"

inductive writer_trace :: "writer \<times> kstate \<Rightarrow> write_event list \<Rightarrow> writer \<times> kstate \<Rightarrow> bool" for s where
  wtr_nil: "writer_trace s [] s"
| wtr_snoc: "writer_trace s es s' \<Longrightarrow> writer_step s' e s'' \<Longrightarrow> writer_trace s (es @ [e]) s''"

text \<open>A write the kernel executes in full: a positional write that fits the caps.\<close>

lemma k_write_full:
  assumes "file_of k fd = Some f" "of_write f" "\<not> of_append f" "0 \<le> sint off"
    and "k_heap k buf = Some b" "unat n \<le> length b" "unat n \<le> MAX_RW_COUNT"
    and "unat off + unat n \<le> k_fsize_limit k"
  shows "\<exists>k'. k_write fd buf n off k = (int (unat n), k') \<and> k_heap k' = k_heap k \<and> k_fdt k' = k_fdt k \<and>
              k_fsize_limit k' = k_fsize_limit k \<and>
              contents_of k' (of_path f) = write_at (contents_of k (of_path f)) (unat off) (take (unat n) b)"
proof (cases "unat n = 0")
  case True
  have "sint off \<noteq> -1" "\<not> sint off < -1" using assms(4) by linarith+
  then show ?thesis using assms True by (simp add: k_write_def Let_def)
next
  case False
  have "unat n \<le> k_fsize_limit k - unat off" using assms(8) by simp
  then show ?thesis
    using k_write_positional [OF assms(1-6)] False assms(7,8)
    by (simp add: Let_def contents_of_def min_def)
qed

text \<open>Whatever the kernel does with a write on a usable non-appending writer, it stays usable.\<close>

lemma writer_ok_set_pos:
  assumes "writer_ok w k" "file_of k (w_fd w) = Some f"
  shows "writer_ok w (k\<lparr>k_files := fs, k_fdt := tbl_set (k_fdt k) (w_fd w) (Some (FFile (f\<lparr>of_pos := x\<rparr>)))\<rparr>)"
    and "writer_ok w (k\<lparr>k_files := fs\<rparr>)"
proof -
  obtain rg where rg: "ring_of k (w_ring w) = Some rg" and ne: "w_fd w \<noteq> w_ring w"
    using assms(1) by (auto elim!: writer_okD)
  have "tbl_get (k_fdt k) (w_fd w) \<noteq> None" using assms(2) by (simp add: file_of_SomeD)
  then show "writer_ok w (k\<lparr>k_files := fs, k_fdt := tbl_set (k_fdt k) (w_fd w) (Some (FFile (f\<lparr>of_pos := x\<rparr>)))\<rparr>)"
    using assms rg ne
    by (auto simp: writer_ok_def file_of_def ring_idle_def ring_of_def tbl_get_set split: option.splits)
  show "writer_ok w (k\<lparr>k_files := fs\<rparr>)"
    using assms(1) by (simp add: writer_ok_def file_of_def ring_idle_def ring_of_def)
qed

text \<open>Whatever the kernel does with a write on a usable writer, it stays usable.\<close>

lemma writer_k_write:
  assumes "writer_ok w k" "file_of k (w_fd w) = Some f" "k_write (w_fd w) buf n off k = (res, k')"
  shows "writer_ok w k' \<and> (\<exists>f'. file_of k' (w_fd w) = Some f' \<and> of_path f' = of_path f \<and> of_append f' = of_append f) \<and>
         k_heap k' = k_heap k \<and> k_fsize_limit k' = k_fsize_limit k \<and> (res < 0 \<longrightarrow> k' = k)"
proof -
  have wr: "of_write f" using assms(1,2) by (auto elim!: writer_okD)
  have t: "tbl_get (k_fdt k) (w_fd w) \<noteq> None" using assms(2) by (simp add: file_of_SomeD)
  define c where "c = contents_of k (of_path f)"
  define pos where "pos = (if of_append f then length c else if sint off = -1 then of_pos f else unat off)"
  define m where "m = min (min (unat n) MAX_RW_COUNT) (k_fsize_limit k - pos)"
  define K where "K = (\<lambda>b. k\<lparr>k_files := (k_files k)(of_path f \<mapsto> write_at c pos (take m b)),
                        k_fdt := (if sint off = -1 then tbl_set (k_fdt k) (w_fd w) (Some (FFile (f\<lparr>of_pos := pos + m\<rparr>)))
                                  else k_fdt k)\<rparr>)"
  have kw: "res < 0 \<and> k' = k \<or> res = 0 \<and> k' = k \<or> (0 \<le> res \<and> (\<exists>b. k' = K b))"
    using assms(2,3) wr
    by (auto simp: k_write_def Let_def c_def pos_def m_def K_def split: if_splits option.splits)
  have okK: "writer_ok w (K b)" for b
    using writer_ok_set_pos [OF assms(1,2)] by (simp add: K_def)
  have fK: "\<exists>f'. file_of (K b) (w_fd w) = Some f' \<and> of_path f' = of_path f \<and> of_append f' = of_append f" for b
    using assms(2) t by (auto simp: K_def file_of_def tbl_get_set)
  show ?thesis
    using kw okK fK assms(1,2) by (auto simp: K_def)
qed

text \<open>A pending write: a usable writer with exactly this write in flight.\<close>

definition writer_busy :: "writer \<Rightarrow> 64 word \<Rightarrow> kstate \<Rightarrow> bool" where
  "writer_busy w off k \<longleftrightarrow>
     (\<exists>k0 rg. writer_ok w k0 \<and> ring_of k0 (w_ring w) = Some rg \<and>
        k = put_ring k0 (w_ring w)
              (rg\<lparr>ring_inflight := [SqeWrite (w_fd w) (w_buffer w) (ucast (w_buffer_size w)) off]\<rparr>))"

lemma writer_ok_phase: "writer_ok w k \<Longrightarrow> writer_phase w k = WIdle"
  by (auto simp: writer_phase_def ring_idle_def writer_ok_def split: option.splits)

lemma writer_busy_phase:
  "writer_busy w off k \<Longrightarrow> writer_phase w k = WPending (sint off) (borrowed k (w_buffer w) (w_buffer_size w))"
  by (auto simp: writer_busy_def writer_phase_def ring_of_put_ring)

lemma borrowed_put_ring [simp]:
  "borrowed (put_ring k rfd rg) a n = borrowed k a n" "borrow_ok (put_ring k rfd rg) a n = borrow_ok k a n"
  by (simp_all add: borrowed_def borrow_ok_def put_ring_fields)

text \<open>On a usable writer nothing is pending: \<open>wait\<close> never returns.\<close>

lemma writer_ok_wait_None: "writer_ok w k \<Longrightarrow> writer_wait w k = None"
proof -
  assume "writer_ok w k"
  then obtain f rg where rg: "ring_of k (w_ring w) = Some rg" and idle: "ring_idle k (w_ring w)"
    by (rule writer_okD)
  then have e: "ring_cq rg = []" "ring_inflight rg = []" by (auto simp: ring_idle_def)
  have "io_uring_wait_cqe (w_ring w) (put_ring k (w_ring w) rg) = None"
    using rg e by (simp add: wait_cqe_put_ring)
  then show ?thesis using rg by (simp add: put_ring_same writer_wait_def)
qed

text \<open>On a usable writer, \<open>writeAsync\<close> leaves exactly its write pending.\<close>

lemma writer_submit_busy:
  assumes "writer_ok w k"
  shows "\<exists>k'. writer_writeAsync w data n off k = (Inr (), w\<lparr>w_buffer := data, w_buffer_size := n\<rparr>, k') \<and>
              writer_busy (w\<lparr>w_buffer := data, w_buffer_size := n\<rparr>) off k' \<and>
              k_heap k' = k_heap k \<and> k_files k' = k_files k \<and> k_fsize_limit k' = k_fsize_limit k \<and>
              file_of k' (w_fd w) = file_of k (w_fd w)"
proof -
  obtain f rg where rg: "ring_of k (w_ring w) = Some rg" and idle: "ring_idle k (w_ring w)"
    using assms by (rule writer_okD)
  have ok: "writer_ok (w\<lparr>w_buffer := data, w_buffer_size := n\<rparr>) k" using assms by (simp add: writer_ok_def)
  show ?thesis
    using writer_writeAsync_idle [OF rg idle, of data n off] ok rg
    by (auto simp: writer_busy_def put_ring_fields file_of_put_ring)
qed

text \<open>
  The wait on a pending write returns and leaves the writer usable; a failure leaves
  the file as it was, and a success of a write that fits the caps has written all the
  lent bytes at the offset.
\<close>

lemma writer_wait_busy:
  assumes "writer_busy w off k" "file_of k (w_fd w) = Some f"
  shows "\<exists>res k'. writer_wait w k = Some (res, k') \<and> writer_ok w k' \<and>
           (\<exists>f'. file_of k' (w_fd w) = Some f' \<and> of_path f' = of_path f \<and> of_append f' = of_append f) \<and>
           k_heap k' = k_heap k \<and> k_fsize_limit k' = k_fsize_limit k \<and>
           (res \<noteq> Inr () \<longrightarrow> contents_of k' (of_path f) = contents_of k (of_path f)) \<and>
           (res = Inr () \<longrightarrow> \<not> of_append f \<longrightarrow> 0 \<le> sint off \<longrightarrow> borrow_ok k (w_buffer w) (w_buffer_size w) \<longrightarrow>
              unat (w_buffer_size w) \<le> MAX_RW_COUNT \<longrightarrow> unat off + unat (w_buffer_size w) \<le> k_fsize_limit k \<longrightarrow>
              contents_of k' (of_path f) =
                write_at (contents_of k (of_path f)) (unat off) (borrowed k (w_buffer w) (w_buffer_size w)))"
proof -
  obtain k0 rg where ok0: "writer_ok w k0" and rg: "ring_of k0 (w_ring w) = Some rg"
    and k: "k = put_ring k0 (w_ring w)
                  (rg\<lparr>ring_inflight := [SqeWrite (w_fd w) (w_buffer w) (ucast (w_buffer_size w)) off]\<rparr>)"
    using assms(1) by (auto simp: writer_busy_def)
  have idle: "ring_idle k0 (w_ring w)" using ok0 by (simp add: writer_ok_def)
  have same: "file_of k = file_of k0" "k_heap k = k_heap k0" "k_files k = k_files k0"
    "k_fsize_limit k = k_fsize_limit k0" "borrowed k = borrowed k0" "borrow_ok k = borrow_ok k0"
    using rg by (simp_all add: k file_of_put_ring put_ring_fields fun_eq_iff)
  have f0: "file_of k0 (w_fd w) = Some f" using assms(2) same(1) by simp
  have wr: "of_write f" using ok0 f0 by (auto elim!: writer_okD)
  obtain res k1 where kw: "k_write (w_fd w) (w_buffer w) (ucast (w_buffer_size w)) off k0 = (res, k1)"
    by fastforce
  note W = writer_k_write [OF ok0 f0 kw]
  have wait: "writer_wait w k = Some (if res < 0 then Inl (WriteFailed (- res)) else Inr (), k1)"
    using writer_wait_one [OF rg idle] kw by (simp add: k)
  have full: "contents_of k1 (of_path f) =
                write_at (contents_of k0 (of_path f)) (unat off) (borrowed k0 (w_buffer w) (w_buffer_size w))"
    if na: "\<not> of_append f" and nn: "0 \<le> sint off" and bo: "borrow_ok k0 (w_buffer w) (w_buffer_size w)"
      and mx: "unat (w_buffer_size w) \<le> MAX_RW_COUNT" and lim: "unat off + unat (w_buffer_size w) \<le> k_fsize_limit k0"
  proof -
    obtain b where b: "k_heap k0 (w_buffer w) = Some b" "unat (w_buffer_size w) \<le> length b"
      using bo by (auto simp: borrow_ok_def split: option.splits)
    have u: "unat (ucast (w_buffer_size w) :: 32 word) = unat (w_buffer_size w)"
      using mx by (simp add: unat_ucast_32)
    show ?thesis
      using k_write_full [OF f0 wr na nn b(1), of "ucast (w_buffer_size w)"] b mx lim kw u
      by (auto simp: borrowed_def)
  qed
  show ?thesis
    using wait W full same by (auto simp: contents_of_def)
qed

text \<open>
  What a writer keeps along a trace: its descriptor names the same file, opened
  without \<open>O_APPEND\<close>, the size limit is the same, and it is usable, or has one write
  pending whose lent block holds the bytes and fits the caps.
\<close>

definition writer_keeps :: "path \<Rightarrow> nat \<Rightarrow> writer \<Rightarrow> kstate \<Rightarrow> bool" where
  "writer_keeps p L w k \<longleftrightarrow>
     (case file_of k (w_fd w) of Some f \<Rightarrow> of_path f = p \<and> \<not> of_append f | None \<Rightarrow> False) \<and>
     k_fsize_limit k = L \<and>
     (writer_ok w k \<or>
      (\<exists>off. writer_busy w off k \<and> borrow_ok k (w_buffer w) (w_buffer_size w) \<and>
             unat (w_buffer_size w) \<le> MAX_RW_COUNT \<and> (0 \<le> sint off \<longrightarrow> unat off + unat (w_buffer_size w) \<le> L)))"

text \<open>The writes of a trace fit the kernel's cap and the file-size limit \<open>L\<close>.\<close>

definition writes_fit :: "nat \<Rightarrow> write_event list \<Rightarrow> bool" where
  "writes_fit L es \<longleftrightarrow>
     (\<forall>e \<in> set es. case e of WrSubmit off d \<Rightarrow> length d \<le> MAX_RW_COUNT \<and> (0 \<le> off \<longrightarrow> nat off + length d \<le> L)
                           | _ \<Rightarrow> True)"

lemma writer_trace_sim:
  assumes "writer_trace (w0, k0) es s" "writes_fit L es" "writer_keeps p L w0 k0" "writer_ok w0 k0"
  shows "write_spec_trace False (WIdle, contents_of k0 p) es (writer_phase (fst s) (snd s), contents_of (snd s) p) \<and>
         writer_keeps p L (fst s) (snd s)"
  using assms(1,2)
proof induction
  case wtr_nil
  then show ?case using assms(3,4) by (simp add: writer_ok_phase wst_nil)
next
  case (wtr_snoc es s' e s'')
  obtain w1 k1 where s': "s' = (w1, k1)" by fastforce
  have fit: "writes_fit L es" "\<And>off d. e = WrSubmit off d \<Longrightarrow> length d \<le> MAX_RW_COUNT \<and> (0 \<le> off \<longrightarrow> nat off + length d \<le> L)"
    using wtr_snoc.prems by (auto simp: writes_fit_def)
  have tr: "write_spec_trace False (WIdle, contents_of k0 p) es (writer_phase w1 k1, contents_of k1 p)"
    and keep: "writer_keeps p L w1 k1"
    using wtr_snoc.IH [OF fit(1)] s' by auto
  obtain f where f: "file_of k1 (w_fd w1) = Some f" "of_path f = p" "\<not> of_append f" and lim: "k_fsize_limit k1 = L"
    using keep by (auto simp: writer_keeps_def split: option.splits)
  have inv: "writer_ok w1 k1 \<or> (\<exists>off. writer_busy w1 off k1 \<and> borrow_ok k1 (w_buffer w1) (w_buffer_size w1) \<and>
             unat (w_buffer_size w1) \<le> MAX_RW_COUNT \<and> (0 \<le> sint off \<longrightarrow> unat off + unat (w_buffer_size w1) \<le> L))"
    using keep by (simp add: writer_keeps_def)
  from wtr_snoc.hyps(2) [unfolded s'] show ?case
  proof (cases rule: writer_step.cases)
    case (wstep_submit data n off w' k')
    then have ok: "writer_ok w1 k1" using inv writer_busy_phase by fastforce
    obtain k2 where a: "writer_writeAsync w1 data n off k1 = (Inr (), w1\<lparr>w_buffer := data, w_buffer_size := n\<rparr>, k2)"
      "writer_busy (w1\<lparr>w_buffer := data, w_buffer_size := n\<rparr>) off k2"
      "k_heap k2 = k_heap k1" "k_files k2 = k_files k1" "k_fsize_limit k2 = k_fsize_limit k1"
      "file_of k2 (w_fd w1) = file_of k1 (w_fd w1)"
      using writer_submit_busy [OF ok] by blast
    have eq: "w' = w1\<lparr>w_buffer := data, w_buffer_size := n\<rparr>" "k' = k2" using a(1) wstep_submit by auto
    have bd: "borrowed k2 data n = borrowed k1 data n" "borrow_ok k2 data n"
      using a(3) wstep_submit by (simp_all add: borrowed_def borrow_ok_def)
    have len: "length (borrowed k1 data n) = unat n"
      using wstep_submit by (auto simp: borrowed_def borrow_ok_def split: option.splits)
    have fits: "unat n \<le> MAX_RW_COUNT" "0 \<le> sint off \<longrightarrow> unat off + unat n \<le> L"
      using fit(2) [of "sint off" "borrowed k1 data n"] wstep_submit len by (auto simp: nat_sint_nonneg)
    have "write_spec_trace False (WIdle, contents_of k0 p) (es @ [WrSubmit (sint off) (borrowed k1 data n)])
            (WPending (sint off) (borrowed k1 data n), contents_of k1 p)"
      using wst_snoc [OF _ ws_submit] tr writer_ok_phase [OF ok] by simp
    moreover have "writer_phase w' k' = WPending (sint off) (borrowed k1 data n)"
      using writer_busy_phase [OF a(2)] eq bd by simp
    moreover have "contents_of k' p = contents_of k1 p" using a(4) eq by (simp add: contents_of_def)
    moreover have "writer_keeps p L w' k'"
      using a(2,5,6) f lim bd fits eq by (auto simp: writer_keeps_def)
    ultimately show ?thesis using wstep_submit by simp
  next
    case (wstep_submit_failed data n off ex w' k')
    then have ok: "writer_ok w1 k1" using inv writer_busy_phase by fastforce
    then show ?thesis using writer_submit_busy [OF ok, of data n off] wstep_submit_failed by auto
  next
    case (wstep_done k')
    then have "\<not> writer_ok w1 k1" using writer_ok_wait_None by fastforce
    then obtain off where busy: "writer_busy w1 off k1" and bo: "borrow_ok k1 (w_buffer w1) (w_buffer_size w1)"
      and mx: "unat (w_buffer_size w1) \<le> MAX_RW_COUNT"
      and lm: "0 \<le> sint off \<longrightarrow> unat off + unat (w_buffer_size w1) \<le> L"
      using inv by blast
    obtain res k2 where w: "writer_wait w1 k1 = Some (res, k2)" "writer_ok w1 k2"
      "\<exists>f'. file_of k2 (w_fd w1) = Some f' \<and> of_path f' = of_path f \<and> of_append f' = of_append f"
      "k_fsize_limit k2 = k_fsize_limit k1"
      "res = Inr () \<longrightarrow> \<not> of_append f \<longrightarrow> 0 \<le> sint off \<longrightarrow> borrow_ok k1 (w_buffer w1) (w_buffer_size w1) \<longrightarrow>
          unat (w_buffer_size w1) \<le> MAX_RW_COUNT \<longrightarrow> unat off + unat (w_buffer_size w1) \<le> k_fsize_limit k1 \<longrightarrow>
          contents_of k2 (of_path f) =
            write_at (contents_of k1 (of_path f)) (unat off) (borrowed k1 (w_buffer w1) (w_buffer_size w1))"
      using writer_wait_busy [OF busy f(1)] by blast
    have eq: "res = Inr ()" "k' = k2" using w(1) wstep_done by auto
    let ?d = "borrowed k1 (w_buffer w1) (w_buffer_size w1)"
    have step: "write_spec False (WPending (sint off) ?d, contents_of k1 p) WrDone (WIdle, contents_of k2 p)"
    proof (cases "0 \<le> sint off")
      case True
      then show ?thesis
        using ws_done [OF True, of False ?d "contents_of k1 p"] w(5) eq f bo mx lm lim
        by (simp add: nat_sint_nonneg)
    next
      case False
      then show ?thesis using ws_done_negative by simp
    qed
    have "write_spec_trace False (WIdle, contents_of k0 p) (es @ [WrDone]) (WIdle, contents_of k2 p)"
      using wst_snoc [OF _ step] tr writer_busy_phase [OF busy] by simp
    moreover have "writer_keeps p L w1 k2" using w(2-4) f lim by (auto simp: writer_keeps_def)
    ultimately show ?thesis using wstep_done eq writer_ok_phase [OF w(2)] by simp
  next
    case (wstep_failed ex k')
    then have "\<not> writer_ok w1 k1" using writer_ok_wait_None by fastforce
    then obtain off where busy: "writer_busy w1 off k1" using inv by blast
    obtain res k2 where w: "writer_wait w1 k1 = Some (res, k2)" "writer_ok w1 k2"
      "\<exists>f'. file_of k2 (w_fd w1) = Some f' \<and> of_path f' = of_path f \<and> of_append f' = of_append f"
      "k_fsize_limit k2 = k_fsize_limit k1"
      "res \<noteq> Inr () \<longrightarrow> contents_of k2 (of_path f) = contents_of k1 (of_path f)"
      using writer_wait_busy [OF busy f(1)] by blast
    have eq: "res = Inl ex" "k' = k2" using w(1) wstep_failed by auto
    have "write_spec_trace False (WIdle, contents_of k0 p) (es @ [WrFailed]) (WIdle, contents_of k1 p)"
      using wst_snoc [OF _ ws_failed] tr writer_busy_phase [OF busy] by simp
    moreover have "writer_keeps p L w1 k2" using w(2-4) f lim by (auto simp: writer_keeps_def)
    ultimately show ?thesis using wstep_failed eq w(5) f(2) writer_ok_phase [OF w(2)] by simp
  qed
qed

text \<open>C8. Refinement: every trace of events a caller observes on a usable Linux writer opened without \<open>append\<close>, keeping the contract (submit only when nothing is pending, lending a block that holds the bytes), is a trace of the write contract of the specification, provided each write fits the kernel's per-call cap and the file-size limit: a successful \<open>wait\<close> then means that all the lent bytes are in the file at the offset, and a failure leaves the file unchanged. Without the proviso the code reports short writes as successes (see \<open>writer_short_write_accepted\<close>).\<close>

theorem writer_refines_write_spec:
  assumes "writer_ok w k" "file_of k (w_fd w) = Some f" "\<not> of_append f"
    and "writes_fit (k_fsize_limit k) es" "writer_trace (w, k) es (w', k')"
  shows "write_spec_trace False (WIdle, contents_of k (of_path f)) es (writer_phase w' k', contents_of k' (of_path f))"
proof -
  have "writer_keeps (of_path f) (k_fsize_limit k) w k" using assms(1-3) by (simp add: writer_keeps_def)
  then show ?thesis using writer_trace_sim [OF assms(5,4) _ assms(1)] by simp
qed

end
