(* ===== verification/Win32_Kernel.thy ===== *)
theory Win32_Kernel
  imports AF_Base
begin

text \<open>
  The environment of the Windows backend, which is not code of the repository: the
  Win32 calls the \<open>_WIN32\<close> halves of \<open>src/src/AsyncFileReader.cpp\<close> and
  \<open>src/src/AsyncFileWriter.cpp\<close> make (\<open>CreateFile\<close>, \<open>CloseHandle\<close>, \<open>CreateEvent\<close>,
  \<open>ResetEvent\<close>, \<open>ReadFile\<close>, \<open>WriteFile\<close>, \<open>GetOverlappedResult\<close>, \<open>GetLastError\<close>)
  and the C++ array allocation \<open>new char[n]\<close> / \<open>delete[]\<close>, over an explicit state.

  Handles are integers; a new handle is larger than every handle in use, so it is never
  \<open>NULL\<close> (0) nor \<open>INVALID_HANDLE_VALUE\<close> (-1). An overlapped \<open>ReadFile\<close> or \<open>WriteFile\<close>
  on a handle opened with \<open>FILE_FLAG_OVERLAPPED\<close> starts the operation and reports
  \<open>ERROR_IO_PENDING\<close>; the kernel records it under the event handle of its
  \<open>OVERLAPPED\<close> and executes it when \<open>GetOverlappedResult\<close> waits for it, writing the
  status and the byte count into the \<open>Internal\<close> and \<open>InternalHigh\<close> fields. The
  64-bit file offset of a request is \<open>OffsetHigh\<close> and \<open>Offset\<close>; both all ones mean
  the end of the file for a write.
\<close>

unbundle bit_operations_syntax

section \<open>Constants\<close>

abbreviation "INVALID_HANDLE_VALUE \<equiv> (-1 :: int)"
abbreviation "ERROR_FILE_NOT_FOUND \<equiv> (2 :: int)"
abbreviation "ERROR_ACCESS_DENIED \<equiv> (5 :: int)"
abbreviation "ERROR_INVALID_HANDLE \<equiv> (6 :: int)"
abbreviation "ERROR_NOT_ENOUGH_MEMORY \<equiv> (8 :: int)"
abbreviation "ERROR_SHARING_VIOLATION \<equiv> (32 :: int)"
abbreviation "ERROR_HANDLE_EOF \<equiv> (38 :: int)"
abbreviation "ERROR_DISK_FULL \<equiv> (112 :: int)"
abbreviation "ERROR_ALREADY_EXISTS \<equiv> (183 :: int)"
abbreviation "ERROR_IO_PENDING \<equiv> (997 :: int)"
abbreviation "ERROR_NOACCESS \<equiv> (998 :: int)"
abbreviation "STATUS_PENDING \<equiv> (259 :: int)"
abbreviation "GENERIC_READ \<equiv> (2147483648 :: int)"
abbreviation "GENERIC_WRITE \<equiv> (1073741824 :: int)"
abbreviation "FILE_SHARE_READ \<equiv> (1 :: int)"
abbreviation "FILE_SHARE_WRITE \<equiv> (2 :: int)"
abbreviation "CREATE_ALWAYS \<equiv> (2 :: int)"
abbreviation "OPEN_EXISTING \<equiv> (3 :: int)"
abbreviation "OPEN_ALWAYS \<equiv> (4 :: int)"

section \<open>State\<close>

record whfile =
  hf_path :: path
  hf_access :: int
  hf_share :: int

datatype hobj = HFile whfile | HEvent bool

text \<open>A started operation: handle, buffer, byte count, \<open>Offset\<close>, \<open>OffsetHigh\<close>.\<close>

datatype wop =
    OpRead int addr "32 word" "32 word" "32 word"
  | OpWrite int addr "32 word" "32 word" "32 word"

datatype wfault = BadHandleClose int | DoubleDelete addr

record overlapped =
  ov_Internal :: int
  ov_InternalHigh :: nat
  ov_Offset :: "32 word"
  ov_OffsetHigh :: "32 word"
  ov_hEvent :: int

text \<open>\<open>OVERLAPPED overlapped_{}\<close>: every field zero.\<close>

definition ov_zero :: overlapped where
  "ov_zero = \<lparr>ov_Internal = 0, ov_InternalHigh = 0, ov_Offset = 0, ov_OffsetHigh = 0, ov_hEvent = 0\<rparr>"

record wstate =
  ws_files :: "path \<rightharpoonup> bytes"
  ws_denied :: "path set"
  ws_handles :: "(int \<times> hobj) list"
  ws_event_quota :: nat
  ws_pending :: "(int \<times> wop) list"
  ws_heap :: "addr \<rightharpoonup> bytes"
  ws_next_addr :: addr
  ws_heap_quota :: nat
  ws_junk :: byte
  ws_fsize_limit :: nat
  ws_last_error :: int
  ws_faults :: "wfault list"

definition handle_obj :: "wstate \<Rightarrow> int \<Rightarrow> hobj option" where
  "handle_obj ws h = map_of (ws_handles ws) h"

definition wfile_of :: "wstate \<Rightarrow> int \<Rightarrow> whfile option" where
  "wfile_of ws h = (case handle_obj ws h of Some (HFile f) \<Rightarrow> Some f | _ \<Rightarrow> None)"

definition wcontents :: "wstate \<Rightarrow> path \<Rightarrow> bytes" where
  "wcontents ws p = (case ws_files ws p of Some c \<Rightarrow> c | None \<Rightarrow> [])"

text \<open>A handle value is not reused while a handle or a started operation refers to it.\<close>

definition fresh_handle :: "int list \<Rightarrow> int" where
  "fresh_handle ks = 4 + foldr max ks 0"

definition alloc_handle :: "hobj \<Rightarrow> wstate \<Rightarrow> int \<times> wstate" where
  "alloc_handle x ws =
     (let h = fresh_handle (map fst (ws_handles ws) @ map fst (ws_pending ws))
      in (h, ws\<lparr>ws_handles := (h, x) # ws_handles ws\<rparr>))"

definition set_event :: "int \<Rightarrow> bool \<Rightarrow> wstate \<Rightarrow> wstate" where
  "set_event h b ws =
     ws\<lparr>ws_handles := map (\<lambda>(h', x). if h' = h \<and> x = HEvent (\<not> b) then (h', HEvent b) else (h', x))
                          (ws_handles ws)\<rparr>"

section \<open>Handles\<close>

text \<open>
  The sharing check of \<open>CreateFile\<close>: a new handle is refused when an open handle on the
  same file does not share an access the new one asks for, or the new one does not share
  an access an open one has.
\<close>

definition share_ok :: "int \<Rightarrow> int \<Rightarrow> whfile \<Rightarrow> bool" where
  "share_ok access share f \<longleftrightarrow>
     (access AND GENERIC_READ \<noteq> 0 \<longrightarrow> hf_share f AND FILE_SHARE_READ \<noteq> 0) \<and>
     (access AND GENERIC_WRITE \<noteq> 0 \<longrightarrow> hf_share f AND FILE_SHARE_WRITE \<noteq> 0) \<and>
     (hf_access f AND GENERIC_READ \<noteq> 0 \<longrightarrow> share AND FILE_SHARE_READ \<noteq> 0) \<and>
     (hf_access f AND GENERIC_WRITE \<noteq> 0 \<longrightarrow> share AND FILE_SHARE_WRITE \<noteq> 0)"

definition share_conflict :: "path \<Rightarrow> int \<Rightarrow> int \<Rightarrow> wstate \<Rightarrow> bool" where
  "share_conflict p access share ws =
     list_ex (\<lambda>(h, x). case x of HFile f \<Rightarrow> hf_path f = p \<and> \<not> share_ok access share f | _ \<Rightarrow> False)
             (ws_handles ws)"

text \<open>
  \<open>CreateFile(path, access, share, nullptr, disposition, FILE_FLAG_OVERLAPPED, nullptr)\<close>:
  \<open>OPEN_EXISTING\<close> fails on a missing file, \<open>CREATE_ALWAYS\<close> creates or truncates,
  \<open>OPEN_ALWAYS\<close> creates or keeps.
\<close>

definition CreateFile :: "path \<Rightarrow> int \<Rightarrow> int \<Rightarrow> int \<Rightarrow> wstate \<Rightarrow> int \<times> wstate" where
  "CreateFile p access share disp ws =
     (if p \<in> ws_denied ws then (INVALID_HANDLE_VALUE, ws\<lparr>ws_last_error := ERROR_ACCESS_DENIED\<rparr>)
      else if share_conflict p access share ws
      then (INVALID_HANDLE_VALUE, ws\<lparr>ws_last_error := ERROR_SHARING_VIOLATION\<rparr>)
      else let fobj = HFile \<lparr>hf_path = p, hf_access = access, hf_share = share\<rparr>
      in case ws_files ws p of
           None \<Rightarrow>
             if disp = OPEN_EXISTING then (INVALID_HANDLE_VALUE, ws\<lparr>ws_last_error := ERROR_FILE_NOT_FOUND\<rparr>)
             else alloc_handle fobj (ws\<lparr>ws_files := (ws_files ws)(p \<mapsto> [])\<rparr>)
         | Some c \<Rightarrow>
             if disp = CREATE_ALWAYS
             then alloc_handle fobj (ws\<lparr>ws_files := (ws_files ws)(p \<mapsto> []), ws_last_error := ERROR_ALREADY_EXISTS\<rparr>)
             else alloc_handle fobj ws)"

text \<open>\<open>CloseHandle(h)\<close>; closing an event gives its slot back.\<close>

definition CloseHandle :: "int \<Rightarrow> wstate \<Rightarrow> bool \<times> wstate" where
  "CloseHandle h ws =
     (case handle_obj ws h of
        None \<Rightarrow> (False, ws\<lparr>ws_last_error := ERROR_INVALID_HANDLE, ws_faults := ws_faults ws @ [BadHandleClose h]\<rparr>)
      | Some x \<Rightarrow>
          (True, ws\<lparr>ws_handles := filter (\<lambda>p. fst p \<noteq> h) (ws_handles ws),
                    ws_event_quota := (case x of HEvent _ \<Rightarrow> Suc (ws_event_quota ws) | _ \<Rightarrow> ws_event_quota ws)\<rparr>))"

text \<open>\<open>CreateEvent(nullptr, TRUE, FALSE, nullptr)\<close>: a manual-reset event, not signalled; \<open>NULL\<close> on failure.\<close>

definition CreateEvent :: "wstate \<Rightarrow> int \<times> wstate" where
  "CreateEvent ws =
     (if ws_event_quota ws = 0 then (0, ws\<lparr>ws_last_error := ERROR_NOT_ENOUGH_MEMORY\<rparr>)
      else alloc_handle (HEvent False) (ws\<lparr>ws_event_quota := ws_event_quota ws - 1\<rparr>))"

definition ResetEvent :: "int \<Rightarrow> wstate \<Rightarrow> bool \<times> wstate" where
  "ResetEvent h ws =
     (case handle_obj ws h of
        Some (HEvent _) \<Rightarrow> (True, set_event h False ws)
      | _ \<Rightarrow> (False, ws\<lparr>ws_last_error := ERROR_INVALID_HANDLE\<rparr>))"

section \<open>Memory\<close>

text \<open>\<open>new char[n]\<close>: an uninitialised block, or \<open>std::bad_alloc\<close> (\<open>None\<close>).\<close>

definition new_array :: "nat \<Rightarrow> wstate \<Rightarrow> (addr \<times> wstate) option" where
  "new_array n ws =
     (if ws_heap_quota ws < n then None
      else Some (ws_next_addr ws,
                 ws\<lparr>ws_heap := (ws_heap ws)(ws_next_addr ws \<mapsto> replicate n (ws_junk ws)),
                    ws_next_addr := Suc (ws_next_addr ws), ws_heap_quota := ws_heap_quota ws - n\<rparr>))"

definition delete_array :: "addr \<Rightarrow> wstate \<Rightarrow> wstate" where
  "delete_array a ws =
     (if a = 0 then ws
      else case ws_heap ws a of
        None \<Rightarrow> ws\<lparr>ws_faults := ws_faults ws @ [DoubleDelete a]\<rparr>
      | Some b \<Rightarrow> ws\<lparr>ws_heap := (ws_heap ws)(a := None), ws_heap_quota := ws_heap_quota ws + length b\<rparr>)"

section \<open>Overlapped I/O\<close>

definition ov_pos :: "32 word \<Rightarrow> 32 word \<Rightarrow> nat" where
  "ov_pos lo hi = unat hi * 2 ^ 32 + unat lo"

definition start_io :: "wop \<Rightarrow> overlapped \<Rightarrow> wstate \<Rightarrow> bool \<times> overlapped \<times> wstate" where
  "start_io op ov ws =
     (False, ov\<lparr>ov_Internal := STATUS_PENDING, ov_InternalHigh := 0\<rparr>,
      (set_event (ov_hEvent ov) False ws)\<lparr>ws_pending := ws_pending ws @ [(ov_hEvent ov, op)],
                                         ws_last_error := ERROR_IO_PENDING\<rparr>)"

definition ReadFile :: "int \<Rightarrow> addr \<Rightarrow> 32 word \<Rightarrow> overlapped \<Rightarrow> wstate \<Rightarrow> bool \<times> overlapped \<times> wstate" where
  "ReadFile h buf n ov ws =
     (case wfile_of ws h of
        None \<Rightarrow> (False, ov, ws\<lparr>ws_last_error := ERROR_INVALID_HANDLE\<rparr>)
      | Some f \<Rightarrow>
          if hf_access f AND GENERIC_READ = 0 then (False, ov, ws\<lparr>ws_last_error := ERROR_ACCESS_DENIED\<rparr>)
          else start_io (OpRead h buf n (ov_Offset ov) (ov_OffsetHigh ov)) ov ws)"

definition WriteFile :: "int \<Rightarrow> addr \<Rightarrow> 32 word \<Rightarrow> overlapped \<Rightarrow> wstate \<Rightarrow> bool \<times> overlapped \<times> wstate" where
  "WriteFile h buf n ov ws =
     (case wfile_of ws h of
        None \<Rightarrow> (False, ov, ws\<lparr>ws_last_error := ERROR_INVALID_HANDLE\<rparr>)
      | Some f \<Rightarrow>
          if hf_access f AND GENERIC_WRITE = 0 then (False, ov, ws\<lparr>ws_last_error := ERROR_ACCESS_DENIED\<rparr>)
          else start_io (OpWrite h buf n (ov_Offset ov) (ov_OffsetHigh ov)) ov ws)"

text \<open>
  The kernel executing a started operation: its status (0 for success, else a Win32
  error) and byte count. A read at or past the end of the file fails with
  \<open>ERROR_HANDLE_EOF\<close>; a write that would pass the volume's size limit fails with
  \<open>ERROR_DISK_FULL\<close>; a buffer that is not a live block of the count's size fails
  with \<open>ERROR_NOACCESS\<close>.
\<close>

fun w_exec :: "wop \<Rightarrow> wstate \<Rightarrow> (int \<times> nat) \<times> wstate" where
  "w_exec (OpRead h buf n lo hi) ws =
     (case wfile_of ws h of
        None \<Rightarrow> ((ERROR_INVALID_HANDLE, 0), ws)
      | Some f \<Rightarrow>
          let c = wcontents ws (hf_path f); pos = ov_pos lo hi
          in if unat n = 0 then ((0, 0), ws)
          else if length c \<le> pos then ((ERROR_HANDLE_EOF, 0), ws)
          else case ws_heap ws buf of
            None \<Rightarrow> ((ERROR_NOACCESS, 0), ws)
          | Some b \<Rightarrow>
              if length b < unat n then ((ERROR_NOACCESS, 0), ws)
              else let d = read_at c pos (unat n)
                   in ((0, length d), ws\<lparr>ws_heap := (ws_heap ws)(buf \<mapsto> d @ drop (length d) b)\<rparr>))"
| "w_exec (OpWrite h buf n lo hi) ws =
     (case wfile_of ws h of
        None \<Rightarrow> ((ERROR_INVALID_HANDLE, 0), ws)
      | Some f \<Rightarrow>
          let c = wcontents ws (hf_path f);
              pos = (if lo = 4294967295 \<and> hi = 4294967295 then length c else ov_pos lo hi)
          in if unat n = 0 then ((0, 0), ws)
          else case ws_heap ws buf of
            None \<Rightarrow> ((ERROR_NOACCESS, 0), ws)
          | Some b \<Rightarrow>
              if length b < unat n then ((ERROR_NOACCESS, 0), ws)
              else if ws_fsize_limit ws < pos + unat n then ((ERROR_DISK_FULL, 0), ws)
              else ((0, unat n),
                    ws\<lparr>ws_files := (ws_files ws)(hf_path f \<mapsto> write_at c pos (take (unat n) b))\<rparr>))"

text \<open>
  \<open>GetOverlappedResult(h, &ov, &n, TRUE)\<close>: while \<open>Internal\<close> is \<open>STATUS_PENDING\<close> it
  waits for the operation started with the event of \<open>ov\<close>, which the kernel then
  executes; with none started it waits for ever (\<open>None\<close>). Otherwise it returns at once
  what \<open>Internal\<close> and \<open>InternalHigh\<close> hold.
\<close>

definition GetOverlappedResult ::
  "int \<Rightarrow> overlapped \<Rightarrow> wstate \<Rightarrow> ((bool \<times> nat) \<times> overlapped \<times> wstate) option" where
  "GetOverlappedResult h ov ws =
     (if ov_Internal ov = STATUS_PENDING then
        (case map_of (ws_pending ws) (ov_hEvent ov) of
           None \<Rightarrow> None
         | Some op \<Rightarrow>
             let ((st, n), ws1) = w_exec op ws;
                 ws2 = set_event (ov_hEvent ov) True
                         (ws1\<lparr>ws_pending := filter (\<lambda>p. fst p \<noteq> ov_hEvent ov) (ws_pending ws1)\<rparr>)
             in Some ((st = 0, n), ov\<lparr>ov_Internal := st, ov_InternalHigh := n\<rparr>,
                      if st = 0 then ws2 else ws2\<lparr>ws_last_error := st\<rparr>))
      else if ov_Internal ov = 0 then Some ((True, ov_InternalHigh ov), ov, ws)
      else Some ((False, ov_InternalHigh ov), ov, ws\<lparr>ws_last_error := ov_Internal ov\<rparr>))"

definition GetLastError :: "wstate \<Rightarrow> int" where
  "GetLastError ws = ws_last_error ws"

definition n_handles :: "wstate \<Rightarrow> nat" where
  "n_handles ws = length (ws_handles ws)"

section \<open>The offset split of both classes\<close>

text \<open>
  \<open>overlapped_.Offset = offset & 0xFFFFFFFF; overlapped_.OffsetHigh = (offset >> 32) & 0xFFFFFFFF;\<close>
  in \<open>readAsync\<close> and \<open>writeAsync\<close>: the shift of the \<open>long long\<close> is arithmetic.
\<close>

definition ov_split :: "64 word \<Rightarrow> overlapped \<Rightarrow> overlapped" where
  "ov_split off ov =
     ov\<lparr>ov_Offset := ucast (off AND 0xFFFFFFFF),
        ov_OffsetHigh := ucast (signed_drop_bit 32 off AND 0xFFFFFFFF)\<rparr>"

text \<open>
  The state after an operation started with event \<open>ev\<close> on \<open>ws\<close> has been waited for:
  the files and memory as the kernel left them (\<open>wsx\<close>), the event signalled, and the
  last error of the start or of the failure.
\<close>

definition io_done :: "int \<Rightarrow> int \<Rightarrow> wstate \<Rightarrow> wstate \<Rightarrow> wstate" where
  "io_done ev st ws wsx =
     set_event ev True ((set_event ev False ws)\<lparr>ws_files := ws_files wsx, ws_heap := ws_heap wsx,
                          ws_last_error := (if st = 0 then ERROR_IO_PENDING else st)\<rparr>)"

section \<open>Lemmas\<close>

subsection \<open>Handles\<close>

lemma fresh_handle_gt: "k \<in> set ks \<Longrightarrow> k < fresh_handle ks"
proof (induction ks)
  case (Cons a ks)
  then show ?case by (auto simp: fresh_handle_def)
qed simp

lemma fresh_handle_pos: "4 \<le> fresh_handle ks"
proof -
  have "0 \<le> foldr max ks (0 :: int)" by (induction ks) auto
  then show ?thesis by (simp add: fresh_handle_def)
qed

lemma alloc_handle_facts:
  assumes "alloc_handle x ws = (h, ws')"
  shows "4 \<le> h" "handle_obj ws h = None" "map_of (ws_pending ws) h = None"
    "handle_obj ws' h = Some x" "h' \<noteq> h \<Longrightarrow> handle_obj ws' h' = handle_obj ws h'"
    "ws' = ws\<lparr>ws_handles := (h, x) # ws_handles ws\<rparr>"
proof -
  let ?ks = "map fst (ws_handles ws) @ map fst (ws_pending ws)"
  have h: "h = fresh_handle ?ks" and ws': "ws' = ws\<lparr>ws_handles := (h, x) # ws_handles ws\<rparr>"
    using assms by (auto simp: alloc_handle_def Let_def)
  have notin: "h \<notin> set ?ks" using fresh_handle_gt [of h ?ks] h by auto
  show "4 \<le> h" using fresh_handle_pos h by simp
  show "handle_obj ws h = None" "map_of (ws_pending ws) h = None"
    using notin by (auto simp: handle_obj_def map_of_eq_None_iff)
  show "handle_obj ws' h = Some x" "h' \<noteq> h \<Longrightarrow> handle_obj ws' h' = handle_obj ws h'"
    using ws' by (simp_all add: handle_obj_def)
  show "ws' = ws\<lparr>ws_handles := (h, x) # ws_handles ws\<rparr>" by (rule ws')
qed

lemma close_alloc:
  assumes "alloc_handle x ws = (h, ws')"
  shows "ws_handles (snd (CloseHandle h ws')) = ws_handles ws"
proof -
  note F = alloc_handle_facts [OF assms]
  have "\<forall>p \<in> set (ws_handles ws). fst p \<noteq> h"
    using F(2) by (auto simp: handle_obj_def map_of_eq_None_iff)
  then show ?thesis using F(4,6) by (simp add: CloseHandle_def)
qed

lemma handle_obj_upd [simp]:
  "handle_obj (ws\<lparr>ws_files := fs\<rparr>) = handle_obj ws" "handle_obj (ws\<lparr>ws_heap := hp\<rparr>) = handle_obj ws"
  "handle_obj (ws\<lparr>ws_last_error := e\<rparr>) = handle_obj ws" "handle_obj (ws\<lparr>ws_pending := ps\<rparr>) = handle_obj ws"
  "handle_obj (ws\<lparr>ws_faults := fl\<rparr>) = handle_obj ws" "handle_obj (ws\<lparr>ws_heap_quota := q\<rparr>) = handle_obj ws"
  "handle_obj (ws\<lparr>ws_next_addr := a\<rparr>) = handle_obj ws" "handle_obj (ws\<lparr>ws_event_quota := q\<rparr>) = handle_obj ws"
  by (simp_all add: handle_obj_def fun_eq_iff)

lemma wfile_of_upd [simp]:
  "wfile_of (ws\<lparr>ws_files := fs\<rparr>) = wfile_of ws" "wfile_of (ws\<lparr>ws_heap := hp\<rparr>) = wfile_of ws"
  "wfile_of (ws\<lparr>ws_last_error := e\<rparr>) = wfile_of ws" "wfile_of (ws\<lparr>ws_pending := ps\<rparr>) = wfile_of ws"
  "wfile_of (ws\<lparr>ws_faults := fl\<rparr>) = wfile_of ws" "wfile_of (ws\<lparr>ws_heap_quota := q\<rparr>) = wfile_of ws"
  "wfile_of (ws\<lparr>ws_next_addr := a\<rparr>) = wfile_of ws" "wfile_of (ws\<lparr>ws_event_quota := q\<rparr>) = wfile_of ws"
  by (simp_all add: wfile_of_def fun_eq_iff)

subsection \<open>Events\<close>

lemma map_of_set_event:
  "map_of (map (\<lambda>(h', x). if h' = h \<and> x = HEvent (\<not> b) then (h', HEvent b) else (h', x)) hs) k =
   map_option (\<lambda>x. if k = h \<and> x = HEvent (\<not> b) then HEvent b else x) (map_of hs k)"
  by (induction hs) auto

lemma set_event_fields [simp]:
  "ws_files (set_event h b ws) = ws_files ws" "ws_heap (set_event h b ws) = ws_heap ws"
  "ws_pending (set_event h b ws) = ws_pending ws" "ws_faults (set_event h b ws) = ws_faults ws"
  "ws_event_quota (set_event h b ws) = ws_event_quota ws" "ws_heap_quota (set_event h b ws) = ws_heap_quota ws"
  "ws_next_addr (set_event h b ws) = ws_next_addr ws" "ws_fsize_limit (set_event h b ws) = ws_fsize_limit ws"
  "ws_last_error (set_event h b ws) = ws_last_error ws" "ws_denied (set_event h b ws) = ws_denied ws"
  "length (ws_handles (set_event h b ws)) = length (ws_handles ws)"
  by (simp_all add: set_event_def)

lemma handle_obj_set_event:
  "handle_obj (set_event h b ws) k =
   map_option (\<lambda>x. if k = h \<and> x = HEvent (\<not> b) then HEvent b else x) (handle_obj ws k)"
  by (simp add: set_event_def handle_obj_def map_of_set_event)

lemma wfile_of_set_event [simp]: "wfile_of (set_event h b ws) = wfile_of ws"
  by (auto simp: fun_eq_iff wfile_of_def handle_obj_set_event split: option.splits hobj.splits)

lemma handle_event_set_event:
  "handle_obj ws k = Some (HEvent e) \<Longrightarrow> \<exists>e'. handle_obj (set_event h b ws) k = Some (HEvent e')"
  by (auto simp: handle_obj_set_event)

lemma set_event_set_event [simp]: "set_event h b (set_event h b ws) = set_event h b ws"
proof -
  have "map (\<lambda>(h', x). if h' = h \<and> x = HEvent (\<not> b) then (h', HEvent b) else (h', x))
          (map (\<lambda>(h', x). if h' = h \<and> x = HEvent (\<not> b) then (h', HEvent b) else (h', x)) hs) =
        map (\<lambda>(h', x). if h' = h \<and> x = HEvent (\<not> b) then (h', HEvent b) else (h', x)) hs" for hs
    by (induction hs) auto
  then show ?thesis by (simp add: set_event_def)
qed

lemma set_event_upd:
  "set_event h b (ws\<lparr>ws_pending := p\<rparr>) = (set_event h b ws)\<lparr>ws_pending := p\<rparr>"
  "set_event h b (ws\<lparr>ws_last_error := e\<rparr>) = (set_event h b ws)\<lparr>ws_last_error := e\<rparr>"
  "set_event h b (ws\<lparr>ws_files := fs\<rparr>) = (set_event h b ws)\<lparr>ws_files := fs\<rparr>"
  "set_event h b (ws\<lparr>ws_heap := hp\<rparr>) = (set_event h b ws)\<lparr>ws_heap := hp\<rparr>"
  by (simp_all add: set_event_def)

subsection \<open>Executing an operation\<close>

text \<open>An operation reads the file table, the contents and the heap, and writes only the last two.\<close>

lemma w_exec_frame:
  assumes "wfile_of ws' = wfile_of ws" "ws_files ws' = ws_files ws" "ws_heap ws' = ws_heap ws"
    "ws_fsize_limit ws' = ws_fsize_limit ws"
  shows "w_exec op ws' =
           (fst (w_exec op ws), ws'\<lparr>ws_files := ws_files (snd (w_exec op ws)),
                                  ws_heap := ws_heap (snd (w_exec op ws))\<rparr>)"
  using assms
  by (cases op) (auto simp: Let_def wcontents_def split: option.splits)

lemma w_exec_status: "fst (fst (w_exec op ws)) \<noteq> STATUS_PENDING"
  by (cases op) (auto simp: Let_def split: option.splits)

lemma w_exec_fields [simp]:
  "wfile_of (snd (w_exec op ws)) = wfile_of ws" "ws_handles (snd (w_exec op ws)) = ws_handles ws"
  "ws_pending (snd (w_exec op ws)) = ws_pending ws" "ws_faults (snd (w_exec op ws)) = ws_faults ws"
  "ws_event_quota (snd (w_exec op ws)) = ws_event_quota ws"
  "ws_heap_quota (snd (w_exec op ws)) = ws_heap_quota ws" "ws_next_addr (snd (w_exec op ws)) = ws_next_addr ws"
  "ws_fsize_limit (snd (w_exec op ws)) = ws_fsize_limit ws" "ws_last_error (snd (w_exec op ws)) = ws_last_error ws"
  "ws_denied (snd (w_exec op ws)) = ws_denied ws"
  by (cases op; auto simp: Let_def wfile_of_def handle_obj_def split: option.splits)+

subsection \<open>The offset split\<close>

lemma mask32: "(0xFFFFFFFF :: 64 word) = mask 32"
  by (simp add: mask_eq_exp_minus_1)

lemma signed_drop_bit_32_mask: "signed_drop_bit 32 (off :: 64 word) AND 0xFFFFFFFF = drop_bit 32 off"
  unfolding mask32 by (rule bit_word_eqI) (auto simp: bit_simps dest: bit_imp_le_length)

lemma unat_low_word: "unat (ucast ((off :: 64 word) AND 0xFFFFFFFF) :: 32 word) = unat off mod 2 ^ 32"
  unfolding unat_ucast_32 mask32 take_bit_eq_mask [symmetric] unsigned_take_bit_eq
  by (simp add: take_bit_eq_mod)

lemma unat_high_word:
  "unat (ucast (signed_drop_bit 32 (off :: 64 word) AND 0xFFFFFFFF) :: 32 word) = unat off div 2 ^ 32"
proof -
  have "unat off < 2 ^ 64" using unsigned_less [of off] by simp
  then have "unat off div 2 ^ 32 < 2 ^ 32" by (simp add: less_mult_imp_div_less)
  then show ?thesis
    unfolding signed_drop_bit_32_mask unat_ucast_32 unat_drop_bit_eq by (simp add: drop_bit_eq_div)
qed

lemma ov_split_fields [simp]:
  "ov_hEvent (ov_split off ov) = ov_hEvent ov" "ov_Internal (ov_split off ov) = ov_Internal ov"
  "ov_InternalHigh (ov_split off ov) = ov_InternalHigh ov"
  by (simp_all add: ov_split_def)

text \<open>The two words recombine to the offset, read as unsigned.\<close>

lemma ov_split_pos: "ov_pos (ov_Offset (ov_split off ov)) (ov_OffsetHigh (ov_split off ov)) = unat off"
proof -
  have "ov_Offset (ov_split off ov) = ucast (off AND 0xFFFFFFFF)"
    "ov_OffsetHigh (ov_split off ov) = ucast (signed_drop_bit 32 off AND 0xFFFFFFFF)"
    by (simp_all add: ov_split_def)
  then show ?thesis
    unfolding ov_pos_def using unat_high_word [of off] unat_low_word [of off] by simp
qed

text \<open>C16. The masks and the arithmetic shift of \<open>readAsync\<close> and \<open>writeAsync\<close> compute the plain arithmetic split of the offset read as unsigned: \<open>Offset\<close> is its remainder and \<open>OffsetHigh\<close> its quotient by 2 to the 32.\<close>

theorem ov_split_eq_arith:
  "ov_split off ov = ov\<lparr>ov_Offset := of_nat (unat off mod 2 ^ 32), ov_OffsetHigh := of_nat (unat off div 2 ^ 32)\<rparr>"
proof -
  have "unat off < 2 ^ 64" using unsigned_less [of off] by simp
  then have "unat off div 2 ^ 32 < 2 ^ 32" by (simp add: less_mult_imp_div_less)
  then have d: "unat off div 4294967296 mod 4294967296 = unat off div 4294967296" by simp
  have lo: "ucast (off AND 0xFFFFFFFF) = (of_nat (unat off mod 2 ^ 32) :: 32 word)"
    unfolding word_unat_eq_iff by (simp add: unat_low_word unat_of_nat)
  have hi: "ucast (signed_drop_bit 32 off AND 0xFFFFFFFF) = (of_nat (unat off div 2 ^ 32) :: 32 word)"
    unfolding word_unat_eq_iff by (simp add: unat_high_word unat_of_nat d)
  show ?thesis unfolding ov_split_def lo hi ..
qed

subsection \<open>One overlapped operation\<close>

lemma io_done_fields [simp]:
  "wfile_of (io_done ev st ws wsx) = wfile_of ws" "ws_files (io_done ev st ws wsx) = ws_files wsx"
  "ws_heap (io_done ev st ws wsx) = ws_heap wsx" "ws_pending (io_done ev st ws wsx) = ws_pending ws"
  "ws_faults (io_done ev st ws wsx) = ws_faults ws" "ws_event_quota (io_done ev st ws wsx) = ws_event_quota ws"
  "ws_heap_quota (io_done ev st ws wsx) = ws_heap_quota ws" "ws_next_addr (io_done ev st ws wsx) = ws_next_addr ws"
  "ws_fsize_limit (io_done ev st ws wsx) = ws_fsize_limit ws" "ws_denied (io_done ev st ws wsx) = ws_denied ws"
  by (simp_all add: io_done_def set_event_upd [symmetric])

lemma io_done_event:
  "handle_obj ws ev = Some (HEvent e) \<Longrightarrow> handle_obj (io_done ev st ws wsx) ev = Some (HEvent True)"
  by (cases e) (simp_all add: io_done_def handle_obj_set_event set_event_upd [symmetric])

lemma io_done_handles:
  "handle_obj ws k = Some (HEvent e) \<Longrightarrow> \<exists>e'. handle_obj (io_done ev st ws wsx) k = Some (HEvent e')"
  by (auto simp: io_done_def handle_obj_set_event set_event_upd [symmetric])

lemma map_of_pending_snoc:
  "map_of ps ev = None \<Longrightarrow> map_of (ps @ [(ev, op)]) ev = Some op"
  "map_of ps ev = None \<Longrightarrow> filter (\<lambda>p. fst p \<noteq> ev) (ps @ [(ev, op)]) = ps"
   apply (simp add: map_add_def)
  apply (auto simp: map_of_eq_None_iff filter_id_conv)
  done

text \<open>
  Waiting for an operation started on an event with nothing else pending executes it
  and reports its status and count.
\<close>

lemma overlapped_cycle:
  assumes "map_of (ws_pending ws) (ov_hEvent ov) = None" "w_exec op ws = ((st, n), wsx)"
  shows "GetOverlappedResult h (ov\<lparr>ov_Internal := STATUS_PENDING, ov_InternalHigh := 0\<rparr>)
           ((set_event (ov_hEvent ov) False ws)\<lparr>ws_pending := ws_pending ws @ [(ov_hEvent ov, op)],
                                               ws_last_error := ERROR_IO_PENDING\<rparr>) =
         Some ((st = 0, n), ov\<lparr>ov_Internal := st, ov_InternalHigh := n\<rparr>, io_done (ov_hEvent ov) st ws wsx)"
proof -
  let ?ws2 = "(set_event (ov_hEvent ov) False ws)\<lparr>ws_pending := ws_pending ws @ [(ov_hEvent ov, op)],
                                                 ws_last_error := ERROR_IO_PENDING\<rparr>"
  have "w_exec op ?ws2 = ((st, n), ?ws2\<lparr>ws_files := ws_files wsx, ws_heap := ws_heap wsx\<rparr>)"
    using w_exec_frame [of ?ws2 ws op] assms(2) by simp
  then show ?thesis
    using assms map_of_pending_snoc [OF assms(1), of op]
    by (simp add: GetOverlappedResult_def io_done_def set_event_upd)
qed

subsection \<open>Opening and allocation\<close>

lemma CreateFile_existing:
  assumes "p \<notin> ws_denied ws" "\<not> share_conflict p acc sh ws" "ws_files ws p = Some c" "disp \<noteq> CREATE_ALWAYS"
  shows "CreateFile p acc sh disp ws = alloc_handle (HFile \<lparr>hf_path = p, hf_access = acc, hf_share = sh\<rparr>) ws"
  using assms by (simp add: CreateFile_def)

lemma CreateFile_refused:
  assumes "p \<in> ws_denied ws"
  shows "CreateFile p acc sh disp ws = (INVALID_HANDLE_VALUE, ws\<lparr>ws_last_error := ERROR_ACCESS_DENIED\<rparr>)"
  using assms by (simp add: CreateFile_def)

lemma new_array_ok:
  "n \<le> ws_heap_quota ws \<Longrightarrow>
   new_array n ws = Some (ws_next_addr ws,
     ws\<lparr>ws_heap := (ws_heap ws)(ws_next_addr ws \<mapsto> replicate n (ws_junk ws)),
        ws_next_addr := Suc (ws_next_addr ws), ws_heap_quota := ws_heap_quota ws - n\<rparr>)"
  by (simp add: new_array_def)

lemma new_array_fails: "ws_heap_quota ws < n \<Longrightarrow> new_array n ws = None"
  by (simp add: new_array_def)

lemma CreateEvent_ok:
  assumes "0 < ws_event_quota ws"
  shows "CreateEvent ws = alloc_handle (HEvent False) (ws\<lparr>ws_event_quota := ws_event_quota ws - 1\<rparr>)"
  using assms by (simp add: CreateEvent_def)

lemma CreateEvent_fails:
  "ws_event_quota ws = 0 \<Longrightarrow> CreateEvent ws = (0, ws\<lparr>ws_last_error := ERROR_NOT_ENOUGH_MEMORY\<rparr>)"
  by (simp add: CreateEvent_def)

lemma CloseHandle_head:
  assumes "handle_obj ws h = None"
  shows "CloseHandle h (ws\<lparr>ws_handles := (h, x) # ws_handles ws\<rparr>) =
           (True, ws\<lparr>ws_event_quota := (case x of HEvent _ \<Rightarrow> Suc (ws_event_quota ws) | _ \<Rightarrow> ws_event_quota ws)\<rparr>)"
proof -
  have "\<forall>p \<in> set (ws_handles ws). fst p \<noteq> h"
    using assms by (auto simp: handle_obj_def map_of_eq_None_iff)
  then show ?thesis by (cases x) (simp_all add: CloseHandle_def handle_obj_def)
qed

lemma delete_array_live:
  "a \<noteq> 0 \<Longrightarrow> ws_heap ws a = Some b \<Longrightarrow>
   delete_array a ws = ws\<lparr>ws_heap := (ws_heap ws)(a := None), ws_heap_quota := ws_heap_quota ws + length b\<rparr>"
  by (simp add: delete_array_def)

lemma CloseHandle_cons:
  assumes "ws_handles ws = (h, x) # hs" "h \<notin> fst ` set hs"
  shows "CloseHandle h ws =
           (True, ws\<lparr>ws_handles := hs,
                    ws_event_quota := (case x of HEvent _ \<Rightarrow> Suc (ws_event_quota ws) | _ \<Rightarrow> ws_event_quota ws)\<rparr>)"
proof -
  have "filter (\<lambda>p. fst p \<noteq> h) hs = hs" using assms(2) by (force simp: filter_id_conv)
  then show ?thesis using assms(1) by (simp add: CloseHandle_def handle_obj_def)
qed

lemma handle_obj_None_iff: "handle_obj ws h = None \<longleftrightarrow> h \<notin> fst ` set (ws_handles ws)"
  by (simp add: handle_obj_def map_of_eq_None_iff)

lemma CreateFile_create:
  assumes "p \<notin> ws_denied ws" "\<not> share_conflict p acc sh ws" "disp = CREATE_ALWAYS \<or> disp = OPEN_ALWAYS"
  shows "\<exists>e. CreateFile p acc sh disp ws =
           alloc_handle (HFile \<lparr>hf_path = p, hf_access = acc, hf_share = sh\<rparr>)
             (ws\<lparr>ws_files := (ws_files ws)(p \<mapsto> (if disp = CREATE_ALWAYS then [] else wcontents ws p)),
                 ws_last_error := e\<rparr>)"
proof (cases "ws_files ws p")
  case None
  then show ?thesis using assms
    by (intro exI [of _ "ws_last_error ws"]) (auto simp: CreateFile_def wcontents_def)
next
  case (Some c)
  show ?thesis
  proof (cases "disp = CREATE_ALWAYS")
    case True
    then show ?thesis using assms Some
      by (intro exI [of _ ERROR_ALREADY_EXISTS]) (simp add: CreateFile_def)
  next
    case False
    have "ws\<lparr>ws_files := (ws_files ws)(p \<mapsto> c), ws_last_error := ws_last_error ws\<rparr> = ws"
      using Some by (simp add: fun_upd_idem)
    then show ?thesis using assms Some False
      by (intro exI [of _ "ws_last_error ws"]) (simp add: CreateFile_def wcontents_def)
  qed
qed

lemma share_conflict_exclusive:
  assumes "(h, HFile f) \<in> set (ws_handles ws)" "hf_path f = p" "hf_share f = 0"
    and "acc AND GENERIC_READ \<noteq> 0 \<or> acc AND GENERIC_WRITE \<noteq> 0"
  shows "share_conflict p acc sh ws"
proof -
  have "\<not> share_ok acc sh f" using assms(3,4) by (auto simp: share_ok_def)
  then show ?thesis using assms(1,2) by (force simp: share_conflict_def list_ex_iff)
qed

end
