(* ===== verification/Reader_Win32.thy ===== *)
theory Reader_Win32
  imports Win32_Kernel
begin

text \<open>
  The Windows \<open>AsyncFileReader\<close> (the \<open>_WIN32\<close> halves of
  \<open>src/include/AsyncFile/AsyncFileReader.hpp\<close> and \<open>src/src/AsyncFileReader.cpp\<close>)
  over the state of \<open>Win32_Kernel\<close>. Its members are the file handle, the buffer
  (\<open>new char[buffer_size]\<close>), its size, and an \<open>OVERLAPPED\<close> whose event the
  constructor creates. \<open>readAsync\<close> and \<open>waitAndGetResult\<close> return the object with its
  \<open>OVERLAPPED\<close> as the calls left it.
\<close>

unbundle bit_operations_syntax

record winreader =
  wr_hFile :: int
  wr_buffer :: addr
  wr_buffer_size :: "64 word"
  wr_ov :: overlapped

section \<open>Member functions\<close>

text \<open>
  The constructor. A throw leaves what was acquired before it: the file handle when
  \<open>new\<close> throws \<open>std::bad_alloc\<close>, the buffer when \<open>CreateEvent\<close> fails (the handle
  is closed there, the buffer is not deleted).
\<close>

definition winreader_ctor :: "path \<Rightarrow> 64 word \<Rightarrow> wstate \<Rightarrow> (exn + winreader) \<times> wstate" where
  "winreader_ctor p bsz ws =
     (let (h, ws1) = CreateFile p GENERIC_READ FILE_SHARE_READ OPEN_EXISTING ws
      in if h = INVALID_HANDLE_VALUE then (Inl Win_ReaderOpenFailed, ws1)
      else case new_array (unat bsz) ws1 of
        None \<Rightarrow> (Inl Win_BadAlloc, ws1)
      | Some (buf, ws2) \<Rightarrow>
          let (ev, ws3) = CreateEvent ws2
          in if ev = 0 then (Inl Win_ReaderEventFailed, snd (CloseHandle h ws3))
          else (Inr \<lparr>wr_hFile = h, wr_buffer = buf, wr_buffer_size = bsz, wr_ov = ov_zero\<lparr>ov_hEvent := ev\<rparr>\<rparr>, ws3))"

definition winreader_cleanup :: "winreader \<Rightarrow> wstate \<Rightarrow> wstate" where
  "winreader_cleanup r ws =
     (let ws1 = (if ov_hEvent (wr_ov r) \<noteq> 0 then snd (CloseHandle (ov_hEvent (wr_ov r)) ws) else ws);
          ws2 = delete_array (wr_buffer r) ws1
      in if wr_hFile r \<noteq> INVALID_HANDLE_VALUE then snd (CloseHandle (wr_hFile r) ws2) else ws2)"

definition winreader_dtor :: "winreader \<Rightarrow> wstate \<Rightarrow> wstate" where
  "winreader_dtor r ws = winreader_cleanup r ws"

text \<open>The move constructor: the new object, and the source as it is left.\<close>

definition winreader_move :: "winreader \<Rightarrow> winreader \<times> winreader" where
  "winreader_move other =
     (\<lparr>wr_hFile = wr_hFile other, wr_buffer = wr_buffer other,
       wr_buffer_size = wr_buffer_size other, wr_ov = wr_ov other\<rparr>,
      other\<lparr>wr_hFile := INVALID_HANDLE_VALUE, wr_buffer := 0,
            wr_ov := (wr_ov other)\<lparr>ov_hEvent := 0\<rparr>\<rparr>)"

definition winreader_move_assign ::
  "'o \<Rightarrow> 'o \<Rightarrow> ('o \<rightharpoonup> winreader) \<Rightarrow> wstate \<Rightarrow> ('o \<rightharpoonup> winreader) \<times> wstate" where
  "winreader_move_assign this other objs ws =
     (if this = other then (objs, ws)
      else case (objs this, objs other) of
        (Some t, Some s) \<Rightarrow>
          (let ws1 = winreader_cleanup t ws;
               t' = t\<lparr>wr_hFile := wr_hFile s, wr_buffer := wr_buffer s,
                      wr_buffer_size := wr_buffer_size s, wr_ov := wr_ov s\<rparr>;
               s' = s\<lparr>wr_hFile := INVALID_HANDLE_VALUE, wr_buffer := 0,
                      wr_ov := (wr_ov s)\<lparr>ov_hEvent := 0\<rparr>\<rparr>
           in (objs(this \<mapsto> t', other \<mapsto> s'), ws1))
      | _ \<Rightarrow> (objs, ws))"

text \<open>
  \<open>readAsync(offset)\<close>: the 64-bit offset is split into \<open>Offset\<close> (\<open>offset & 0xFFFFFFFF\<close>)
  and \<open>OffsetHigh\<close> (\<open>(offset >> 32) & 0xFFFFFFFF\<close>, an arithmetic shift of a
  \<open>long long\<close>), and the size is cast to \<open>DWORD\<close>.
\<close>

definition winreader_readAsync ::
  "winreader \<Rightarrow> 64 word \<Rightarrow> wstate \<Rightarrow> (exn + unit) \<times> winreader \<times> wstate" where
  "winreader_readAsync r off ws =
     (let ov1 = ov_split off (wr_ov r);
          ws1 = snd (ResetEvent (ov_hEvent ov1) ws);
          (ok, ov2, ws2) = ReadFile (wr_hFile r) (wr_buffer r) (ucast (wr_buffer_size r)) ov1 ws1
      in if \<not> ok \<and> GetLastError ws2 \<noteq> ERROR_IO_PENDING
         then (Inl Win_ReadFileFailed, r\<lparr>wr_ov := ov2\<rparr>, ws2)
         else (Inr (), r\<lparr>wr_ov := ov2\<rparr>, ws2))"

definition winreader_waitAndGetResult ::
  "winreader \<Rightarrow> wstate \<Rightarrow> ((exn + sview) \<times> winreader \<times> wstate) option" where
  "winreader_waitAndGetResult r ws =
     (case GetOverlappedResult (wr_hFile r) (wr_ov r) ws of
        None \<Rightarrow> None
      | Some ((ok, n), ov', ws') \<Rightarrow>
          if \<not> ok then Some (Inl Win_OverlappedFailed, r\<lparr>wr_ov := ov'\<rparr>, ws')
          else Some (Inr \<lparr>sv_ptr = wr_buffer r, sv_len = n\<rparr>, r\<lparr>wr_ov := ov'\<rparr>, ws'))"

text \<open>\<open>readAsync\<close>, then \<open>waitAndGetResult\<close> when the submission did not throw.\<close>

definition winreader_read_once ::
  "winreader \<Rightarrow> 64 word \<Rightarrow> wstate \<Rightarrow> ((exn + sview) \<times> winreader \<times> wstate) option" where
  "winreader_read_once r off ws =
     (case winreader_readAsync r off ws of
        (Inl e, r1, ws1) \<Rightarrow> Some (Inl e, r1, ws1)
      | (Inr _, r1, ws1) \<Rightarrow> winreader_waitAndGetResult r1 ws1)"

definition wsv_bytes :: "wstate \<Rightarrow> sview \<Rightarrow> bytes option" where
  "wsv_bytes ws v = map_option (take (sv_len v)) (ws_heap ws (sv_ptr v))"

section \<open>Invariant\<close>

text \<open>
  A usable reader: its handle is a file opened for reading, its buffer a live block of
  \<open>buffer_size_\<close> bytes, its event an event with no operation started on it, and its
  \<open>OVERLAPPED\<close> not pending.
\<close>

definition winreader_ok :: "winreader \<Rightarrow> wstate \<Rightarrow> bool" where
  "winreader_ok r ws \<longleftrightarrow>
     (case wfile_of ws (wr_hFile r) of None \<Rightarrow> False | Some f \<Rightarrow> hf_access f AND GENERIC_READ \<noteq> 0) \<and>
     wr_buffer r \<noteq> 0 \<and>
     (case ws_heap ws (wr_buffer r) of None \<Rightarrow> False | Some b \<Rightarrow> length b = unat (wr_buffer_size r)) \<and>
     (case handle_obj ws (ov_hEvent (wr_ov r)) of Some (HEvent _) \<Rightarrow> True | _ \<Rightarrow> False) \<and>
     map_of (ws_pending ws) (ov_hEvent (wr_ov r)) = None \<and>
     ov_Internal (wr_ov r) \<noteq> STATUS_PENDING"

section \<open>Lemmas\<close>

lemma winreader_okD:
  assumes "winreader_ok r ws"
  obtains f b e where "wfile_of ws (wr_hFile r) = Some f" "hf_access f AND GENERIC_READ \<noteq> 0"
    "wr_buffer r \<noteq> 0" "ws_heap ws (wr_buffer r) = Some b" "length b = unat (wr_buffer_size r)"
    "handle_obj ws (ov_hEvent (wr_ov r)) = Some (HEvent e)"
    "map_of (ws_pending ws) (ov_hEvent (wr_ov r)) = None" "ov_Internal (wr_ov r) \<noteq> STATUS_PENDING"
  using assms by (auto simp: winreader_ok_def split: option.splits hobj.splits)

subsection \<open>One request\<close>

text \<open>On a usable reader, \<open>readAsync\<close> starts exactly one read and reports no error.\<close>

lemma winreader_readAsync_ok:
  assumes "winreader_ok r ws"
  shows "winreader_readAsync r off ws =
           (Inr (), r\<lparr>wr_ov := (ov_split off (wr_ov r))\<lparr>ov_Internal := STATUS_PENDING, ov_InternalHigh := 0\<rparr>\<rparr>,
            (set_event (ov_hEvent (wr_ov r)) False ws)\<lparr>ws_pending := ws_pending ws @
               [(ov_hEvent (wr_ov r), OpRead (wr_hFile r) (wr_buffer r) (ucast (wr_buffer_size r))
                  (ov_Offset (ov_split off (wr_ov r))) (ov_OffsetHigh (ov_split off (wr_ov r))))],
             ws_last_error := ERROR_IO_PENDING\<rparr>)"
proof -
  obtain f b e where f: "wfile_of ws (wr_hFile r) = Some f" "hf_access f AND GENERIC_READ \<noteq> 0"
    and ev: "handle_obj ws (ov_hEvent (wr_ov r)) = Some (HEvent e)"
    using assms by (rule winreader_okD)
  have "ResetEvent (ov_hEvent (wr_ov r)) ws = (True, set_event (ov_hEvent (wr_ov r)) False ws)"
    using ev by (simp add: ResetEvent_def)
  then show ?thesis
    using f by (simp add: winreader_readAsync_def ReadFile_def start_io_def GetLastError_def Let_def)
qed

text \<open>
  \<open>readAsync\<close> then \<open>waitAndGetResult\<close> on a usable reader performs the one read the
  kernel executes, of the size cast to 32 bits at the split offset, and returns its
  count as the view, or throws when its status is an error.
\<close>

lemma winreader_cycle:
  assumes "winreader_ok r ws"
    and "w_exec (OpRead (wr_hFile r) (wr_buffer r) (ucast (wr_buffer_size r))
           (ov_Offset (ov_split off (wr_ov r))) (ov_OffsetHigh (ov_split off (wr_ov r)))) ws = ((st, n), wsx)"
  shows "winreader_read_once r off ws =
           Some (if st = 0 then Inr \<lparr>sv_ptr = wr_buffer r, sv_len = n\<rparr> else Inl Win_OverlappedFailed,
                 r\<lparr>wr_ov := (ov_split off (wr_ov r))\<lparr>ov_Internal := st, ov_InternalHigh := n\<rparr>\<rparr>,
                 io_done (ov_hEvent (wr_ov r)) st ws wsx)"
proof -
  obtain f b e where "map_of (ws_pending ws) (ov_hEvent (wr_ov r)) = None"
    using assms(1) by (rule winreader_okD)
  then have "map_of (ws_pending ws) (ov_hEvent (ov_split off (wr_ov r))) = None" by simp
  from overlapped_cycle [OF this assms(2), of "wr_hFile r"] show ?thesis
    by (simp add: winreader_read_once_def winreader_readAsync_ok [OF assms(1)]
                  winreader_waitAndGetResult_def)
qed

lemma winreader_ok_after:
  assumes "winreader_ok r ws" "ws_heap wsx (wr_buffer r) = Some b'" "length b' = unat (wr_buffer_size r)"
    and "st \<noteq> STATUS_PENDING"
  shows "winreader_ok (r\<lparr>wr_ov := (ov_split off (wr_ov r))\<lparr>ov_Internal := st, ov_InternalHigh := n\<rparr>\<rparr>)
                      (io_done (ov_hEvent (wr_ov r)) st ws wsx)"
proof -
  obtain f b e where "wfile_of ws (wr_hFile r) = Some f" "hf_access f AND GENERIC_READ \<noteq> 0"
    "wr_buffer r \<noteq> 0" "handle_obj ws (ov_hEvent (wr_ov r)) = Some (HEvent e)"
    "map_of (ws_pending ws) (ov_hEvent (wr_ov r)) = None"
    using assms(1) by (rule winreader_okD)
  then show ?thesis
    using assms(2-4) io_done_event [of ws "ov_hEvent (wr_ov r)" e st wsx]
    by (simp add: winreader_ok_def)
qed

text \<open>A read at an offset before the end of the file.\<close>

lemma winreader_read_file:
  assumes "winreader_ok r ws" "wfile_of ws (wr_hFile r) = Some f"
    and "unat off < length (wcontents ws (hf_path f))" "0 < unat (wr_buffer_size r) mod 2 ^ 32"
    and "d = read_at (wcontents ws (hf_path f)) (unat off) (unat (wr_buffer_size r) mod 2 ^ 32)"
  shows "\<exists>ws'. winreader_read_once r off ws =
           Some (Inr \<lparr>sv_ptr = wr_buffer r, sv_len = length d\<rparr>,
                 r\<lparr>wr_ov := (ov_split off (wr_ov r))\<lparr>ov_Internal := 0, ov_InternalHigh := length d\<rparr>\<rparr>, ws') \<and>
           ws_heap ws' = (ws_heap ws)(wr_buffer r \<mapsto> d @ drop (length d) (the (ws_heap ws (wr_buffer r)))) \<and>
           ws_files ws' = ws_files ws \<and>
           winreader_ok (r\<lparr>wr_ov := (ov_split off (wr_ov r))\<lparr>ov_Internal := 0, ov_InternalHigh := length d\<rparr>\<rparr>) ws'"
proof -
  obtain f' b e where "wfile_of ws (wr_hFile r) = Some f'" and b: "ws_heap ws (wr_buffer r) = Some b"
    "length b = unat (wr_buffer_size r)"
    using assms(1) by (rule winreader_okD)
  define wsx where "wsx = ws\<lparr>ws_heap := (ws_heap ws)(wr_buffer r \<mapsto> d @ drop (length d) b)\<rparr>"
  have "w_exec (OpRead (wr_hFile r) (wr_buffer r) (ucast (wr_buffer_size r))
           (ov_Offset (ov_split off (wr_ov r))) (ov_OffsetHigh (ov_split off (wr_ov r)))) ws =
        ((0, length d), wsx)"
    using assms(2-5) b by (simp add: ov_split_pos unat_ucast_32 wsx_def Let_def)
  moreover have "length (d @ drop (length d) b) = unat (wr_buffer_size r)"
    using assms(5) b by simp
  ultimately show ?thesis
    using winreader_cycle [OF assms(1)] winreader_ok_after [OF assms(1), of wsx] b
    by (simp add: wsx_def)
qed

subsection \<open>Construction\<close>

lemma winreader_ctor_opened:
  assumes "p \<notin> ws_denied ws" "\<not> share_conflict p GENERIC_READ FILE_SHARE_READ ws" "ws_files ws p = Some c"
  obtains h ws1 where
    "alloc_handle (HFile \<lparr>hf_path = p, hf_access = GENERIC_READ, hf_share = FILE_SHARE_READ\<rparr>) ws = (h, ws1)"
    "winreader_ctor p bsz ws =
       (case new_array (unat bsz) ws1 of
          None \<Rightarrow> (Inl Win_BadAlloc, ws1)
        | Some (buf, ws2) \<Rightarrow>
            let (ev, ws3) = CreateEvent ws2
            in if ev = 0 then (Inl Win_ReaderEventFailed, snd (CloseHandle h ws3))
            else (Inr \<lparr>wr_hFile = h, wr_buffer = buf, wr_buffer_size = bsz, wr_ov = ov_zero\<lparr>ov_hEvent := ev\<rparr>\<rparr>, ws3))"
proof -
  obtain h ws1 where a: "alloc_handle (HFile \<lparr>hf_path = p, hf_access = GENERIC_READ,
                            hf_share = FILE_SHARE_READ\<rparr>) ws = (h, ws1)"
    by fastforce
  have "h \<noteq> INVALID_HANDLE_VALUE" using alloc_handle_facts (1) [OF a] by simp
  then show ?thesis
    using that [OF a] a CreateFile_existing [OF assms, of OPEN_EXISTING] by (simp add: winreader_ctor_def)
qed

lemma winreader_ctor_ok:
  assumes "p \<notin> ws_denied ws" "\<not> share_conflict p GENERIC_READ FILE_SHARE_READ ws" "ws_files ws p = Some c"
    and "unat bsz \<le> ws_heap_quota ws" "0 < ws_event_quota ws" "0 < ws_next_addr ws"
  shows "\<exists>r ws'. winreader_ctor p bsz ws = (Inr r, ws') \<and> winreader_ok r ws' \<and>
            wr_buffer_size r = bsz \<and> wr_buffer r = ws_next_addr ws \<and>
            ws_heap ws' (wr_buffer r) = Some (replicate (unat bsz) (ws_junk ws)) \<and>
            wr_ov r = ov_zero\<lparr>ov_hEvent := ov_hEvent (wr_ov r)\<rparr> \<and>
            wfile_of ws' (wr_hFile r) = Some \<lparr>hf_path = p, hf_access = GENERIC_READ, hf_share = FILE_SHARE_READ\<rparr> \<and>
            ws_handles ws' = (ov_hEvent (wr_ov r), HEvent False) #
                             (wr_hFile r, HFile \<lparr>hf_path = p, hf_access = GENERIC_READ, hf_share = FILE_SHARE_READ\<rparr>) #
                             ws_handles ws \<and>
            handle_obj ws (wr_hFile r) = None \<and> handle_obj ws (ov_hEvent (wr_ov r)) = None \<and>
            ov_hEvent (wr_ov r) \<noteq> wr_hFile r \<and> 4 \<le> wr_hFile r \<and> 4 \<le> ov_hEvent (wr_ov r) \<and>
            ws_files ws' = ws_files ws \<and> ws_pending ws' = ws_pending ws \<and> ws_faults ws' = ws_faults ws \<and>
            ws_heap_quota ws' = ws_heap_quota ws - unat bsz \<and> ws_event_quota ws' = ws_event_quota ws - 1 \<and>
            (\<forall>a. a \<noteq> wr_buffer r \<longrightarrow> ws_heap ws' a = ws_heap ws a)"
proof -
  let ?F = "HFile \<lparr>hf_path = p, hf_access = GENERIC_READ, hf_share = FILE_SHARE_READ\<rparr>"
  obtain h ws1 where a: "alloc_handle ?F ws = (h, ws1)"
    and c: "winreader_ctor p bsz ws =
       (case new_array (unat bsz) ws1 of
          None \<Rightarrow> (Inl Win_BadAlloc, ws1)
        | Some (buf, ws2) \<Rightarrow>
            let (ev, ws3) = CreateEvent ws2
            in if ev = 0 then (Inl Win_ReaderEventFailed, snd (CloseHandle h ws3))
            else (Inr \<lparr>wr_hFile = h, wr_buffer = buf, wr_buffer_size = bsz, wr_ov = ov_zero\<lparr>ov_hEvent := ev\<rparr>\<rparr>, ws3))"
    using winreader_ctor_opened [OF assms(1-3)] by blast
  note A = alloc_handle_facts [OF a]
  define ws2 where "ws2 = ws1\<lparr>ws_heap := (ws_heap ws1)(ws_next_addr ws1 \<mapsto> replicate (unat bsz) (ws_junk ws1)),
        ws_next_addr := Suc (ws_next_addr ws1), ws_heap_quota := ws_heap_quota ws1 - unat bsz\<rparr>"
  have n: "new_array (unat bsz) ws1 = Some (ws_next_addr ws, ws2)"
    using new_array_ok [of "unat bsz" ws1] A(6) assms(4) by (simp add: ws2_def)
  obtain ev ws3 where e: "alloc_handle (HEvent False) (ws2\<lparr>ws_event_quota := ws_event_quota ws2 - 1\<rparr>) = (ev, ws3)"
    by fastforce
  note E = alloc_handle_facts [OF e]
  have ce: "CreateEvent ws2 = (ev, ws3)"
    using CreateEvent_ok [of ws2] e assms(5) A(6) by (simp add: ws2_def)
  have ev0: "ev \<noteq> 0" using E(1) by simp
  have "handle_obj ws1 ev = None" using E(2) by (simp add: ws2_def)
  then have evh: "ev \<noteq> h" using A(4) by auto
  define r where "r = \<lparr>wr_hFile = h, wr_buffer = ws_next_addr ws, wr_buffer_size = bsz,
                       wr_ov = ov_zero\<lparr>ov_hEvent := ev\<rparr>\<rparr>"
  have res: "winreader_ctor p bsz ws = (Inr r, ws3)" using c n ce ev0 by (simp add: r_def)
  have fo: "wfile_of ws3 h = Some \<lparr>hf_path = p, hf_access = GENERIC_READ, hf_share = FILE_SHARE_READ\<rparr>"
    using E(5) [OF evh [symmetric]] A(4) by (simp add: wfile_of_def ws2_def)
  have pend: "map_of (ws_pending ws3) ev = None" using E(3) E(6) by (simp add: ws2_def)
  have "winreader_ok r ws3"
    using fo pend E(4) E(6) assms(6) A(6) by (simp add: winreader_ok_def r_def ws2_def ov_zero_def)
  moreover have "handle_obj ws ev = None"
    using E(2) A(5) [of ev] evh by (simp add: ws2_def)
  ultimately show ?thesis
    using res fo A(1,2,6) E(1,6) evh by (auto simp: r_def ws2_def ov_zero_def)
qed

section \<open>Properties\<close>

text \<open>C4. A read of a usable Windows reader at any 64-bit offset before the end of the file (a buffer size whose low 32 bits are not all zero) succeeds; the view holds the bytes of the file from that offset, as many as the buffer size cast to \<open>DWORD\<close> and the file allow, and the reader stays usable.\<close>

theorem winreader_read_bytes:
  assumes "winreader_ok r ws" "wfile_of ws (wr_hFile r) = Some f"
    and "unat off < length (wcontents ws (hf_path f))" "0 < unat (wr_buffer_size r) mod 2 ^ 32"
  shows "\<exists>v r' ws'. winreader_read_once r off ws = Some (Inr v, r', ws') \<and>
           wsv_bytes ws' v = Some (read_at (wcontents ws (hf_path f)) (unat off) (unat (wr_buffer_size r) mod 2 ^ 32)) \<and>
           winreader_ok r' ws' \<and> ws_files ws' = ws_files ws"
proof -
  obtain f' b e where b: "ws_heap ws (wr_buffer r) = Some b" "length b = unat (wr_buffer_size r)"
    using assms(1) by (rule winreader_okD)
  define d where "d = read_at (wcontents ws (hf_path f)) (unat off) (unat (wr_buffer_size r) mod 2 ^ 32)"
  have dl: "length d \<le> length b" using b(2) by (simp add: d_def)
  obtain ws' where rd: "winreader_read_once r off ws =
           Some (Inr \<lparr>sv_ptr = wr_buffer r, sv_len = length d\<rparr>,
                 r\<lparr>wr_ov := (ov_split off (wr_ov r))\<lparr>ov_Internal := 0, ov_InternalHigh := length d\<rparr>\<rparr>, ws')"
    and h: "ws_heap ws' = (ws_heap ws)(wr_buffer r \<mapsto> d @ drop (length d) (the (ws_heap ws (wr_buffer r))))"
    and rest: "ws_files ws' = ws_files ws"
      "winreader_ok (r\<lparr>wr_ov := (ov_split off (wr_ov r))\<lparr>ov_Internal := 0, ov_InternalHigh := length d\<rparr>\<rparr>) ws'"
    using winreader_read_file [OF assms d_def] by blast
  have "wsv_bytes ws' \<lparr>sv_ptr = wr_buffer r, sv_len = length d\<rparr> = Some d"
    using h b dl by (simp add: wsv_bytes_def)
  then show ?thesis using rd rest by (auto simp: d_def)
qed

text \<open>C20. A read of a usable Windows reader at an offset at or past the end of the file fails: \<open>waitAndGetResult\<close> throws \<open>GetOverlappedResult failed.\<close> with last error \<open>ERROR_HANDLE_EOF\<close>, where the spec (and the Linux backend) return a zero-length result.\<close>

theorem winreader_read_at_eof_fails:
  assumes "winreader_ok r ws" "wfile_of ws (wr_hFile r) = Some f"
    and "length (wcontents ws (hf_path f)) \<le> unat off" "0 < unat (wr_buffer_size r) mod 2 ^ 32"
  shows "\<exists>r' ws'. winreader_read_once r off ws = Some (Inl Win_OverlappedFailed, r', ws') \<and>
           GetLastError ws' = ERROR_HANDLE_EOF \<and> winreader_ok r' ws'"
proof -
  obtain f' b e where b: "ws_heap ws (wr_buffer r) = Some b" "length b = unat (wr_buffer_size r)"
    using assms(1) by (rule winreader_okD)
  have "w_exec (OpRead (wr_hFile r) (wr_buffer r) (ucast (wr_buffer_size r))
           (ov_Offset (ov_split off (wr_ov r))) (ov_OffsetHigh (ov_split off (wr_ov r)))) ws =
        ((ERROR_HANDLE_EOF, 0), ws)"
    using assms(2-4) by (simp add: ov_split_pos unat_ucast_32 Let_def)
  from winreader_cycle [OF assms(1) this] winreader_ok_after [OF assms(1) b(1) b(2), where off = off and n = 0 and st = ERROR_HANDLE_EOF]
  show ?thesis
    by (simp add: GetLastError_def io_done_def set_event_upd [symmetric])
qed

text \<open>Constructing a Windows reader on a refused path throws the open failure; nothing is acquired (only the last error changes).\<close>

lemma winreader_ctor_open_failure:
  assumes "p \<in> ws_denied ws"
  shows "winreader_ctor p bsz ws = (Inl Win_ReaderOpenFailed, ws\<lparr>ws_last_error := ERROR_ACCESS_DENIED\<rparr>)"
  using assms by (simp add: winreader_ctor_def CreateFile_refused)

text \<open>C28. When \<open>new char[buffer_size]\<close> throws \<open>std::bad_alloc\<close>, the Windows reader constructor propagates it with the file handle still open: one more open handle.\<close>

theorem winreader_ctor_badalloc:
  assumes "p \<notin> ws_denied ws" "\<not> share_conflict p GENERIC_READ FILE_SHARE_READ ws" "ws_files ws p = Some c"
    and "ws_heap_quota ws < unat bsz"
  shows "\<exists>ws'. winreader_ctor p bsz ws = (Inl Win_BadAlloc, ws') \<and> n_handles ws' = Suc (n_handles ws)"
proof -
  obtain h ws1 where a: "alloc_handle (HFile \<lparr>hf_path = p, hf_access = GENERIC_READ, hf_share = FILE_SHARE_READ\<rparr>) ws = (h, ws1)"
    and c: "winreader_ctor p bsz ws =
       (case new_array (unat bsz) ws1 of
          None \<Rightarrow> (Inl Win_BadAlloc, ws1)
        | Some (buf, ws2) \<Rightarrow>
            let (ev, ws3) = CreateEvent ws2
            in if ev = 0 then (Inl Win_ReaderEventFailed, snd (CloseHandle h ws3))
            else (Inr \<lparr>wr_hFile = h, wr_buffer = buf, wr_buffer_size = bsz, wr_ov = ov_zero\<lparr>ov_hEvent := ev\<rparr>\<rparr>, ws3))"
    using winreader_ctor_opened [OF assms(1-3)] by blast
  note A = alloc_handle_facts [OF a]
  have "new_array (unat bsz) ws1 = None" using new_array_fails assms(4) A(6) by simp
  then show ?thesis using c A(6) by (simp add: n_handles_def)
qed

text \<open>C27. When \<open>CreateEvent\<close> fails, the Windows reader constructor closes the file handle but does not delete the buffer it has allocated: the handles are as before, and the heap quota stays reduced by the buffer size.\<close>

theorem winreader_ctor_event_failure:
  assumes "p \<notin> ws_denied ws" "\<not> share_conflict p GENERIC_READ FILE_SHARE_READ ws" "ws_files ws p = Some c"
    and "unat bsz \<le> ws_heap_quota ws" "ws_event_quota ws = 0"
  shows "\<exists>ws'. winreader_ctor p bsz ws = (Inl Win_ReaderEventFailed, ws') \<and>
           ws_handles ws' = ws_handles ws \<and> ws_heap_quota ws' = ws_heap_quota ws - unat bsz \<and>
           ws_heap ws' (ws_next_addr ws) = Some (replicate (unat bsz) (ws_junk ws))"
proof -
  let ?F = "HFile \<lparr>hf_path = p, hf_access = GENERIC_READ, hf_share = FILE_SHARE_READ\<rparr>"
  obtain h ws1 where a: "alloc_handle ?F ws = (h, ws1)"
    and c: "winreader_ctor p bsz ws =
       (case new_array (unat bsz) ws1 of
          None \<Rightarrow> (Inl Win_BadAlloc, ws1)
        | Some (buf, ws2) \<Rightarrow>
            let (ev, ws3) = CreateEvent ws2
            in if ev = 0 then (Inl Win_ReaderEventFailed, snd (CloseHandle h ws3))
            else (Inr \<lparr>wr_hFile = h, wr_buffer = buf, wr_buffer_size = bsz, wr_ov = ov_zero\<lparr>ov_hEvent := ev\<rparr>\<rparr>, ws3))"
    using winreader_ctor_opened [OF assms(1-3)] by blast
  note A = alloc_handle_facts [OF a]
  define ws2 where "ws2 = ws1\<lparr>ws_heap := (ws_heap ws1)(ws_next_addr ws1 \<mapsto> replicate (unat bsz) (ws_junk ws1)),
        ws_next_addr := Suc (ws_next_addr ws1), ws_heap_quota := ws_heap_quota ws1 - unat bsz\<rparr>"
  have n: "new_array (unat bsz) ws1 = Some (ws_next_addr ws, ws2)"
    using new_array_ok [of "unat bsz" ws1] A(6) assms(4) by (simp add: ws2_def)
  have e: "CreateEvent ws2 = (0, ws2\<lparr>ws_last_error := ERROR_NOT_ENOUGH_MEMORY\<rparr>)"
    using CreateEvent_fails assms(5) A(6) by (simp add: ws2_def)
  have "h \<notin> fst ` set (ws_handles ws)" using A(2) by (simp add: handle_obj_None_iff)
  then have "CloseHandle h (ws2\<lparr>ws_last_error := ERROR_NOT_ENOUGH_MEMORY\<rparr>) =
               (True, ws2\<lparr>ws_last_error := ERROR_NOT_ENOUGH_MEMORY, ws_handles := ws_handles ws\<rparr>)"
    using CloseHandle_cons [of "ws2\<lparr>ws_last_error := ERROR_NOT_ENOUGH_MEMORY\<rparr>" h ?F "ws_handles ws"] A(6)
    by (simp add: ws2_def)
  then show ?thesis using c n e A(6) by (simp add: ws2_def)
qed

text \<open>C29. A successfully constructed Windows reader's buffer holds whatever the allocator left there: \<open>new char[n]\<close> does not initialise it, where the spec requires a zero-initialised buffer.\<close>

theorem winreader_buffer_not_zeroed:
  assumes "p \<notin> ws_denied ws" "\<not> share_conflict p GENERIC_READ FILE_SHARE_READ ws" "ws_files ws p = Some c"
    and "unat bsz \<le> ws_heap_quota ws" "0 < ws_event_quota ws" "0 < ws_next_addr ws"
  shows "\<exists>r ws'. winreader_ctor p bsz ws = (Inr r, ws') \<and> winreader_ok r ws' \<and>
           ws_heap ws' (wr_buffer r) = Some (replicate (unat bsz) (ws_junk ws))"
  using winreader_ctor_ok [OF assms] by blast

text \<open>Unlike the Linux backend, the Windows move constructor disarms the source completely: destroying the moved-from reader changes nothing, and the new reader is the old one.\<close>

lemma winreader_move_source_dtor:
  "fst (winreader_move r) = r \<and> winreader_dtor (snd (winreader_move r)) ws = ws"
  by (simp add: winreader_move_def winreader_dtor_def winreader_cleanup_def delete_array_def)

text \<open>C38. On a freshly constructed Windows reader, \<open>waitAndGetResult\<close> without a prior \<open>readAsync\<close> returns at once an empty view (the zero-initialised \<open>OVERLAPPED\<close> reads as a completed transfer of 0 bytes), where the Linux backend waits for ever.\<close>

theorem winreader_fresh_wait_empty:
  assumes "winreader_ctor p bsz ws = (Inr r, ws1)"
  shows "winreader_waitAndGetResult r ws1 = Some (Inr \<lparr>sv_ptr = wr_buffer r, sv_len = 0\<rparr>, r, ws1)"
proof -
  have "ov_Internal (wr_ov r) = 0 \<and> ov_InternalHigh (wr_ov r) = 0"
    using assms by (auto simp: winreader_ctor_def ov_zero_def Let_def split: prod.splits if_splits option.splits)
  then show ?thesis by (simp add: winreader_waitAndGetResult_def GetOverlappedResult_def)
qed

text \<open>C32. A successful Windows reader construction followed by its destruction gives back every handle, the event slot and the heap quota, logs no fault, and leaves the files and the rest of memory as they were.\<close>

theorem winreader_lifecycle_balance:
  assumes "winreader_ctor p bsz ws = (Inr r, ws1)"
    and "p \<notin> ws_denied ws" "\<not> share_conflict p GENERIC_READ FILE_SHARE_READ ws" "ws_files ws p = Some c"
    and "unat bsz \<le> ws_heap_quota ws" "0 < ws_event_quota ws" "0 < ws_next_addr ws"
  shows "ws_handles (winreader_dtor r ws1) = ws_handles ws \<and>
         ws_event_quota (winreader_dtor r ws1) = ws_event_quota ws \<and>
         ws_heap_quota (winreader_dtor r ws1) = ws_heap_quota ws \<and>
         ws_faults (winreader_dtor r ws1) = ws_faults ws \<and> ws_files (winreader_dtor r ws1) = ws_files ws \<and>
         (\<forall>a. a \<noteq> wr_buffer r \<longrightarrow> ws_heap (winreader_dtor r ws1) a = ws_heap ws a)"
proof -
  let ?F = "HFile \<lparr>hf_path = p, hf_access = GENERIC_READ, hf_share = FILE_SHARE_READ\<rparr>"
  obtain r' ws' where c: "winreader_ctor p bsz ws = (Inr r', ws')" and ok: "winreader_ok r' ws'"
    and buf: "wr_buffer r' = ws_next_addr ws" "ws_heap ws' (wr_buffer r') = Some (replicate (unat bsz) (ws_junk ws))"
    and hs: "ws_handles ws' = (ov_hEvent (wr_ov r'), HEvent False) # (wr_hFile r', ?F) # ws_handles ws"
    and fresh: "handle_obj ws (wr_hFile r') = None" "handle_obj ws (ov_hEvent (wr_ov r')) = None"
      "ov_hEvent (wr_ov r') \<noteq> wr_hFile r'" "4 \<le> wr_hFile r'" "4 \<le> ov_hEvent (wr_ov r')"
    and q: "ws_files ws' = ws_files ws" "ws_faults ws' = ws_faults ws"
      "ws_heap_quota ws' = ws_heap_quota ws - unat bsz" "ws_event_quota ws' = ws_event_quota ws - 1"
    and other: "\<forall>a. a \<noteq> wr_buffer r' \<longrightarrow> ws_heap ws' a = ws_heap ws a"
    using winreader_ctor_ok [OF assms(2-7)] by blast
  have r: "r' = r" "ws' = ws1" using c assms(1) by simp_all
  define ev where "ev = ov_hEvent (wr_ov r)"
  define h where "h = wr_hFile r"
  have ev_notin: "ev \<notin> fst ` set ((h, ?F) # ws_handles ws)"
    using fresh r by (auto simp: ev_def h_def handle_obj_None_iff)
  have h_notin: "h \<notin> fst ` set (ws_handles ws)"
    using fresh r by (simp add: h_def handle_obj_None_iff)
  have ev0: "ev \<noteq> 0" and hI: "h \<noteq> INVALID_HANDLE_VALUE"
    using fresh(4,5) r by (simp_all add: ev_def h_def)
  have b0: "wr_buffer r \<noteq> 0" using ok r by (simp add: winreader_ok_def)
  define ws2 where "ws2 = ws1\<lparr>ws_handles := (h, ?F) # ws_handles ws, ws_event_quota := Suc (ws_event_quota ws1)\<rparr>"
  have c1: "CloseHandle ev ws1 = (True, ws2)"
    using CloseHandle_cons [OF _ ev_notin, of ws1 "HEvent False"] hs r by (simp add: ws2_def ev_def h_def)
  define ws3 where "ws3 = ws2\<lparr>ws_heap := (ws_heap ws2)(wr_buffer r := None),
                              ws_heap_quota := ws_heap_quota ws2 + unat bsz\<rparr>"
  have d: "delete_array (wr_buffer r) ws2 = ws3"
    using delete_array_live [OF b0, of ws2 "replicate (unat bsz) (ws_junk ws)"] buf r by (simp add: ws2_def ws3_def)
  have c2: "CloseHandle h ws3 = (True, ws3\<lparr>ws_handles := ws_handles ws\<rparr>)"
    using CloseHandle_cons [OF _ h_notin, of ws3 ?F] by (simp add: ws3_def ws2_def)
  have "winreader_dtor r ws1 = ws3\<lparr>ws_handles := ws_handles ws\<rparr>"
    using c1 d c2 ev0 hI by (simp add: winreader_dtor_def winreader_cleanup_def ev_def h_def)
  then show ?thesis
    using q other r assms(5,6) by (simp add: ws3_def ws2_def)
qed

end
