(* ===== verification/Writer_Win32.thy ===== *)
theory Writer_Win32
  imports Reader_Win32
begin

text \<open>
  The Windows \<open>AsyncFileWriter\<close> (the \<open>_WIN32\<close> halves of
  \<open>src/include/AsyncFile/AsyncFileWriter.hpp\<close> and \<open>src/src/AsyncFileWriter.cpp\<close>)
  over the state of \<open>Win32_Kernel\<close>, as the Windows reader is modelled. The file is
  opened with \<open>GENERIC_WRITE\<close>, no sharing, and \<open>OPEN_ALWAYS\<close> when appending or
  \<open>CREATE_ALWAYS\<close> otherwise; no append mode is requested from the kernel. The theory
  imports the Windows reader for the property that relates the two classes.
\<close>

unbundle bit_operations_syntax

record winwriter =
  ww_hFile :: int
  ww_buffer :: addr
  ww_buffer_size :: "64 word"
  ww_ov :: overlapped

section \<open>Member functions\<close>

definition winwriter_ctor :: "path \<Rightarrow> bool \<Rightarrow> wstate \<Rightarrow> (exn + winwriter) \<times> wstate" where
  "winwriter_ctor p app ws =
     (let (h, ws1) = CreateFile p GENERIC_WRITE 0 (if app then OPEN_ALWAYS else CREATE_ALWAYS) ws
      in if h = INVALID_HANDLE_VALUE then (Inl Win_WriterOpenFailed, ws1)
      else let (ev, ws2) = CreateEvent ws1
      in if ev = 0 then (Inl Win_WriterEventFailed, snd (CloseHandle h ws2))
      else (Inr \<lparr>ww_hFile = h, ww_buffer = 0, ww_buffer_size = 0, ww_ov = ov_zero\<lparr>ov_hEvent := ev\<rparr>\<rparr>, ws2))"

definition winwriter_cleanup :: "winwriter \<Rightarrow> wstate \<Rightarrow> wstate" where
  "winwriter_cleanup w ws =
     (let ws1 = (if ov_hEvent (ww_ov w) \<noteq> 0 then snd (CloseHandle (ov_hEvent (ww_ov w)) ws) else ws)
      in if ww_hFile w \<noteq> INVALID_HANDLE_VALUE then snd (CloseHandle (ww_hFile w) ws1) else ws1)"

definition winwriter_dtor :: "winwriter \<Rightarrow> wstate \<Rightarrow> wstate" where
  "winwriter_dtor w ws = winwriter_cleanup w ws"

definition winwriter_move :: "winwriter \<Rightarrow> winwriter \<times> winwriter" where
  "winwriter_move other =
     (\<lparr>ww_hFile = ww_hFile other, ww_buffer = ww_buffer other,
       ww_buffer_size = ww_buffer_size other, ww_ov = ww_ov other\<rparr>,
      other\<lparr>ww_hFile := INVALID_HANDLE_VALUE, ww_buffer := 0,
            ww_ov := (ww_ov other)\<lparr>ov_hEvent := 0\<rparr>\<rparr>)"

definition winwriter_move_assign ::
  "'o \<Rightarrow> 'o \<Rightarrow> ('o \<rightharpoonup> winwriter) \<Rightarrow> wstate \<Rightarrow> ('o \<rightharpoonup> winwriter) \<times> wstate" where
  "winwriter_move_assign this other objs ws =
     (if this = other then (objs, ws)
      else case (objs this, objs other) of
        (Some t, Some s) \<Rightarrow>
          (let ws1 = winwriter_cleanup t ws;
               t' = t\<lparr>ww_hFile := ww_hFile s, ww_buffer := ww_buffer s,
                      ww_buffer_size := ww_buffer_size s, ww_ov := ww_ov s\<rparr>;
               s' = s\<lparr>ww_hFile := INVALID_HANDLE_VALUE, ww_buffer := 0,
                      ww_ov := (ww_ov s)\<lparr>ov_hEvent := 0\<rparr>\<rparr>
           in (objs(this \<mapsto> t', other \<mapsto> s'), ws1))
      | _ \<Rightarrow> (objs, ws))"

text \<open>
  \<open>writeAsync(data, buffer_size, offset)\<close>: the size reaches \<open>WriteFile\<close>'s \<open>DWORD\<close>
  parameter by the implicit conversion of \<open>size_t\<close>, which keeps its low 32 bits.
\<close>

definition winwriter_writeAsync ::
  "winwriter \<Rightarrow> addr \<Rightarrow> 64 word \<Rightarrow> 64 word \<Rightarrow> wstate \<Rightarrow> (exn + unit) \<times> winwriter \<times> wstate" where
  "winwriter_writeAsync w data bsize off ws =
     (let w1 = w\<lparr>ww_buffer := data, ww_buffer_size := bsize, ww_ov := ov_split off (ww_ov w)\<rparr>;
          ws1 = snd (ResetEvent (ov_hEvent (ww_ov w1)) ws);
          (ok, ov2, ws2) = WriteFile (ww_hFile w1) (ww_buffer w1) (ucast (ww_buffer_size w1)) (ww_ov w1) ws1
      in if \<not> ok \<and> GetLastError ws2 \<noteq> ERROR_IO_PENDING
         then (Inl Win_WriteFileFailed, w1\<lparr>ww_ov := ov2\<rparr>, ws2)
         else (Inr (), w1\<lparr>ww_ov := ov2\<rparr>, ws2))"

definition winwriter_wait :: "winwriter \<Rightarrow> wstate \<Rightarrow> ((exn + unit) \<times> winwriter \<times> wstate) option" where
  "winwriter_wait w ws =
     (case GetOverlappedResult (ww_hFile w) (ww_ov w) ws of
        None \<Rightarrow> None
      | Some ((ok, n), ov', ws') \<Rightarrow>
          if \<not> ok then Some (Inl Win_OverlappedFailed, w\<lparr>ww_ov := ov'\<rparr>, ws')
          else Some (Inr (), w\<lparr>ww_ov := ov'\<rparr>, ws'))"

definition winwriter_write_once ::
  "winwriter \<Rightarrow> addr \<Rightarrow> 64 word \<Rightarrow> 64 word \<Rightarrow> wstate \<Rightarrow> ((exn + unit) \<times> winwriter \<times> wstate) option" where
  "winwriter_write_once w data bsize off ws =
     (case winwriter_writeAsync w data bsize off ws of
        (Inl e, w1, ws1) \<Rightarrow> Some (Inl e, w1, ws1)
      | (Inr _, w1, ws1) \<Rightarrow> winwriter_wait w1 ws1)"

section \<open>Invariant\<close>

definition winwriter_ok :: "winwriter \<Rightarrow> wstate \<Rightarrow> bool" where
  "winwriter_ok w ws \<longleftrightarrow>
     (case wfile_of ws (ww_hFile w) of None \<Rightarrow> False | Some f \<Rightarrow> hf_access f AND GENERIC_WRITE \<noteq> 0) \<and>
     (case handle_obj ws (ov_hEvent (ww_ov w)) of Some (HEvent _) \<Rightarrow> True | _ \<Rightarrow> False) \<and>
     map_of (ws_pending ws) (ov_hEvent (ww_ov w)) = None \<and>
     ov_Internal (ww_ov w) \<noteq> STATUS_PENDING"

section \<open>Lemmas\<close>

lemma winwriter_okD:
  assumes "winwriter_ok w ws"
  obtains f e where "wfile_of ws (ww_hFile w) = Some f" "hf_access f AND GENERIC_WRITE \<noteq> 0"
    "handle_obj ws (ov_hEvent (ww_ov w)) = Some (HEvent e)"
    "map_of (ws_pending ws) (ov_hEvent (ww_ov w)) = None" "ov_Internal (ww_ov w) \<noteq> STATUS_PENDING"
  using assms by (auto simp: winwriter_ok_def split: option.splits hobj.splits)

lemma winwriter_ok_buffer [simp]:
  "winwriter_ok (w\<lparr>ww_buffer := a, ww_buffer_size := n\<rparr>) ws = winwriter_ok w ws"
  by (simp add: winwriter_ok_def)

text \<open>The end-of-file marker is only reached by the offset -1.\<close>

lemma ov_split_end:
  assumes "ov_Offset (ov_split off ov) = 4294967295" "ov_OffsetHigh (ov_split off ov) = 4294967295"
  shows "off = - 1"
proof -
  have "unat off = 18446744073709551615" using ov_split_pos [of off ov] assms by (simp add: ov_pos_def)
  also have "\<dots> = unat (- 1 :: 64 word)" by (simp add: unsigned_minus_1_eq_mask mask_eq_exp_minus_1)
  finally show ?thesis by (simp add: unsigned_word_eqI)
qed

subsection \<open>One request\<close>

lemma winwriter_cycle:
  assumes "winwriter_ok w ws"
    and "w_exec (OpWrite (ww_hFile w) data (ucast bsize)
           (ov_Offset (ov_split off (ww_ov w))) (ov_OffsetHigh (ov_split off (ww_ov w)))) ws = ((st, n), wsx)"
  shows "winwriter_write_once w data bsize off ws =
           Some (if st = 0 then Inr () else Inl Win_OverlappedFailed,
                 w\<lparr>ww_buffer := data, ww_buffer_size := bsize,
                   ww_ov := (ov_split off (ww_ov w))\<lparr>ov_Internal := st, ov_InternalHigh := n\<rparr>\<rparr>,
                 io_done (ov_hEvent (ww_ov w)) st ws wsx)"
proof -
  obtain f e where f: "wfile_of ws (ww_hFile w) = Some f" "hf_access f AND GENERIC_WRITE \<noteq> 0"
    and ev: "handle_obj ws (ov_hEvent (ww_ov w)) = Some (HEvent e)"
    and p: "map_of (ws_pending ws) (ov_hEvent (ww_ov w)) = None"
    using assms(1) by (rule winwriter_okD)
  have "ResetEvent (ov_hEvent (ww_ov w)) ws = (True, set_event (ov_hEvent (ww_ov w)) False ws)"
    using ev by (simp add: ResetEvent_def)
  moreover have "map_of (ws_pending ws) (ov_hEvent (ov_split off (ww_ov w))) = None" using p by simp
  note oc = overlapped_cycle [OF this assms(2), of "ww_hFile w"]
  ultimately show ?thesis
    using f oc
    by (simp add: winwriter_write_once_def winwriter_writeAsync_def winwriter_wait_def WriteFile_def
                  start_io_def GetLastError_def Let_def)
qed

lemma winwriter_ok_after:
  assumes "winwriter_ok w ws" "st \<noteq> STATUS_PENDING"
  shows "winwriter_ok (w\<lparr>ww_buffer := data, ww_buffer_size := bsize,
                         ww_ov := (ov_split off (ww_ov w))\<lparr>ov_Internal := st, ov_InternalHigh := n\<rparr>\<rparr>)
                      (io_done (ov_hEvent (ww_ov w)) st ws wsx)"
proof -
  obtain f e where "wfile_of ws (ww_hFile w) = Some f" "hf_access f AND GENERIC_WRITE \<noteq> 0"
    "handle_obj ws (ov_hEvent (ww_ov w)) = Some (HEvent e)" "map_of (ws_pending ws) (ov_hEvent (ww_ov w)) = None"
    using assms(1) by (rule winwriter_okD)
  then show ?thesis
    using assms(2) io_done_event [of ws "ov_hEvent (ww_ov w)" e st wsx] by (simp add: winwriter_ok_def)
qed

text \<open>A write of a non-empty count at an offset other than -1 within the size limit.\<close>

lemma winwriter_write_file:
  assumes "winwriter_ok w ws" "wfile_of ws (ww_hFile w) = Some f" "off \<noteq> - 1"
    and "ws_heap ws data = Some b" "0 < unat bsize mod 2 ^ 32" "unat bsize mod 2 ^ 32 \<le> length b"
    and "unat off + unat bsize mod 2 ^ 32 \<le> ws_fsize_limit ws"
  shows "\<exists>w' ws'. winwriter_write_once w data bsize off ws = Some (Inr (), w', ws') \<and> winwriter_ok w' ws' \<and>
           ws_files ws' = (ws_files ws)(hf_path f \<mapsto>
              write_at (wcontents ws (hf_path f)) (unat off) (take (unat bsize mod 2 ^ 32) b)) \<and>
           ws_heap ws' = ws_heap ws"
proof -
  have ne: "(ov_Offset (ov_split off (ww_ov w)) = 4294967295 \<and> ov_OffsetHigh (ov_split off (ww_ov w)) = 4294967295) = False"
    using ov_split_end assms(3) by blast
  define wsx where "wsx = ws\<lparr>ws_files := (ws_files ws)(hf_path f \<mapsto>
              write_at (wcontents ws (hf_path f)) (unat off) (take (unat bsize mod 2 ^ 32) b))\<rparr>"
  have "w_exec (OpWrite (ww_hFile w) data (ucast bsize)
           (ov_Offset (ov_split off (ww_ov w))) (ov_OffsetHigh (ov_split off (ww_ov w)))) ws =
        ((0, unat bsize mod 2 ^ 32), wsx)"
    using assms(2,4-7) by (simp add: ne ov_split_pos unat_ucast_32 wsx_def Let_def)
  from winwriter_cycle [OF assms(1) this] winwriter_ok_after [OF assms(1), of 0]
  show ?thesis by (auto simp: wsx_def)
qed

subsection \<open>Construction\<close>

lemma winwriter_ctor_ok:
  assumes "p \<notin> ws_denied ws" "\<not> share_conflict p GENERIC_WRITE 0 ws" "0 < ws_event_quota ws"
  shows "\<exists>w ws'. winwriter_ctor p app ws = (Inr w, ws') \<and> winwriter_ok w ws' \<and>
            wfile_of ws' (ww_hFile w) = Some \<lparr>hf_path = p, hf_access = GENERIC_WRITE, hf_share = 0\<rparr> \<and>
            (ww_hFile w, HFile \<lparr>hf_path = p, hf_access = GENERIC_WRITE, hf_share = 0\<rparr>) \<in> set (ws_handles ws') \<and>
            ws_files ws' = (ws_files ws)(p \<mapsto> (if app then wcontents ws p else [])) \<and>
            ws_heap ws' = ws_heap ws \<and> ws_fsize_limit ws' = ws_fsize_limit ws \<and> ws_denied ws' = ws_denied ws \<and>
            ws_pending ws' = ws_pending ws \<and> ws_event_quota ws' = ws_event_quota ws - 1"
proof -
  let ?F = "HFile \<lparr>hf_path = p, hf_access = GENERIC_WRITE, hf_share = 0\<rparr>"
  let ?d = "if app then OPEN_ALWAYS else CREATE_ALWAYS"
  have d: "?d = CREATE_ALWAYS \<or> ?d = OPEN_ALWAYS" by simp
  obtain e where cf: "CreateFile p GENERIC_WRITE 0 ?d ws =
           alloc_handle ?F (ws\<lparr>ws_files := (ws_files ws)(p \<mapsto> (if ?d = CREATE_ALWAYS then [] else wcontents ws p)),
                              ws_last_error := e\<rparr>)"
    using CreateFile_create [OF assms(1,2) d] by blast
  obtain h ws1 where a: "alloc_handle ?F (ws\<lparr>ws_files := (ws_files ws)(p \<mapsto> (if ?d = CREATE_ALWAYS then [] else wcontents ws p)),
                              ws_last_error := e\<rparr>) = (h, ws1)" by fastforce
  note A = alloc_handle_facts [OF a]
  obtain ev ws2 where b: "alloc_handle (HEvent False) (ws1\<lparr>ws_event_quota := ws_event_quota ws1 - 1\<rparr>) = (ev, ws2)"
    by fastforce
  note E = alloc_handle_facts [OF b]
  have ce: "CreateEvent ws1 = (ev, ws2)" using CreateEvent_ok [of ws1] b assms(3) A(6) by simp
  have "handle_obj ws1 ev = None" using E(2) by simp
  then have evh: "ev \<noteq> h" using A(4) by auto
  define w where "w = \<lparr>ww_hFile = h, ww_buffer = 0, ww_buffer_size = 0, ww_ov = ov_zero\<lparr>ov_hEvent := ev\<rparr>\<rparr>"
  have res: "winwriter_ctor p app ws = (Inr w, ws2)"
    using cf a ce A(1) E(1) by (simp add: winwriter_ctor_def w_def)
  have fo: "wfile_of ws2 h = Some \<lparr>hf_path = p, hf_access = GENERIC_WRITE, hf_share = 0\<rparr>"
    using E(5) [OF evh [symmetric]] A(4) by (simp add: wfile_of_def)
  have "winwriter_ok w ws2"
    using fo E(3,4,6) A(6) by (simp add: winwriter_ok_def w_def ov_zero_def)
  then show ?thesis
    using res fo A(6) E(6) by (auto simp: w_def)
qed

section \<open>Properties\<close>

text \<open>C5. A write of n bytes (0 < n < 2 to the 32, the block holding n bytes) at any 64-bit offset other than -1, within the size limit, on a usable Windows writer succeeds, puts exactly those bytes at the offset, leaves memory alone and the writer usable.\<close>

theorem winwriter_write_full:
  assumes "winwriter_ok w ws" "wfile_of ws (ww_hFile w) = Some f" "off \<noteq> - 1"
    and "ws_heap ws data = Some b" "0 < unat n" "unat n < 2 ^ 32" "unat n \<le> length b"
    and "unat off + unat n \<le> ws_fsize_limit ws"
  shows "\<exists>w' ws'. winwriter_write_once w data n off ws = Some (Inr (), w', ws') \<and> winwriter_ok w' ws' \<and>
           wcontents ws' (hf_path f) = write_at (wcontents ws (hf_path f)) (unat off) (take (unat n) b)"
proof -
  have m: "unat n mod 2 ^ 32 = unat n" using assms(6) by simp
  obtain w' ws' where "winwriter_write_once w data n off ws = Some (Inr (), w', ws')" "winwriter_ok w' ws'"
    "ws_files ws' = (ws_files ws)(hf_path f \<mapsto>
        write_at (wcontents ws (hf_path f)) (unat off) (take (unat n mod 2 ^ 32) b))"
    using winwriter_write_file [OF assms(1-4), of n] assms(5-8) m by auto
  then show ?thesis using m by (auto simp: wcontents_def)
qed

text \<open>C13. A Windows writer constructed with \<open>append = true\<close> does not append: the file is opened with \<open>OPEN_ALWAYS\<close> and a write at the default offset 0 overwrites its beginning, so the file holds the new bytes followed by what is left of the old contents, where the spec (and the Linux backend) give the old contents followed by the new bytes.\<close>

theorem winwriter_append_overwrites:
  assumes "winwriter_ctor p True ws = (Inr w, ws1)"
    and "p \<notin> ws_denied ws" "\<not> share_conflict p GENERIC_WRITE 0 ws" "0 < ws_event_quota ws"
    and "ws_heap ws data = Some b" "0 < unat n" "unat n < 2 ^ 32" "unat n \<le> length b"
    and "unat n \<le> ws_fsize_limit ws"
  shows "\<exists>w' ws'. winwriter_write_once w data n 0 ws1 = Some (Inr (), w', ws') \<and>
           wcontents ws' p = take (unat n) b @ drop (unat n) (wcontents ws p)"
proof -
  obtain w' ws' where c: "winwriter_ctor p True ws = (Inr w', ws')" and ok: "winwriter_ok w' ws'"
    and f: "wfile_of ws' (ww_hFile w') = Some \<lparr>hf_path = p, hf_access = GENERIC_WRITE, hf_share = 0\<rparr>"
    and fs: "ws_files ws' = (ws_files ws)(p \<mapsto> wcontents ws p)" and h: "ws_heap ws' = ws_heap ws"
    and lim: "ws_fsize_limit ws' = ws_fsize_limit ws"
    using winwriter_ctor_ok [OF assms(2-4), of True] by auto
  have r: "w' = w" "ws' = ws1" using c assms(1) by simp_all
  have "wcontents ws1 p = wcontents ws p" using fs r by (simp add: wcontents_def)
  moreover have "take (unat n) b \<noteq> []" using assms(6,8) by (cases b) auto
  then have "write_at c 0 (take (unat n) b) = take (unat n) b @ drop (unat n) c" for c
    using assms(8) by (simp add: write_at_def)
  moreover have m: "unat n mod 2 ^ 32 = unat n" using assms(7) by simp
  ultimately show ?thesis
    using winwriter_write_file [OF ok f, of 0 data b n] assms(5-9) h lim r by (simp add: wcontents_def) (metis fun_upd_same option.simps(5))
qed

text \<open>Constructing a Windows writer on a path that may be opened succeeds with a usable writer; the file exists afterwards, empty (\<open>CREATE_ALWAYS\<close>) unless \<open>append\<close> is set, in which case its contents are kept (\<open>OPEN_ALWAYS\<close>).\<close>

theorem winwriter_ctor_contents:
  assumes "p \<notin> ws_denied ws" "\<not> share_conflict p GENERIC_WRITE 0 ws" "0 < ws_event_quota ws"
  shows "\<exists>w ws'. winwriter_ctor p app ws = (Inr w, ws') \<and> winwriter_ok w ws' \<and>
            ws_files ws' p = Some (if app then wcontents ws p else []) \<and>
            (\<forall>q. q \<noteq> p \<longrightarrow> ws_files ws' q = ws_files ws q)"
  using winwriter_ctor_ok [OF assms, of app] by fastforce

text \<open>C36. While a Windows writer is open on a file, constructing a Windows reader on the same file fails: the writer opened it without sharing, so \<open>CreateFile\<close> refuses the reader with \<open>ERROR_SHARING_VIOLATION\<close> and the reader throws its open failure.\<close>

theorem winwriter_excludes_reader:
  assumes "winwriter_ctor p app ws = (Inr w, ws1)"
    and "p \<notin> ws_denied ws" "\<not> share_conflict p GENERIC_WRITE 0 ws" "0 < ws_event_quota ws"
  shows "winreader_ctor p bsz ws1 = (Inl Win_ReaderOpenFailed, ws1\<lparr>ws_last_error := ERROR_SHARING_VIOLATION\<rparr>)"
proof -
  obtain w' ws' where c: "winwriter_ctor p app ws = (Inr w', ws')"
    and mem: "(ww_hFile w', HFile \<lparr>hf_path = p, hf_access = GENERIC_WRITE, hf_share = 0\<rparr>) \<in> set (ws_handles ws')"
    and den: "ws_denied ws' = ws_denied ws"
    using winwriter_ctor_ok [OF assms(2-4), of app] by blast
  have r: "ws' = ws1" using c assms(1) by simp
  have "share_conflict p GENERIC_READ FILE_SHARE_READ ws1"
    using share_conflict_exclusive [OF mem] r by simp
  then show ?thesis using den r assms(2) by (simp add: winreader_ctor_def CreateFile_def)
qed

end
