(* ===== verification/Refine_Win32.thy ===== *)
theory Refine_Win32
  imports Writer_Win32 Op_Spec
begin

text \<open>
  The Windows reader of \<open>Reader_Win32\<close> against the read contract of \<open>Op_Spec\<close>, and
  the Windows writer of \<open>Writer_Win32\<close> against the write contract, in the same way as
  \<open>Refine_Linux\<close>: the abstraction reads the phase off the object's \<open>OVERLAPPED\<close>.
  The reader meets the contract only on reads that start before the end of the file.
\<close>

section \<open>The Windows reader against the read contract\<close>

text \<open>
  The abstraction of a Windows reader to the phase of the contract: its
  \<open>OVERLAPPED\<close> is pending exactly while an operation is submitted, at the offset its
  two 32-bit words recombine to.
\<close>

definition winreader_phase :: "winreader \<Rightarrow> op_phase" where
  "winreader_phase r =
     (if ov_Internal (wr_ov r) = STATUS_PENDING
      then Submitted (sint (of_nat (ov_pos (ov_Offset (wr_ov r)) (ov_OffsetHigh (wr_ov r))) :: 64 word))
      else Idle)"

text \<open>
  The events a caller of one Windows reader observes, keeping the contract: it submits
  only when nothing is pending and waits only for a submitted operation (a wait with
  nothing submitted returns at once, see \<open>winreader_fresh_wait_empty\<close>).
\<close>

inductive winreader_step :: "winreader \<times> wstate \<Rightarrow> read_event \<Rightarrow> winreader \<times> wstate \<Rightarrow> bool" where
  wrstep_submit: "winreader_phase r = Idle \<Longrightarrow> winreader_readAsync r off ws = (Inr (), r', ws') \<Longrightarrow>
                    winreader_step (r, ws) (RdSubmit (sint off)) (r', ws')"
| wrstep_submit_failed: "winreader_phase r = Idle \<Longrightarrow> winreader_readAsync r off ws = (Inl e, r', ws') \<Longrightarrow>
                    winreader_step (r, ws) RdSubmitFailed (r', ws')"
| wrstep_result: "winreader_phase r \<noteq> Idle \<Longrightarrow> winreader_waitAndGetResult r ws = Some (Inr v, r', ws') \<Longrightarrow>
                    wsv_bytes ws' v = Some d \<Longrightarrow> winreader_step (r, ws) (RdResult d) (r', ws')"
| wrstep_failed: "winreader_phase r \<noteq> Idle \<Longrightarrow> winreader_waitAndGetResult r ws = Some (Inl e, r', ws') \<Longrightarrow>
                    winreader_step (r, ws) RdFailed (r', ws')"

inductive winreader_trace ::
  "winreader \<times> wstate \<Rightarrow> read_event list \<Rightarrow> winreader \<times> wstate \<Rightarrow> bool" for s where
  wrtr_nil: "winreader_trace s [] s"
| wrtr_snoc: "winreader_trace s es s' \<Longrightarrow> winreader_step s' e s'' \<Longrightarrow> winreader_trace s (es @ [e]) s''"

text \<open>
  The reads of a trace start before the end of a file holding \<open>c\<close>: the end-of-file
  case, in which the Windows reader throws where the contract asks for an empty view, is
  \<open>winreader_read_at_eof_fails\<close> in \<open>Reader_Win32\<close>.
\<close>

definition reads_before_eof :: "bytes \<Rightarrow> read_event list \<Rightarrow> bool" where
  "reads_before_eof c es \<longleftrightarrow> (\<forall>e \<in> set es. case e of RdSubmit off \<Rightarrow> 0 \<le> off \<longrightarrow> nat off < length c | _ \<Rightarrow> True)"

text \<open>A pending read: what \<open>readAsync\<close> leaves on a usable reader.\<close>

definition winreader_busy :: "winreader \<Rightarrow> wstate \<Rightarrow> bool" where
  "winreader_busy r ws \<longleftrightarrow>
     (\<exists>r0 ws0 off. winreader_ok r0 ws0 \<and> winreader_readAsync r0 off ws0 = (Inr (), r, ws))"

definition winreader_keeps :: "winreader \<Rightarrow> path \<Rightarrow> bytes \<Rightarrow> wstate \<Rightarrow> bool" where
  "winreader_keeps r p c ws \<longleftrightarrow>
     (case wfile_of ws (wr_hFile r) of Some f \<Rightarrow> hf_path f = p | None \<Rightarrow> False) \<and> wcontents ws p = c"

lemma winreader_ok_phase: "winreader_ok r ws \<Longrightarrow> winreader_phase r = Idle"
  by (simp add: winreader_phase_def winreader_ok_def)

text \<open>A read the kernel executes for a usable reader: its outcome.\<close>

lemma w_exec_read_outcome:
  assumes "w_exec (OpRead h buf n lo hi) ws = ((st, m), wsx)" "ws_heap ws buf = Some b" "unat n \<le> length b"
    and "wfile_of ws h = Some f"
  shows "st \<noteq> STATUS_PENDING \<and> ws_files wsx = ws_files ws \<and>
         ws_heap wsx = (ws_heap ws)(buf \<mapsto> the (ws_heap wsx buf)) \<and> length (the (ws_heap wsx buf)) = length b \<and>
         (st = 0 \<longrightarrow> take m (the (ws_heap wsx buf)) = read_at (wcontents ws (hf_path f)) (ov_pos lo hi) (unat n))"
  using assms by (auto simp: Let_def read_at_def fun_upd_idem min_def split: if_splits)

lemma winreader_readAsync_busy:
  assumes "winreader_ok r ws"
  shows "\<exists>r' ws'. winreader_readAsync r off ws = (Inr (), r', ws') \<and> winreader_busy r' ws' \<and>
           winreader_phase r' = Submitted (sint off) \<and> wr_hFile r' = wr_hFile r \<and>
           wfile_of ws' = wfile_of ws \<and> ws_files ws' = ws_files ws"
  using winreader_readAsync_ok [OF assms, of off] assms
  by (auto simp: winreader_busy_def winreader_phase_def ov_split_pos wfile_of_set_event)

text \<open>
  The wait on a pending read returns; the reader is usable again, reads the same file,
  and a view it returns holds at most \<open>buffer_size_\<close> bytes of the file from the offset.
\<close>

lemma winreader_wait_busy:
  assumes "winreader_busy r ws" "winreader_phase r = Submitted ofs" "winreader_keeps r p c ws"
  shows "\<exists>res r' ws'. winreader_waitAndGetResult r ws = Some (res, r', ws') \<and> winreader_ok r' ws' \<and>
           winreader_keeps r' p c ws' \<and> wr_buffer_size r' = wr_buffer_size r \<and>
           (\<forall>v. res = Inr v \<longrightarrow> (\<exists>d. wsv_bytes ws' v = Some d \<and> length d \<le> unat (wr_buffer_size r) \<and>
                                   (0 \<le> ofs \<longrightarrow> prefix d (drop (nat ofs) c))))"
proof -
  obtain r0 ws0 off where ok0: "winreader_ok r0 ws0" and ra: "winreader_readAsync r0 off ws0 = (Inr (), r, ws)"
    using assms(1) by (auto simp: winreader_busy_def)
  obtain f b e where f: "wfile_of ws0 (wr_hFile r0) = Some f" and b: "ws_heap ws0 (wr_buffer r0) = Some b"
    "length b = unat (wr_buffer_size r0)"
    using ok0 by (rule winreader_okD)
  note ra_facts = winreader_readAsync_busy [OF ok0, of off]
  have same: "wr_hFile r = wr_hFile r0" "wfile_of ws = wfile_of ws0" "ws_files ws = ws_files ws0"
    "ofs = sint off" "wr_buffer_size r = wr_buffer_size r0" "wr_buffer r = wr_buffer r0"
    using ra_facts ra assms(2) winreader_readAsync_ok [OF ok0, of off] by auto
  have keep0: "hf_path f = p" "wcontents ws0 p = c"
    using assms(3) same f by (auto simp: winreader_keeps_def wcontents_def)
  let ?op = "OpRead (wr_hFile r0) (wr_buffer r0) (ucast (wr_buffer_size r0))
               (ov_Offset (ov_split off (wr_ov r0))) (ov_OffsetHigh (ov_split off (wr_ov r0)))"
  obtain st n wsx where ex: "w_exec ?op ws0 = ((st, n), wsx)" by (metis prod.collapse)
  have nb: "unat (ucast (wr_buffer_size r0) :: 32 word) \<le> length b" using b(2) by (simp add: unat_ucast_32)
  note out = w_exec_read_outcome [OF ex b(1) nb f]
  have ok': "winreader_ok (r0\<lparr>wr_ov := (ov_split off (wr_ov r0))\<lparr>ov_Internal := st, ov_InternalHigh := n\<rparr>\<rparr>)
                          (io_done (ov_hEvent (wr_ov r0)) st ws0 wsx)"
    using winreader_ok_after [OF ok0, where wsx = wsx and b' = "the (ws_heap wsx (wr_buffer r0))" and st = st and off = off and n = n] out b(2)
    by (metis fun_upd_same)
  have wait: "winreader_waitAndGetResult r ws =
      Some (if st = 0 then Inr \<lparr>sv_ptr = wr_buffer r0, sv_len = n\<rparr> else Inl Win_OverlappedFailed,
            r0\<lparr>wr_ov := (ov_split off (wr_ov r0))\<lparr>ov_Internal := st, ov_InternalHigh := n\<rparr>\<rparr>,
            io_done (ov_hEvent (wr_ov r0)) st ws0 wsx)"
    using winreader_cycle [OF ok0 ex] ra by (simp add: winreader_read_once_def)
  have keep': "winreader_keeps (r0\<lparr>wr_ov := (ov_split off (wr_ov r0))\<lparr>ov_Internal := st, ov_InternalHigh := n\<rparr>\<rparr>)
                 p c (io_done (ov_hEvent (wr_ov r0)) st ws0 wsx)"
    using f keep0 out by (simp add: winreader_keeps_def wcontents_def)
  have data: "st = 0 \<Longrightarrow> wsv_bytes (io_done (ov_hEvent (wr_ov r0)) st ws0 wsx) \<lparr>sv_ptr = wr_buffer r0, sv_len = n\<rparr> =
                Some (read_at c (unat off) (unat (ucast (wr_buffer_size r0) :: 32 word)))"
    using out keep0 by (simp add: wsv_bytes_def ov_split_pos) (metis fun_upd_same option.sel)
  have len: "unat (ucast (wr_buffer_size r0) :: 32 word) \<le> unat (wr_buffer_size r0)"
    by (simp add: unat_ucast_32)
  define r' where "r' = r0\<lparr>wr_ov := (ov_split off (wr_ov r0))\<lparr>ov_Internal := st, ov_InternalHigh := n\<rparr>\<rparr>"
  define ws' where "ws' = io_done (ov_hEvent (wr_ov r0)) st ws0 wsx"
  define d where "d = read_at c (unat off) (unat (ucast (wr_buffer_size r0) :: 32 word))"
  have dl: "length d \<le> unat (wr_buffer_size r)" using len same(5) by (simp add: d_def)
  have dp: "0 \<le> ofs \<longrightarrow> prefix d (drop (nat ofs) c)"
    using same(4) read_at_prefix [of c "unat off"] by (simp add: d_def nat_sint_nonneg)
  have rest: "winreader_ok r' ws' \<and> winreader_keeps r' p c ws' \<and> wr_buffer_size r' = wr_buffer_size r"
    using ok' keep' same(5) by (simp add: r'_def ws'_def)
  show ?thesis
  proof (cases "st = 0")
    case True
    have "winreader_waitAndGetResult r ws = Some (Inr \<lparr>sv_ptr = wr_buffer r0, sv_len = n\<rparr>, r', ws')"
      using wait True by (simp add: r'_def ws'_def)
    moreover have "wsv_bytes ws' \<lparr>sv_ptr = wr_buffer r0, sv_len = n\<rparr> = Some d"
      using data [OF True] by (simp add: ws'_def d_def)
    ultimately show ?thesis using rest dl dp by blast
  next
    case False
    have "winreader_waitAndGetResult r ws = Some (Inl Win_OverlappedFailed, r', ws')"
      using wait False by (simp add: r'_def ws'_def)
    then show ?thesis using rest by blast
  qed
qed

lemma winreader_busy_phase: "winreader_busy r ws \<Longrightarrow> winreader_phase r \<noteq> Idle"
proof -
  assume "winreader_busy r ws"
  then obtain r0 ws0 off where "winreader_ok r0 ws0" "winreader_readAsync r0 off ws0 = (Inr (), r, ws)"
    by (auto simp: winreader_busy_def)
  then show ?thesis using winreader_readAsync_busy [of r0 ws0 off] by auto
qed

text \<open>The simulation, as for the Linux reader.\<close>

lemma winreader_trace_sim:
  assumes "winreader_trace (r0, ws0) es s" "reads_before_eof c es" "winreader_ok r0 ws0" "winreader_keeps r0 p c ws0"
  shows "read_spec_trace (unat (wr_buffer_size r0)) c Idle es (winreader_phase (fst s)) \<and>
         winreader_keeps (fst s) p c (snd s) \<and> wr_buffer_size (fst s) = wr_buffer_size r0 \<and>
         (winreader_ok (fst s) (snd s) \<or> winreader_busy (fst s) (snd s)) \<and>
         (\<forall>ofs. winreader_phase (fst s) = Submitted ofs \<longrightarrow> 0 \<le> ofs \<longrightarrow> nat ofs < length c)"
  using assms(1,2)
proof induction
  case wrtr_nil
  then show ?case using assms(3,4) by (simp add: winreader_ok_phase rst_nil)
next
  case (wrtr_snoc es s' e s'')
  obtain r1 ws1 where s': "s' = (r1, ws1)" by fastforce
  have fit: "reads_before_eof c es" "\<And>off. e = RdSubmit off \<Longrightarrow> 0 \<le> off \<Longrightarrow> nat off < length c"
    using wrtr_snoc.prems by (auto simp: reads_before_eof_def)
  have tr: "read_spec_trace (unat (wr_buffer_size r0)) c Idle es (winreader_phase r1)"
    and keep: "winreader_keeps r1 p c ws1" and sz: "wr_buffer_size r1 = wr_buffer_size r0"
    and inv: "winreader_ok r1 ws1 \<or> winreader_busy r1 ws1"
    and pend: "\<And>ofs. winreader_phase r1 = Submitted ofs \<Longrightarrow> 0 \<le> ofs \<Longrightarrow> nat ofs < length c"
    using wrtr_snoc.IH [OF fit(1)] s' by auto
  from wrtr_snoc.hyps(2) [unfolded s'] show ?case
  proof (cases rule: winreader_step.cases)
    case (wrstep_submit off r' ws')
    then have ok: "winreader_ok r1 ws1" using inv winreader_busy_phase by blast
    obtain r2 ws2 where a: "winreader_readAsync r1 off ws1 = (Inr (), r2, ws2)" "winreader_busy r2 ws2"
      "winreader_phase r2 = Submitted (sint off)" "wr_hFile r2 = wr_hFile r1"
      "wfile_of ws2 = wfile_of ws1" "ws_files ws2 = ws_files ws1"
      using winreader_readAsync_busy [OF ok, of off] by blast
    have eq: "r' = r2" "ws' = ws2" using a(1) wrstep_submit by auto
    have sz2: "wr_buffer_size r2 = wr_buffer_size r1"
      using a(1) winreader_readAsync_ok [OF ok, of off] by auto
    have "read_spec_trace (unat (wr_buffer_size r0)) c Idle (es @ [RdSubmit (sint off)]) (Submitted (sint off))"
      using rst_snoc [OF _ rs_submit] tr winreader_ok_phase [OF ok] by simp
    moreover have "winreader_keeps r2 p c ws2"
      using keep a(4-6) by (simp add: winreader_keeps_def wcontents_def)
    moreover have "0 \<le> sint off \<longrightarrow> nat (sint off) < length c" using fit(2) wrstep_submit by simp
    ultimately show ?thesis using wrstep_submit eq a(2,3) sz sz2 by auto
  next
    case (wrstep_submit_failed off ex r' ws')
    then have ok: "winreader_ok r1 ws1" using inv winreader_busy_phase by blast
    then show ?thesis using winreader_readAsync_busy [OF ok, of off] wrstep_submit_failed by auto
  next
    case (wrstep_result v r' ws' d)
    then obtain ofs where busy: "winreader_busy r1 ws1" and ph: "winreader_phase r1 = Submitted ofs"
      using inv winreader_ok_phase by (cases "winreader_phase r1") auto
    obtain res r2 ws2 where w: "winreader_waitAndGetResult r1 ws1 = Some (res, r2, ws2)" "winreader_ok r2 ws2"
      "winreader_keeps r2 p c ws2" "wr_buffer_size r2 = wr_buffer_size r1"
      "\<forall>v. res = Inr v \<longrightarrow> (\<exists>d. wsv_bytes ws2 v = Some d \<and> length d \<le> unat (wr_buffer_size r1) \<and>
                                 (0 \<le> ofs \<longrightarrow> prefix d (drop (nat ofs) c)))"
      using winreader_wait_busy [OF busy ph keep] by blast
    have eq: "res = Inr v" "r' = r2" "ws' = ws2" using w(1) wrstep_result by auto
    have "length d \<le> unat (wr_buffer_size r0)" "0 \<le> ofs \<longrightarrow> prefix d (drop (nat ofs) c)"
      using w(5) eq wrstep_result sz by auto
    then have "read_spec_trace (unat (wr_buffer_size r0)) c Idle (es @ [RdResult d]) Idle"
      using rst_snoc [OF tr] rs_result ph by simp
    then show ?thesis using wrstep_result eq w(2-4) sz winreader_ok_phase [OF w(2)] by auto
  next
    case (wrstep_failed ex r' ws')
    then obtain ofs where busy: "winreader_busy r1 ws1" and ph: "winreader_phase r1 = Submitted ofs"
      using inv winreader_ok_phase by (cases "winreader_phase r1") auto
    obtain res r2 ws2 where w: "winreader_waitAndGetResult r1 ws1 = Some (res, r2, ws2)" "winreader_ok r2 ws2"
      "winreader_keeps r2 p c ws2" "wr_buffer_size r2 = wr_buffer_size r1"
      using winreader_wait_busy [OF busy ph keep] by blast
    have eq: "r' = r2" "ws' = ws2" using w(1) wrstep_failed by auto
    have "\<not> (0 \<le> ofs \<and> length c \<le> nat ofs)" using pend [OF ph] by auto
    then have "read_spec (unat (wr_buffer_size r0)) c (Submitted ofs) RdFailed Idle" by (rule rs_failed)
    then have "read_spec_trace (unat (wr_buffer_size r0)) c Idle (es @ [RdFailed]) Idle"
      using rst_snoc [OF tr] ph by simp
    then show ?thesis using wrstep_failed eq w(2-4) sz winreader_ok_phase [OF w(2)] by auto
  qed
qed

text \<open>C7. Refinement away from the end of the file: every trace of events a caller observes on a usable Windows reader, keeping the contract (submit only when nothing is pending, wait only for a submitted operation), in which every read at a non-negative offset starts before the end of the file, is a trace of the read contract of the specification, for the reader's buffer size and the file's contents: each view holds at most \<open>buffer_size_\<close> bytes, which are the file's bytes from the offset. A read at the end of the file, where the contract asks for an empty view, throws instead (\<open>winreader_read_at_eof_fails\<close>).\<close>

theorem winreader_refines_read_spec:
  assumes "winreader_ok r ws" "wfile_of ws (wr_hFile r) = Some f"
    and "reads_before_eof (wcontents ws (hf_path f)) es" "winreader_trace (r, ws) es (r', ws')"
  shows "read_spec_trace (unat (wr_buffer_size r)) (wcontents ws (hf_path f)) Idle es (winreader_phase r')"
proof -
  have "winreader_keeps r (hf_path f) (wcontents ws (hf_path f)) ws"
    using assms(2) by (simp add: winreader_keeps_def)
  then show ?thesis using winreader_trace_sim [OF assms(4,3,1)] by simp
qed

section \<open>The Windows writer against the write contract\<close>

text \<open>The bytes a caller lends: the first \<open>n\<close> bytes of its block.\<close>

definition wborrowed :: "wstate \<Rightarrow> addr \<Rightarrow> 64 word \<Rightarrow> bytes" where
  "wborrowed ws a n = (case ws_heap ws a of Some b \<Rightarrow> take (unat n) b | None \<Rightarrow> [])"

definition wborrow_ok :: "wstate \<Rightarrow> addr \<Rightarrow> 64 word \<Rightarrow> bool" where
  "wborrow_ok ws a n = (case ws_heap ws a of Some b \<Rightarrow> unat n \<le> length b | None \<Rightarrow> False)"

definition winwriter_phase :: "winwriter \<Rightarrow> wstate \<Rightarrow> wphase" where
  "winwriter_phase w ws =
     (if ov_Internal (ww_ov w) = STATUS_PENDING
      then WPending (sint (of_nat (ov_pos (ov_Offset (ww_ov w)) (ov_OffsetHigh (ww_ov w))) :: 64 word))
                    (wborrowed ws (ww_buffer w) (ww_buffer_size w))
      else WIdle)"

text \<open>
  The events a caller of one Windows writer observes, keeping the contract: it submits
  only when nothing is pending, lending a live block that holds the bytes, and waits
  only for a submitted write.
\<close>

inductive winwriter_step :: "winwriter \<times> wstate \<Rightarrow> write_event \<Rightarrow> winwriter \<times> wstate \<Rightarrow> bool" where
  wwstep_submit: "winwriter_phase w ws = WIdle \<Longrightarrow> wborrow_ok ws data n \<Longrightarrow>
                    winwriter_writeAsync w data n off ws = (Inr (), w', ws') \<Longrightarrow>
                    winwriter_step (w, ws) (WrSubmit (sint off) (wborrowed ws data n)) (w', ws')"
| wwstep_submit_failed: "winwriter_phase w ws = WIdle \<Longrightarrow> wborrow_ok ws data n \<Longrightarrow>
                    winwriter_writeAsync w data n off ws = (Inl e, w', ws') \<Longrightarrow>
                    winwriter_step (w, ws) WrSubmitFailed (w', ws')"
| wwstep_done: "winwriter_phase w ws \<noteq> WIdle \<Longrightarrow> winwriter_wait w ws = Some (Inr (), w', ws') \<Longrightarrow>
                    winwriter_step (w, ws) WrDone (w', ws')"
| wwstep_failed: "winwriter_phase w ws \<noteq> WIdle \<Longrightarrow> winwriter_wait w ws = Some (Inl e, w', ws') \<Longrightarrow>
                    winwriter_step (w, ws) WrFailed (w', ws')"

inductive winwriter_trace :: "winwriter \<times> wstate \<Rightarrow> write_event list \<Rightarrow> winwriter \<times> wstate \<Rightarrow> bool" for s where
  wwtr_nil: "winwriter_trace s [] s"
| wwtr_snoc: "winwriter_trace s es s' \<Longrightarrow> winwriter_step s' e s'' \<Longrightarrow> winwriter_trace s (es @ [e]) s''"

text \<open>The writes of a trace fit the \<open>DWORD\<close> count of \<open>WriteFile\<close>.\<close>

definition wwrites_fit :: "write_event list \<Rightarrow> bool" where
  "wwrites_fit es \<longleftrightarrow> (\<forall>e \<in> set es. case e of WrSubmit off d \<Rightarrow> length d < 2 ^ 32 | _ \<Rightarrow> True)"

text \<open>A write the kernel executes: a failure changes no file; a success at an offset other
  than the end marker writes the counted bytes of the block at the offset.\<close>

lemma w_exec_write_outcome:
  assumes "w_exec (OpWrite h buf n lo hi) ws = ((st, m), wsx)" "wfile_of ws h = Some f"
  shows "st \<noteq> STATUS_PENDING \<and> ws_heap wsx = ws_heap ws \<and> (st \<noteq> 0 \<longrightarrow> ws_files wsx = ws_files ws) \<and>
         (st = 0 \<longrightarrow> \<not> (lo = 4294967295 \<and> hi = 4294967295) \<longrightarrow> ws_heap ws buf = Some b \<longrightarrow>
            wcontents wsx (hf_path f) = write_at (wcontents ws (hf_path f)) (ov_pos lo hi) (take (unat n) b))"
  using assms by (auto simp: Let_def wcontents_def split: if_splits option.splits)

text \<open>A pending write: what \<open>writeAsync\<close> leaves on a usable writer.\<close>

definition winwriter_busy :: "winwriter \<Rightarrow> wstate \<Rightarrow> bool" where
  "winwriter_busy w ws \<longleftrightarrow>
     (\<exists>w0 ws0 data n off. winwriter_ok w0 ws0 \<and> winwriter_writeAsync w0 data n off ws0 = (Inr (), w, ws))"

lemma winwriter_ok_phase: "winwriter_ok w ws \<Longrightarrow> winwriter_phase w ws = WIdle"
  by (simp add: winwriter_phase_def winwriter_ok_def)

text \<open>On a usable writer, \<open>writeAsync\<close> starts exactly its write and keeps files and memory.\<close>

lemma winwriter_writeAsync_busy:
  assumes "winwriter_ok w ws"
  shows "\<exists>w' ws'. winwriter_writeAsync w data n off ws = (Inr (), w', ws') \<and> winwriter_busy w' ws' \<and>
           winwriter_phase w' ws' = WPending (sint off) (wborrowed ws data n) \<and>
           ww_hFile w' = ww_hFile w \<and> ww_buffer w' = data \<and> ww_buffer_size w' = n \<and>
           wfile_of ws' = wfile_of ws \<and> ws_files ws' = ws_files ws \<and> ws_heap ws' = ws_heap ws"
proof -
  obtain f e where f: "wfile_of ws (ww_hFile w) = Some f" "hf_access f AND GENERIC_WRITE \<noteq> 0"
    and ev: "handle_obj ws (ov_hEvent (ww_ov w)) = Some (HEvent e)"
    using assms by (rule winwriter_okD)
  have "ResetEvent (ov_hEvent (ww_ov w)) ws = (True, set_event (ov_hEvent (ww_ov w)) False ws)"
    using ev by (simp add: ResetEvent_def)
  then have "winwriter_writeAsync w data n off ws =
      (Inr (), w\<lparr>ww_buffer := data, ww_buffer_size := n,
                 ww_ov := (ov_split off (ww_ov w))\<lparr>ov_Internal := STATUS_PENDING, ov_InternalHigh := 0\<rparr>\<rparr>,
       (set_event (ov_hEvent (ww_ov w)) False ws)\<lparr>ws_pending := ws_pending ws @
          [(ov_hEvent (ww_ov w), OpWrite (ww_hFile w) data (ucast n)
             (ov_Offset (ov_split off (ww_ov w))) (ov_OffsetHigh (ov_split off (ww_ov w))))],
        ws_last_error := ERROR_IO_PENDING\<rparr>)"
    using f by (simp add: winwriter_writeAsync_def WriteFile_def start_io_def GetLastError_def Let_def)
  moreover have "winwriter_busy (fst (snd (winwriter_writeAsync w data n off ws)))
                               (snd (snd (winwriter_writeAsync w data n off ws)))"
    using assms unfolding winwriter_busy_def by (metis prod.collapse calculation snd_conv)
  ultimately show ?thesis
    by (auto simp: winwriter_phase_def ov_split_pos wfile_of_set_event wborrowed_def)
qed

lemma winwriter_busy_phase: "winwriter_busy w ws \<Longrightarrow> winwriter_phase w ws \<noteq> WIdle"
proof -
  assume "winwriter_busy w ws"
  then obtain w0 ws0 data n off where ok: "winwriter_ok w0 ws0"
    and wa: "winwriter_writeAsync w0 data n off ws0 = (Inr (), w, ws)"
    by (auto simp: winwriter_busy_def)
  show ?thesis using winwriter_writeAsync_busy [OF ok, of data n off] wa by auto
qed

text \<open>
  The wait on a pending write returns and leaves the writer usable on the same file; a
  failure changes no file, and a success at an offset that is not negative has written
  all the lent bytes there when their number fits a \<open>DWORD\<close>.
\<close>

lemma winwriter_wait_busy:
  assumes "winwriter_busy w ws" "winwriter_phase w ws = WPending ofs d"
  shows "\<exists>res w' ws'. winwriter_wait w ws = Some (res, w', ws') \<and> winwriter_ok w' ws' \<and>
           ww_hFile w' = ww_hFile w \<and> wfile_of ws' = wfile_of ws \<and> ws_heap ws' = ws_heap ws \<and>
           (res \<noteq> Inr () \<longrightarrow> ws_files ws' = ws_files ws) \<and>
           (res = Inr () \<longrightarrow> 0 \<le> ofs \<longrightarrow> wborrow_ok ws (ww_buffer w) (ww_buffer_size w) \<longrightarrow>
              unat (ww_buffer_size w) < 2 ^ 32 \<longrightarrow>
              (\<forall>f. wfile_of ws (ww_hFile w) = Some f \<longrightarrow>
                 wcontents ws' (hf_path f) = write_at (wcontents ws (hf_path f)) (nat ofs) d))"
proof -
  obtain w0 ws0 data n off where ok0: "winwriter_ok w0 ws0"
    and wa: "winwriter_writeAsync w0 data n off ws0 = (Inr (), w, ws)"
    using assms(1) by (auto simp: winwriter_busy_def)
  note B = winwriter_writeAsync_busy [OF ok0, of data n off]
  have same: "ww_hFile w = ww_hFile w0" "ww_buffer w = data" "ww_buffer_size w = n"
    "wfile_of ws = wfile_of ws0" "ws_files ws = ws_files ws0" "ws_heap ws = ws_heap ws0"
    "ofs = sint off" "d = wborrowed ws0 data n"
    using B wa assms(2) by auto
  obtain f0 e where f0: "wfile_of ws0 (ww_hFile w0) = Some f0" using ok0 by (rule winwriter_okD)
  let ?op = "OpWrite (ww_hFile w0) data (ucast n)
               (ov_Offset (ov_split off (ww_ov w0))) (ov_OffsetHigh (ov_split off (ww_ov w0)))"
  obtain st m wsx where ex: "w_exec ?op ws0 = ((st, m), wsx)" by (metis prod.collapse)
  note out = w_exec_write_outcome [OF ex f0]
  have cyc: "winwriter_write_once w0 data n off ws0 =
      Some (if st = 0 then Inr () else Inl Win_OverlappedFailed,
            w0\<lparr>ww_buffer := data, ww_buffer_size := n,
               ww_ov := (ov_split off (ww_ov w0))\<lparr>ov_Internal := st, ov_InternalHigh := m\<rparr>\<rparr>,
            io_done (ov_hEvent (ww_ov w0)) st ws0 wsx)"
    by (rule winwriter_cycle [OF ok0 ex])
  define w' where "w' = w0\<lparr>ww_buffer := data, ww_buffer_size := n,
               ww_ov := (ov_split off (ww_ov w0))\<lparr>ov_Internal := st, ov_InternalHigh := m\<rparr>\<rparr>"
  define ws' where "ws' = io_done (ov_hEvent (ww_ov w0)) st ws0 wsx"
  have wait: "winwriter_wait w ws = Some (if st = 0 then Inr () else Inl Win_OverlappedFailed, w', ws')"
    using cyc wa by (simp add: winwriter_write_once_def w'_def ws'_def)
  have ok': "winwriter_ok w' ws'"
    using winwriter_ok_after [OF ok0, where st = st and data = data and bsize = n and off = off and n = m and wsx = wsx] out by (simp add: w'_def ws'_def)
  have full: "wcontents ws' (hf_path f) = write_at (wcontents ws (hf_path f)) (nat ofs) d"
    if s0: "st = 0" and nn: "0 \<le> ofs" and bo: "wborrow_ok ws (ww_buffer w) (ww_buffer_size w)"
      and fits: "unat (ww_buffer_size w) < 2 ^ 32" and fw: "wfile_of ws (ww_hFile w) = Some f" for f
  proof -
    have ff: "f = f0" using fw same f0 by simp
    obtain b where b: "ws_heap ws0 data = Some b"
      using bo same by (auto simp: wborrow_ok_def split: option.splits)
    have ne: "\<not> (ov_Offset (ov_split off (ww_ov w0)) = 4294967295 \<and> ov_OffsetHigh (ov_split off (ww_ov w0)) = 4294967295)"
      using ov_split_end [of off "ww_ov w0"] nn same(7) by auto
    have u: "unat (ucast n :: 32 word) = unat n" using fits same by (simp add: unat_ucast_32)
    show ?thesis
      using out s0 ne b u same nn ff
      by (simp add: ws'_def wcontents_def wborrowed_def ov_split_pos nat_sint_nonneg)
  qed
  show ?thesis
    using wait ok' out full same by (auto simp: w'_def ws'_def)
qed

text \<open>
  What the simulation keeps of a Windows writer over the file at \<open>p\<close>: its handle names
  the file, and it is usable or has one write pending whose lent bytes are live and counted
  by a \<open>DWORD\<close>.
\<close>

definition winwriter_keeps :: "path \<Rightarrow> winwriter \<Rightarrow> wstate \<Rightarrow> bool" where
  "winwriter_keeps p w ws \<longleftrightarrow>
     (\<exists>f. wfile_of ws (ww_hFile w) = Some f \<and> hf_path f = p) \<and>
     (winwriter_ok w ws \<or>
      (winwriter_busy w ws \<and> wborrow_ok ws (ww_buffer w) (ww_buffer_size w) \<and> unat (ww_buffer_size w) < 2 ^ 32))"

lemma wborrowed_length: "wborrow_ok ws a n \<Longrightarrow> length (wborrowed ws a n) = unat n"
  by (auto simp: wborrowed_def wborrow_ok_def split: option.splits)

lemma winwriter_trace_sim:
  assumes "winwriter_trace (w0, ws0) es s" "wwrites_fit es" "winwriter_keeps p w0 ws0" "winwriter_ok w0 ws0"
  shows "write_spec_trace False (WIdle, wcontents ws0 p) es (winwriter_phase (fst s) (snd s), wcontents (snd s) p) \<and>
         winwriter_keeps p (fst s) (snd s)"
  using assms(1,2)
proof induction
  case wwtr_nil
  then show ?case using assms(3,4) by (simp add: winwriter_ok_phase wst_nil)
next
  case (wwtr_snoc es s' e s'')
  obtain w1 ws1 where s': "s' = (w1, ws1)" by fastforce
  have fit: "wwrites_fit es" "\<And>off d. e = WrSubmit off d \<Longrightarrow> length d < 2 ^ 32"
    using wwtr_snoc.prems by (auto simp: wwrites_fit_def)
  have tr: "write_spec_trace False (WIdle, wcontents ws0 p) es (winwriter_phase w1 ws1, wcontents ws1 p)"
    and keep: "winwriter_keeps p w1 ws1"
    using wwtr_snoc.IH [OF fit(1)] s' by auto
  obtain f where f: "wfile_of ws1 (ww_hFile w1) = Some f" "hf_path f = p"
    using keep by (auto simp: winwriter_keeps_def)
  from wwtr_snoc.hyps(2) [unfolded s'] show ?case
  proof (cases rule: winwriter_step.cases)
    case (wwstep_submit data n off w' ws')
    then have ok: "winwriter_ok w1 ws1" using keep winwriter_busy_phase by (auto simp: winwriter_keeps_def)
    obtain w2 ws2 where a: "winwriter_writeAsync w1 data n off ws1 = (Inr (), w2, ws2)" "winwriter_busy w2 ws2"
      "winwriter_phase w2 ws2 = WPending (sint off) (wborrowed ws1 data n)"
      "ww_hFile w2 = ww_hFile w1" "ww_buffer w2 = data" "ww_buffer_size w2 = n"
      "wfile_of ws2 = wfile_of ws1" "ws_files ws2 = ws_files ws1" "ws_heap ws2 = ws_heap ws1"
      using winwriter_writeAsync_busy [OF ok, of data n off] by blast
    have eq: "w' = w2" "ws' = ws2" using a(1) wwstep_submit by auto
    have "unat n < 2 ^ 32"
      using fit(2) [of "sint off" "wborrowed ws1 data n"] wwstep_submit wborrowed_length by auto
    moreover have "write_spec_trace False (WIdle, wcontents ws0 p) (es @ [WrSubmit (sint off) (wborrowed ws1 data n)])
            (WPending (sint off) (wborrowed ws1 data n), wcontents ws1 p)"
      using wst_snoc [OF _ ws_submit] tr winwriter_ok_phase [OF ok] by simp
    moreover have "wcontents ws2 p = wcontents ws1 p" using a(8) by (simp add: wcontents_def)
    moreover have "wborrow_ok ws2 data n" using a(9) wwstep_submit by (simp add: wborrow_ok_def)
    ultimately show ?thesis
      using wwstep_submit eq a(2-7) f by (auto simp: winwriter_keeps_def)
  next
    case (wwstep_submit_failed data n off ex w' ws')
    then have ok: "winwriter_ok w1 ws1" using keep winwriter_busy_phase by (auto simp: winwriter_keeps_def)
    then show ?thesis using winwriter_writeAsync_busy [OF ok, of data n off] wwstep_submit_failed by auto
  next
    case (wwstep_done w' ws')
    then obtain ofs d where busy: "winwriter_busy w1 ws1" and ph: "winwriter_phase w1 ws1 = WPending ofs d"
      and bo: "wborrow_ok ws1 (ww_buffer w1) (ww_buffer_size w1)" and sm: "unat (ww_buffer_size w1) < 2 ^ 32"
      using keep winwriter_ok_phase by (cases "winwriter_phase w1 ws1") (auto simp: winwriter_keeps_def)
    obtain res w2 ws2 where w: "winwriter_wait w1 ws1 = Some (res, w2, ws2)" "winwriter_ok w2 ws2"
      "ww_hFile w2 = ww_hFile w1" "wfile_of ws2 = wfile_of ws1"
      "res = Inr () \<longrightarrow> 0 \<le> ofs \<longrightarrow> wcontents ws2 p = write_at (wcontents ws1 p) (nat ofs) d"
      using winwriter_wait_busy [OF busy ph] bo sm f by blast
    have eq: "res = Inr ()" "w' = w2" "ws' = ws2" using w(1) wwstep_done by auto
    have "write_spec False (WPending ofs d, wcontents ws1 p) WrDone (WIdle, wcontents ws2 p)"
      using ws_done [of ofs False d "wcontents ws1 p"] ws_done_negative [of ofs False d _ "wcontents ws2 p"] w(5) eq
      by (cases "0 \<le> ofs") simp_all
    then show ?thesis
      using wst_snoc [OF tr] ph eq w(2-4) f winwriter_ok_phase [OF w(2)] wwstep_done by (auto simp: winwriter_keeps_def)
  next
    case (wwstep_failed ex w' ws')
    then obtain ofs d where busy: "winwriter_busy w1 ws1" and ph: "winwriter_phase w1 ws1 = WPending ofs d"
      using keep winwriter_ok_phase by (cases "winwriter_phase w1 ws1") (auto simp: winwriter_keeps_def)
    obtain res w2 ws2 where w: "winwriter_wait w1 ws1 = Some (res, w2, ws2)" "winwriter_ok w2 ws2"
      "ww_hFile w2 = ww_hFile w1" "wfile_of ws2 = wfile_of ws1"
      "res \<noteq> Inr () \<longrightarrow> ws_files ws2 = ws_files ws1"
      using winwriter_wait_busy [OF busy ph] by blast
    have eq: "res = Inl ex" "w' = w2" "ws' = ws2" using w(1) wwstep_failed by auto
    have "wcontents ws2 p = wcontents ws1 p" using w(5) eq by (simp add: wcontents_def)
    then show ?thesis
      using wst_snoc [OF tr [unfolded ph] ws_failed] eq w(2-4) f winwriter_ok_phase [OF w(2)] wwstep_failed
      by (auto simp: winwriter_keeps_def)
  qed
qed

text \<open>C9. Refinement of the write contract by the Windows writer: every trace of events a caller observes on a usable Windows writer, keeping the contract (submit only when nothing is pending, lending a live block that holds the bytes; wait only for a submitted write), in which each write's count fits a \<open>DWORD\<close>, is a trace of the write contract (not in append mode) on the file's contents: a successful wait means that all the lent bytes are in the file at the offset, and a failure leaves the file unchanged.\<close>

theorem winwriter_refines_write_spec:
  assumes "winwriter_ok w ws" "wfile_of ws (ww_hFile w) = Some f" "wwrites_fit es"
    and "winwriter_trace (w, ws) es (w', ws')"
  shows "write_spec_trace False (WIdle, wcontents ws (hf_path f)) es (winwriter_phase w' ws', wcontents ws' (hf_path f))"
  using winwriter_trace_sim [OF assms(4,3) _ assms(1), of "hf_path f"] assms(1,2)
  by (simp add: winwriter_keeps_def)

end
