(* ===== verification/Interface.thy ===== *)
theory Interface
  imports Reader_Linux Writer_Linux Reader_Win32 Writer_Win32
begin

text \<open>
  The public interface of the two classes, as the headers
  \<open>src/include/AsyncFile/AsyncFileReader.hpp\<close> and \<open>AsyncFileWriter.hpp\<close> declare it
  for both backends: a datatype of the calls a program can make on named objects, with
  the default arguments as optional ones (\<open>buffer_size = 4096\<close>, \<open>append = false\<close>,
  \<open>offset = 0\<close>), and for each backend a dispatcher that runs one call on a store of
  objects. Copying is deleted in both classes, so there is no call for it. A scope exit
  is the call of the destructor. A program is a list of calls, run by \<open>run_calls\<close>,
  which both backends share; an exception ends it (the caller's \<open>try\<close>).
\<close>

section \<open>Calls\<close>

datatype 'o reader_call =
    ReaderNew 'o path "64 word option"
  | ReaderMoveNew 'o 'o
  | ReaderMoveAssign 'o 'o
  | ReaderDelete 'o
  | ReaderReadAsync 'o "64 word option"
  | ReaderWaitAndGetResult 'o

datatype 'o writer_call =
    WriterNew 'o path "bool option"
  | WriterMoveNew 'o 'o
  | WriterMoveAssign 'o 'o
  | WriterDelete 'o
  | WriterWriteAsync 'o addr "64 word" "64 word option"
  | WriterWait 'o

datatype call_result = RetUnit | RetView sview

text \<open>
  A call on a name that holds no object cannot be written in C++ (the name would not be in
  scope); the dispatchers leave the state unchanged for it.
\<close>

section \<open>The Linux backend\<close>

definition reader_exec ::
  "'o reader_call \<Rightarrow> ('o \<rightharpoonup> reader) \<times> kstate \<Rightarrow> ((exn + call_result) \<times> ('o \<rightharpoonup> reader) \<times> kstate) option" where
  "reader_exec c s =
     (let (objs, k) = s in
      case c of
        ReaderNew x p bsz \<Rightarrow>
          (case reader_ctor p (case bsz of None \<Rightarrow> 4096 | Some n \<Rightarrow> n) k of
             (Inl e, k') \<Rightarrow> Some (Inl e, objs, k')
           | (Inr r, k') \<Rightarrow> Some (Inr RetUnit, objs(x \<mapsto> r), k'))
      | ReaderMoveNew x y \<Rightarrow>
          (case objs y of
             None \<Rightarrow> Some (Inr RetUnit, objs, k)
           | Some r \<Rightarrow> let (n, r') = reader_move r in Some (Inr RetUnit, objs(y \<mapsto> r', x \<mapsto> n), k))
      | ReaderMoveAssign x y \<Rightarrow>
          (let (objs', k') = reader_move_assign x y objs k in Some (Inr RetUnit, objs', k'))
      | ReaderDelete x \<Rightarrow>
          (case objs x of
             None \<Rightarrow> Some (Inr RetUnit, objs, k)
           | Some r \<Rightarrow> Some (Inr RetUnit, objs(x := None), reader_dtor r k))
      | ReaderReadAsync x off \<Rightarrow>
          (case objs x of
             None \<Rightarrow> Some (Inr RetUnit, objs, k)
           | Some r \<Rightarrow>
               (case reader_readAsync r (case off of None \<Rightarrow> 0 | Some o' \<Rightarrow> o') k of
                  (Inl e, k') \<Rightarrow> Some (Inl e, objs, k')
                | (Inr _, k') \<Rightarrow> Some (Inr RetUnit, objs, k')))
      | ReaderWaitAndGetResult x \<Rightarrow>
          (case objs x of
             None \<Rightarrow> Some (Inr RetUnit, objs, k)
           | Some r \<Rightarrow>
               (case reader_waitAndGetResult r k of
                  None \<Rightarrow> None
                | Some (Inl e, k') \<Rightarrow> Some (Inl e, objs, k')
                | Some (Inr v, k') \<Rightarrow> Some (Inr (RetView v), objs, k'))))"

definition writer_exec ::
  "'o writer_call \<Rightarrow> ('o \<rightharpoonup> writer) \<times> kstate \<Rightarrow> ((exn + call_result) \<times> ('o \<rightharpoonup> writer) \<times> kstate) option" where
  "writer_exec c s =
     (let (objs, k) = s in
      case c of
        WriterNew x p app \<Rightarrow>
          (case writer_ctor p (case app of None \<Rightarrow> False | Some a \<Rightarrow> a) k of
             (Inl e, k') \<Rightarrow> Some (Inl e, objs, k')
           | (Inr w, k') \<Rightarrow> Some (Inr RetUnit, objs(x \<mapsto> w), k'))
      | WriterMoveNew x y \<Rightarrow>
          (case objs y of
             None \<Rightarrow> Some (Inr RetUnit, objs, k)
           | Some w \<Rightarrow> let (n, w') = writer_move w in Some (Inr RetUnit, objs(y \<mapsto> w', x \<mapsto> n), k))
      | WriterMoveAssign x y \<Rightarrow>
          (let (objs', k') = writer_move_assign x y objs k in Some (Inr RetUnit, objs', k'))
      | WriterDelete x \<Rightarrow>
          (case objs x of
             None \<Rightarrow> Some (Inr RetUnit, objs, k)
           | Some w \<Rightarrow> Some (Inr RetUnit, objs(x := None), writer_dtor w k))
      | WriterWriteAsync x data n off \<Rightarrow>
          (case objs x of
             None \<Rightarrow> Some (Inr RetUnit, objs, k)
           | Some w \<Rightarrow>
               (case writer_writeAsync w data n (case off of None \<Rightarrow> 0 | Some o' \<Rightarrow> o') k of
                  (Inl e, w', k') \<Rightarrow> Some (Inl e, objs(x \<mapsto> w'), k')
                | (Inr _, w', k') \<Rightarrow> Some (Inr RetUnit, objs(x \<mapsto> w'), k')))
      | WriterWait x \<Rightarrow>
          (case objs x of
             None \<Rightarrow> Some (Inr RetUnit, objs, k)
           | Some w \<Rightarrow>
               (case writer_wait w k of
                  None \<Rightarrow> None
                | Some (Inl e, k') \<Rightarrow> Some (Inl e, objs, k')
                | Some (Inr _, k') \<Rightarrow> Some (Inr RetUnit, objs, k'))))"

section \<open>The Windows backend\<close>

definition winreader_exec ::
  "'o reader_call \<Rightarrow> ('o \<rightharpoonup> winreader) \<times> wstate \<Rightarrow> ((exn + call_result) \<times> ('o \<rightharpoonup> winreader) \<times> wstate) option" where
  "winreader_exec c s =
     (let (objs, ws) = s in
      case c of
        ReaderNew x p bsz \<Rightarrow>
          (case winreader_ctor p (case bsz of None \<Rightarrow> 4096 | Some n \<Rightarrow> n) ws of
             (Inl e, ws') \<Rightarrow> Some (Inl e, objs, ws')
           | (Inr r, ws') \<Rightarrow> Some (Inr RetUnit, objs(x \<mapsto> r), ws'))
      | ReaderMoveNew x y \<Rightarrow>
          (case objs y of
             None \<Rightarrow> Some (Inr RetUnit, objs, ws)
           | Some r \<Rightarrow> let (n, r') = winreader_move r in Some (Inr RetUnit, objs(y \<mapsto> r', x \<mapsto> n), ws))
      | ReaderMoveAssign x y \<Rightarrow>
          (let (objs', ws') = winreader_move_assign x y objs ws in Some (Inr RetUnit, objs', ws'))
      | ReaderDelete x \<Rightarrow>
          (case objs x of
             None \<Rightarrow> Some (Inr RetUnit, objs, ws)
           | Some r \<Rightarrow> Some (Inr RetUnit, objs(x := None), winreader_dtor r ws))
      | ReaderReadAsync x off \<Rightarrow>
          (case objs x of
             None \<Rightarrow> Some (Inr RetUnit, objs, ws)
           | Some r \<Rightarrow>
               (case winreader_readAsync r (case off of None \<Rightarrow> 0 | Some o' \<Rightarrow> o') ws of
                  (Inl e, r', ws') \<Rightarrow> Some (Inl e, objs(x \<mapsto> r'), ws')
                | (Inr _, r', ws') \<Rightarrow> Some (Inr RetUnit, objs(x \<mapsto> r'), ws')))
      | ReaderWaitAndGetResult x \<Rightarrow>
          (case objs x of
             None \<Rightarrow> Some (Inr RetUnit, objs, ws)
           | Some r \<Rightarrow>
               (case winreader_waitAndGetResult r ws of
                  None \<Rightarrow> None
                | Some (Inl e, r', ws') \<Rightarrow> Some (Inl e, objs(x \<mapsto> r'), ws')
                | Some (Inr v, r', ws') \<Rightarrow> Some (Inr (RetView v), objs(x \<mapsto> r'), ws'))))"

definition winwriter_exec ::
  "'o writer_call \<Rightarrow> ('o \<rightharpoonup> winwriter) \<times> wstate \<Rightarrow> ((exn + call_result) \<times> ('o \<rightharpoonup> winwriter) \<times> wstate) option" where
  "winwriter_exec c s =
     (let (objs, ws) = s in
      case c of
        WriterNew x p app \<Rightarrow>
          (case winwriter_ctor p (case app of None \<Rightarrow> False | Some a \<Rightarrow> a) ws of
             (Inl e, ws') \<Rightarrow> Some (Inl e, objs, ws')
           | (Inr w, ws') \<Rightarrow> Some (Inr RetUnit, objs(x \<mapsto> w), ws'))
      | WriterMoveNew x y \<Rightarrow>
          (case objs y of
             None \<Rightarrow> Some (Inr RetUnit, objs, ws)
           | Some w \<Rightarrow> let (n, w') = winwriter_move w in Some (Inr RetUnit, objs(y \<mapsto> w', x \<mapsto> n), ws))
      | WriterMoveAssign x y \<Rightarrow>
          (let (objs', ws') = winwriter_move_assign x y objs ws in Some (Inr RetUnit, objs', ws'))
      | WriterDelete x \<Rightarrow>
          (case objs x of
             None \<Rightarrow> Some (Inr RetUnit, objs, ws)
           | Some w \<Rightarrow> Some (Inr RetUnit, objs(x := None), winwriter_dtor w ws))
      | WriterWriteAsync x data n off \<Rightarrow>
          (case objs x of
             None \<Rightarrow> Some (Inr RetUnit, objs, ws)
           | Some w \<Rightarrow>
               (case winwriter_writeAsync w data n (case off of None \<Rightarrow> 0 | Some o' \<Rightarrow> o') ws of
                  (Inl e, w', ws') \<Rightarrow> Some (Inl e, objs(x \<mapsto> w'), ws')
                | (Inr _, w', ws') \<Rightarrow> Some (Inr RetUnit, objs(x \<mapsto> w'), ws')))
      | WriterWait x \<Rightarrow>
          (case objs x of
             None \<Rightarrow> Some (Inr RetUnit, objs, ws)
           | Some w \<Rightarrow>
               (case winwriter_wait w ws of
                  None \<Rightarrow> None
                | Some (Inl e, w', ws') \<Rightarrow> Some (Inl e, objs(x \<mapsto> w'), ws')
                | Some (Inr _, w', ws') \<Rightarrow> Some (Inr RetUnit, objs(x \<mapsto> w'), ws'))))"

section \<open>Programs\<close>

text \<open>
  A program runs its calls in order; a call that never returns makes the program never
  return, and an exception ends it.
\<close>

fun run_calls ::
  "('c \<Rightarrow> 's \<Rightarrow> (('e + 'r) \<times> 's) option) \<Rightarrow> 'c list \<Rightarrow> 's \<Rightarrow> (('e + 'r list) \<times> 's) option" where
  "run_calls step [] s = Some (Inr [], s)"
| "run_calls step (c # cs) s =
     (case step c s of
        None \<Rightarrow> None
      | Some (Inl e, s') \<Rightarrow> Some (Inl e, s')
      | Some (Inr x, s') \<Rightarrow>
          (case run_calls step cs s' of
             None \<Rightarrow> None
           | Some (Inl e, s'') \<Rightarrow> Some (Inl e, s'')
           | Some (Inr xs, s'') \<Rightarrow> Some (Inr (x # xs), s'')))"

text \<open>
  The move-safety scenario of the specification (section 8): construct a reader with the
  default buffer, move-construct a second one from it, destroy the source, then read
  with the default offset through the destination.
\<close>

definition move_then_read :: "'o \<Rightarrow> 'o \<Rightarrow> path \<Rightarrow> 'o reader_call list" where
  "move_then_read a b p =
     [ReaderNew a p None, ReaderMoveNew b a, ReaderDelete a, ReaderReadAsync b None, ReaderWaitAndGetResult b]"

text \<open>
  The append scenario of the specification (section 8): a writer constructed on a path
  with a given \<open>append\<close> flag writes one block at the default offset, waits, and is
  destroyed; then a second writer does the same on the same path.
\<close>

definition writer_session :: "'o \<Rightarrow> path \<Rightarrow> bool \<Rightarrow> addr \<Rightarrow> 64 word \<Rightarrow> 'o writer_call list" where
  "writer_session x p app buf n = [WriterNew x p (Some app), WriterWriteAsync x buf n None, WriterWait x, WriterDelete x]"

definition append_twice ::
  "'o \<Rightarrow> 'o \<Rightarrow> path \<Rightarrow> bool \<Rightarrow> addr \<Rightarrow> 64 word \<Rightarrow> addr \<Rightarrow> 64 word \<Rightarrow> 'o writer_call list" where
  "append_twice a b p app bufA nA bufB nB = writer_session a p app bufA nA @ writer_session b p app bufB nB"

section \<open>Lemmas\<close>

lemma run_calls_Cons_Inr:
  "step c s = Some (Inr x, s') \<Longrightarrow>
   run_calls step (c # cs) s = map_option (\<lambda>(r, s''). (map_sum id (Cons x) r, s'')) (run_calls step cs s')"
  by (auto split: option.splits sum.splits)

lemma run_calls_append:
  "run_calls step cs1 s = Some (Inr xs, s') \<Longrightarrow> run_calls step cs2 s' = Some (Inr ys, s'') \<Longrightarrow>
   run_calls step (cs1 @ cs2) s = Some (Inr (xs @ ys), s'')"
  by (induction cs1 arbitrary: s xs) (auto split: option.splits sum.splits)

text \<open>A write and its wait, as two calls of a program.\<close>

lemma run_write_wait:
  assumes "objs x = Some w" "writer_write_once w buf n 0 k = Some (Inr (), w', k')"
  shows "run_calls writer_exec (WriterWriteAsync x buf n None # WriterWait x # cs) (objs, k) =
           map_option (\<lambda>(r, s). (map_sum id (\<lambda>xs. RetUnit # RetUnit # xs) r, s))
             (run_calls writer_exec cs (objs(x \<mapsto> w'), k'))"
proof -
  obtain r1 w1 k1 where wa: "writer_writeAsync w buf n 0 k = (r1, w1, k1)" by (metis prod.collapse)
  have r1: "r1 = Inr ()" and wt: "writer_wait w1 k1 = Some (Inr (), k')" and w1: "w1 = w'"
    using assms(2) wa by (auto simp: writer_write_once_def split: sum.splits)
  have "writer_exec (WriterWriteAsync x buf n None) (objs, k) = Some (Inr RetUnit, objs(x \<mapsto> w'), k1)"
    using assms(1) wa r1 w1 by (simp add: writer_exec_def)
  moreover have "writer_exec (WriterWait x) (objs(x \<mapsto> w'), k1) = Some (Inr RetUnit, objs(x \<mapsto> w'), k')"
    using wt w1 by (simp add: writer_exec_def)
  ultimately show ?thesis
    by (simp split: option.splits sum.splits)
qed

text \<open>
  One writer session on a path that may be opened: the four calls return normally, the
  file holds its old contents (in append mode; nothing otherwise) followed by the block,
  and every descriptor and io\_uring instance the session acquired is released.
\<close>

lemma writer_session_run:
  assumes "p \<notin> k_denied k" "0 < k_ring_quota k" "k_heap k buf = Some b" "0 < unat n" "unat n \<le> length b"
    and "unat n \<le> MAX_RW_COUNT" "(if app then length (contents_of k p) else 0) + unat n \<le> k_fsize_limit k"
  shows "\<exists>objs' k'. run_calls writer_exec (writer_session x p app buf n) (objs, k) =
             Some (Inr [RetUnit, RetUnit, RetUnit, RetUnit], objs', k') \<and>
           contents_of k' p = (if app then contents_of k p else []) @ take (unat n) b \<and>
           k_heap k' = k_heap k \<and> k_denied k' = k_denied k \<and> k_ring_quota k' = k_ring_quota k \<and>
           n_open k' = n_open k \<and> k_faults k' = k_faults k \<and> k_fsize_limit k' = k_fsize_limit k"
proof -
  obtain w k1 where c: "writer_ctor p app k = (Inr w, k1)" and ok: "writer_ok w k1"
    and f: "file_of k1 (w_fd w) = Some \<lparr>of_path = p, of_read = False, of_write = True, of_append = app, of_pos = 0\<rparr>"
    and fs: "k_files k1 = (k_files k)(p \<mapsto> (if app then contents_of k p else []))" and h: "k_heap k1 = k_heap k"
    and q: "n_open k1 = n_open k + 2" "k_ring_quota k1 = k_ring_quota k - 1" "k_faults k1 = k_faults k"
    and lim: "k_fsize_limit k1 = k_fsize_limit k" and den: "k_denied k1 = k_denied k"
    using writer_ctor_ok [OF assms(1,2), of app] by blast
  define c1 where "c1 = (if app then contents_of k p else [])"
  define w' where "w' = w\<lparr>w_buffer := buf, w_buffer_size := n\<rparr>"
  define k2 where "k2 = k1\<lparr>k_files := (k_files k1)(p \<mapsto> c1 @ take (unat n) b)\<rparr>"
  have cont1: "contents_of k1 p = c1" using fs by (simp add: contents_of_def c1_def)
  have small: "unat n mod 2 ^ 32 = unat n" using assms(6) by simp
  have wo: "writer_write_once w buf n 0 k1 = Some (Inr (), w', k2)"
  proof (cases app)
    case True
    have m: "min (min (unat n) MAX_RW_COUNT) (k_fsize_limit k1 - length c1) = unat n"
      using assms(6,7) True lim by (simp add: c1_def)
    show ?thesis
      using writer_write_append_file [OF ok f, of 0 buf b n] True assms(3-5,7) small m cont1 h lim
      by (simp add: w'_def k2_def c1_def)
  next
    case False
    have m: "min (min (unat n) MAX_RW_COUNT) (k_fsize_limit k1) = unat n"
      using assms(6,7) False lim by simp
    show ?thesis
      using writer_write_file [OF ok f, of 0 buf b n] False assms(3-5,7) small m cont1 h lim
      by (simp add: w'_def k2_def c1_def)
  qed
  have ok2: "writer_ok w' k2" using ok by (simp add: w'_def k2_def)
  note rel = writer_cleanup_releases [OF ok2] and cl = writer_cleanup_ok [OF ok2]
  have del: "run_calls writer_exec [WriterDelete x] (objs(x \<mapsto> w'), k2) =
               Some (Inr [RetUnit], objs(x := None), writer_dtor w' k2)"
    by (simp add: writer_exec_def)
  have "run_calls writer_exec (WriterWriteAsync x buf n None # WriterWait x # [WriterDelete x]) (objs(x \<mapsto> w), k1) =
          Some (Inr [RetUnit, RetUnit, RetUnit], objs(x := None), writer_dtor w' k2)"
    using run_write_wait [of "objs(x \<mapsto> w)" x w buf n k1 w' k2 "[WriterDelete x]"] wo del by simp
  moreover have "writer_exec (WriterNew x p (Some app)) (objs, k) = Some (Inr RetUnit, objs(x \<mapsto> w), k1)"
    using c by (simp add: writer_exec_def)
  ultimately have run: "run_calls writer_exec (writer_session x p app buf n) (objs, k) =
          Some (Inr [RetUnit, RetUnit, RetUnit, RetUnit], objs(x := None), writer_dtor w' k2)"
    by (simp add: writer_session_def)
  have "contents_of (writer_dtor w' k2) p = c1 @ take (unat n) b"
    using rel(3) by (simp add: writer_dtor_def contents_of_def k2_def)
  moreover have "n_open (writer_dtor w' k2) = n_open k" using rel(1) q(1) by (simp add: writer_dtor_def k2_def n_open_def)
  moreover have "k_ring_quota (writer_dtor w' k2) = k_ring_quota k" using cl q(2) assms(2) by (simp add: writer_dtor_def k2_def)
  ultimately show ?thesis
    using run rel(2) cl h den lim q(3) by (simp add: writer_dtor_def k2_def c1_def)
qed

section \<open>Properties\<close>

text \<open>C33. Move safety on Linux, at the level of a program (specification, section 8): constructing a reader, move-constructing a second one from it and destroying the source returns normally, and leaves the destination holding a live file and buffer but an io\_uring instance that the source's destructor has released (\<open>io_uring_queue_exit\<close> on the descriptor both objects name). The destination's \<open>readAsync\<close> then uses the released instance (its \<open>io_uring_get_sqe(&ring_)\<close>): that use, undefined behaviour in liburing, is logged. What the model does after it is one arbitrary outcome of it and is not part of the claim.\<close>

theorem reader_move_then_read_stale_ring:
  assumes "a \<noteq> b" "p \<notin> k_denied k" "k_files k p = Some c" "0 < k_ring_quota k"
    and "4096 \<le> k_heap_quota k" "0 < k_next_addr k"
  shows "\<exists>objs' k' rb. run_calls reader_exec (take 3 (move_then_read a b p)) (objs, k) =
             Some (Inr [RetUnit, RetUnit, RetUnit], objs', k') \<and>
           objs' a = None \<and> objs' b = Some rb \<and> ring_of k' (r_ring rb) = None \<and>
           file_of k' (r_fd rb) \<noteq> None \<and> k_heap k' (r_buffer rb) \<noteq> None \<and>
           (\<exists>res objs'' k''. run_calls reader_exec (move_then_read a b p) (objs, k) = Some (res, objs'', k'') \<and>
              StaleRingUse (r_ring rb) \<in> set (k_faults k''))"
proof -
  obtain r k1 where c: "reader_ctor p 4096 k = (Inr r, k1)" and ok: "reader_ok r k1"
    using reader_ctor_ok [OF assms(2,3,4), of 4096] assms(5,6) by auto
  obtain f b0 rg where f: "file_of k1 (r_fd r) = Some f" and b0: "k_heap k1 (r_buffer r) = Some b0"
    using ok by (auto elim!: reader_okD)
  obtain dst src where mv: "reader_move r = (dst, src)" by fastforce
  have dst: "dst = r" using mv by (simp add: reader_move_eq)
  define k2 where "k2 = reader_dtor src k1"
  note gone = reader_move_source_dtor [OF ok mv]
  have ra: "reader_readAsync r 0 k2 = (Inl SqeUnavailable, log_fault (StaleRingUse (r_ring r)) k2)"
    using gone dst by (simp add: k2_def reader_readAsync_def io_uring_get_sqe_def)
  have pre: "run_calls reader_exec (take 3 (move_then_read a b p)) (objs, k) =
               Some (Inr [RetUnit, RetUnit, RetUnit], (objs(a \<mapsto> r))(a \<mapsto> src, b \<mapsto> r, a := None), k2)"
    using c mv dst assms(1) by (simp add: move_then_read_def reader_exec_def k2_def)
  have all: "run_calls reader_exec (move_then_read a b p) (objs, k) =
               Some (Inl SqeUnavailable, (objs(a \<mapsto> r))(a \<mapsto> src, b \<mapsto> r, a := None), log_fault (StaleRingUse (r_ring r)) k2)"
    using c mv ra assms(1) dst by (simp add: move_then_read_def reader_exec_def k2_def)
  show ?thesis
    using pre all gone dst f b0 assms(1) by (auto simp: k2_def log_fault_def)
qed

text \<open>C35. Move safety on Windows, at the level of a program (specification, section 8): after constructing a reader on a non-empty file, move-constructing a second one from it and destroying the source, the destination reads with the default offset and buffer: the view holds the first 4096 bytes of the file, and the destination stays usable.\<close>

theorem winreader_move_then_read:
  assumes "a \<noteq> b" "p \<notin> ws_denied ws" "\<not> share_conflict p GENERIC_READ FILE_SHARE_READ ws"
    and "ws_files ws p = Some c" "c \<noteq> []" "4096 \<le> ws_heap_quota ws" "0 < ws_event_quota ws" "0 < ws_next_addr ws"
  shows "\<exists>v objs' ws'. run_calls winreader_exec (move_then_read a b p) (objs, ws) =
           Some (Inr [RetUnit, RetUnit, RetUnit, RetUnit, RetView v], objs', ws') \<and>
           wsv_bytes ws' v = Some (take 4096 c) \<and>
           (\<exists>r'. objs' b = Some r' \<and> winreader_ok r' ws')"
proof -
  obtain r ws1 where cr: "winreader_ctor p 4096 ws = (Inr r, ws1)" and ok: "winreader_ok r ws1"
    and sz: "wr_buffer_size r = 4096"
    and f: "wfile_of ws1 (wr_hFile r) = Some \<lparr>hf_path = p, hf_access = GENERIC_READ, hf_share = FILE_SHARE_READ\<rparr>"
    and files: "ws_files ws1 = ws_files ws"
    using winreader_ctor_ok [OF assms(2,3,4), of 4096] assms(6-8) by auto
  obtain src where mv: "winreader_move r = (r, src)" and del: "winreader_dtor src ws1 = ws1"
    using winreader_move_source_dtor [of r ws1] by (cases "winreader_move r") auto
  have cont: "wcontents ws1 p = c" using files assms(4) by (simp add: wcontents_def)
  obtain ws' where rd: "winreader_read_once r 0 ws1 =
      Some (Inr \<lparr>sv_ptr = wr_buffer r, sv_len = length (take 4096 c)\<rparr>,
            r\<lparr>wr_ov := (ov_split 0 (wr_ov r))\<lparr>ov_Internal := 0, ov_InternalHigh := length (take 4096 c)\<rparr>\<rparr>, ws')"
    and heap: "ws_heap ws' = (ws_heap ws1)(wr_buffer r \<mapsto> take 4096 c @ drop (length (take 4096 c)) (the (ws_heap ws1 (wr_buffer r))))"
    and ok': "winreader_ok (r\<lparr>wr_ov := (ov_split 0 (wr_ov r))\<lparr>ov_Internal := 0, ov_InternalHigh := length (take 4096 c)\<rparr>\<rparr>) ws'"
    using winreader_read_file [OF ok f, of 0 "take 4096 c"] sz cont assms(5)
    by (auto simp: read_at_def)
  obtain r1 ws2 where ra: "winreader_readAsync r 0 ws1 = (Inr (), r1, ws2)"
    using winreader_readAsync_ok [OF ok, of 0] by simp
  have wt: "winreader_waitAndGetResult r1 ws2 =
      Some (Inr \<lparr>sv_ptr = wr_buffer r, sv_len = length (take 4096 c)\<rparr>,
            r\<lparr>wr_ov := (ov_split 0 (wr_ov r))\<lparr>ov_Internal := 0, ov_InternalHigh := length (take 4096 c)\<rparr>\<rparr>, ws')"
    using rd ra by (simp add: winreader_read_once_def)
  have bytes: "wsv_bytes ws' \<lparr>sv_ptr = wr_buffer r, sv_len = length (take 4096 c)\<rparr> = Some (take 4096 c)"
    using heap by (simp add: wsv_bytes_def min_def)
  show ?thesis
    using cr mv del ra wt bytes ok' assms(1)
    by (auto simp: move_then_read_def winreader_exec_def)
qed

text \<open>C12. Append semantics on Linux, at the level of a program (specification, section 8): two writers constructed one after the other on the same path with the same \<open>append\<close> flag, each writing one block at the default offset, waiting and being destroyed, leave the file holding the old contents, the first block and the second block when \<open>append = true\<close>, and only the second block when \<open>append = false\<close> (the second constructor truncates). Every call returns normally, and the descriptors and io\_uring instances are all given back.\<close>

theorem writer_append_semantics:
  assumes "p \<notin> k_denied k" "0 < k_ring_quota k"
    and "k_heap k bufA = Some A" "0 < unat nA" "unat nA \<le> length A" "unat nA \<le> MAX_RW_COUNT"
    and "k_heap k bufB = Some B" "0 < unat nB" "unat nB \<le> length B" "unat nB \<le> MAX_RW_COUNT"
    and "length (contents_of k p) + unat nA + unat nB \<le> k_fsize_limit k"
  shows "\<exists>objs' k'. run_calls writer_exec (append_twice a b p app bufA nA bufB nB) (objs, k) =
             Some (Inr [RetUnit, RetUnit, RetUnit, RetUnit, RetUnit, RetUnit, RetUnit, RetUnit], objs', k') \<and>
           contents_of k' p =
             (if app then contents_of k p @ take (unat nA) A @ take (unat nB) B else take (unat nB) B) \<and>
           n_open k' = n_open k \<and> k_ring_quota k' = k_ring_quota k \<and> k_faults k' = k_faults k"
proof -
  have fitA: "(if app then length (contents_of k p) else 0) + unat nA \<le> k_fsize_limit k" using assms(11) by auto
  obtain objs1 k1 where s1: "run_calls writer_exec (writer_session a p app bufA nA) (objs, k) =
             Some (Inr [RetUnit, RetUnit, RetUnit, RetUnit], objs1, k1)"
    and c1: "contents_of k1 p = (if app then contents_of k p else []) @ take (unat nA) A"
    and e1: "k_heap k1 = k_heap k" "k_denied k1 = k_denied k" "k_ring_quota k1 = k_ring_quota k"
      "n_open k1 = n_open k" "k_faults k1 = k_faults k" "k_fsize_limit k1 = k_fsize_limit k"
    using writer_session_run [OF assms(1-6) fitA, where x = a and objs = objs] by blast
  have fitB: "(if app then length (contents_of k1 p) else 0) + unat nB \<le> k_fsize_limit k1"
    using assms(5,11) c1 e1(6) by auto
  have h1: "p \<notin> k_denied k1" "0 < k_ring_quota k1" "k_heap k1 bufB = Some B"
    using assms(1,2,7) e1 by simp_all
  obtain objs2 k2 where s2: "run_calls writer_exec (writer_session b p app bufB nB) (objs1, k1) =
             Some (Inr [RetUnit, RetUnit, RetUnit, RetUnit], objs2, k2)"
    and c2: "contents_of k2 p = (if app then contents_of k1 p else []) @ take (unat nB) B"
    and e2: "k_ring_quota k2 = k_ring_quota k1" "n_open k2 = n_open k1" "k_faults k2 = k_faults k1"
    using writer_session_run [OF h1 assms(8-10) fitB, where x = b and objs = objs1] by blast
  show ?thesis
    using run_calls_append [OF s1 s2] c1 c2 e1 e2 by (simp add: append_twice_def)
qed

end
