(* ===== verification/Scenarios.thy ===== *)
theory Scenarios
  imports Demo_Main Refine_Linux Refine_Win32 Interface
begin

text \<open>
  Concrete kernel states on which the properties are applied: a state with one readable
  file \<open>test.txt\<close> holding the bytes of \<open>Hi!\<close>, a refused path, three descriptors
  already open (standard input, output and error), a quota of four io\_uring instances
  and a file-size limit of 1 MiB; and the objects the constructors build on it. The facts
  below evaluate the model on these states by \<open>simp\<close>.
\<close>

section \<open>Scenarios\<close>

definition tty :: ofile where
  "tty = \<lparr>of_path = ''/dev/tty'', of_read = True, of_write = True, of_append = False, of_pos = 0\<rparr>"

text \<open>A process with its three standard descriptors and one file, \<open>test.txt\<close>, holding \<open>Hi!\<close>.\<close>

definition k_demo :: kstate where
  "k_demo = \<lparr>k_files = [''test.txt'' \<mapsto> [72, 105, 33]], k_denied = {''/etc/shadow''},
     k_fdt = [Some (FFile tty), Some (FFile tty), Some (FFile tty)], k_ring_quota = 4,
     k_heap = Map.empty, k_next_addr = 1, k_heap_quota = 65536, k_junk = 170,
     k_fsize_limit = 1048576, k_faults = []\<rparr>"

definition r_demo :: reader where
  "r_demo = \<lparr>r_fd = 3, r_buffer = 1, r_buffer_size = 16, r_ring = 4\<rparr>"

definition k_rdemo :: kstate where
  "k_rdemo = snd (reader_ctor ''test.txt'' 16 k_demo)"

definition r_demo2 :: reader where
  "r_demo2 = \<lparr>r_fd = 3, r_buffer = 1, r_buffer_size = 2, r_ring = 4\<rparr>"

definition k_rdemo2 :: kstate where
  "k_rdemo2 = snd (reader_ctor ''test.txt'' 2 k_demo)"

definition r_big :: reader where
  "r_big = \<lparr>r_fd = 3, r_buffer = 1, r_buffer_size = 4294967298, r_ring = 4\<rparr>"

definition k_rbig :: kstate where
  "k_rbig = snd (reader_ctor ''test.txt'' 4294967298 (k_demo\<lparr>k_heap_quota := 8589934592\<rparr>))"

definition w_demo :: writer where
  "w_demo = \<lparr>w_fd = 3, w_buffer = 0, w_buffer_size = 0, w_ring = 4\<rparr>"

text \<open>
  After \<open>AsyncFileWriter writer("out.txt")\<close> on \<open>k_demo\<close>, with the caller's data, the
  three bytes of \<open>Hi!\<close>, in a block at address 1.
\<close>

definition k_wdemo :: kstate where
  "k_wdemo = (snd (writer_ctor ''out.txt'' False k_demo))\<lparr>k_heap := [1 \<mapsto> [72, 105, 33]], k_next_addr := 2\<rparr>"

text \<open>\<open>k_demo\<close> with the caller's data block at address 1.\<close>

definition k_demo1 :: kstate where
  "k_demo1 = k_demo\<lparr>k_heap := [1 \<mapsto> [72, 105, 33]], k_next_addr := 2\<rparr>"

text \<open>The test string of \<open>src/examples/main.cpp\<close>, as bytes, in a block at address 1.\<close>

definition test_data :: bytes where
  "test_data = map (\<lambda>c. of_nat (of_char c)) ''Hello, Async World! This is a test to verify integrity.''"

definition k_main :: kstate where
  "k_main = k_demo\<lparr>k_heap := [1 \<mapsto> test_data], k_next_addr := 2\<rparr>"

text \<open>
  A Windows state: \<open>test.txt\<close> holding \<open>Hi!\<close>, a refused path, no handle open, four
  event slots, an allocator that fills new blocks with 0xCD (as the debug heap of MSVC).
\<close>

definition ws_demo :: wstate where
  "ws_demo = \<lparr>ws_files = [''test.txt'' \<mapsto> [72, 105, 33]], ws_denied = {''secret.txt''},
     ws_handles = [], ws_event_quota = 4, ws_pending = [], ws_heap = Map.empty, ws_next_addr = 1,
     ws_heap_quota = 65536, ws_junk = 205, ws_fsize_limit = 1048576, ws_last_error = 0, ws_faults = []\<rparr>"

definition wr_demo :: winreader where
  "wr_demo = \<lparr>wr_hFile = 4, wr_buffer = 1, wr_buffer_size = 16, wr_ov = ov_zero\<lparr>ov_hEvent := 8\<rparr>\<rparr>"

definition ws_rdemo :: wstate where
  "ws_rdemo = snd (winreader_ctor ''test.txt'' 16 ws_demo)"

definition ww_demo :: winwriter where
  "ww_demo = \<lparr>ww_hFile = 4, ww_buffer = 0, ww_buffer_size = 0, ww_ov = ov_zero\<lparr>ov_hEvent := 8\<rparr>\<rparr>"

text \<open>After \<open>AsyncFileWriter writer("out.txt")\<close> on \<open>ws_demo\<close>, with \<open>Hi!\<close> at address 1.\<close>

definition ws_wdemo :: wstate where
  "ws_wdemo = (snd (winwriter_ctor ''out.txt'' False ws_demo))\<lparr>ws_heap := [1 \<mapsto> [72, 105, 33]], ws_next_addr := 2\<rparr>"

text \<open>\<open>ws_demo\<close> with the single byte \<open>A\<close> at address 1.\<close>

definition ws_demo1 :: wstate where
  "ws_demo1 = ws_demo\<lparr>ws_heap := [1 \<mapsto> [65]], ws_next_addr := 2\<rparr>"

section \<open>Facts about the scenarios\<close>

lemma reader_demo_ctor: "reader_ctor ''test.txt'' 16 k_demo = (Inr r_demo, k_rdemo)"
  by (simp add: k_rdemo_def reader_ctor_def kernel_eval k_demo_def r_demo_def tty_def prod_eq_iff)

lemma reader_demo_ok: "reader_ok r_demo k_rdemo"
  by (simp add: k_rdemo_def reader_ctor_def reader_ok_def kernel_eval k_demo_def r_demo_def tty_def)

lemma reader_demo2_ok: "reader_ok r_demo2 k_rdemo2"
  by (simp add: k_rdemo2_def reader_ctor_def reader_ok_def kernel_eval k_demo_def r_demo2_def tty_def)

lemma reader_demo_file: "file_of k_rdemo 3 = Some \<lparr>of_path = ''test.txt'', of_read = True, of_write = False, of_append = False, of_pos = 0\<rparr>"
  by (simp add: k_rdemo_def reader_ctor_def kernel_eval k_demo_def tty_def)

lemma reader_demo2_file: "file_of k_rdemo2 3 = Some \<lparr>of_path = ''test.txt'', of_read = True, of_write = False, of_append = False, of_pos = 0\<rparr>"
  by (simp add: k_rdemo2_def reader_ctor_def kernel_eval k_demo_def tty_def)

lemma reader_demo_contents: "contents_of k_rdemo ''test.txt'' = [72, 105, 33]" "contents_of k_rdemo2 ''test.txt'' = [72, 105, 33]"
  by (simp_all add: k_rdemo_def k_rdemo2_def reader_ctor_def kernel_eval k_demo_def tty_def)

lemma reader_big_ok: "reader_ok r_big k_rbig"
  by (simp add: k_rbig_def reader_ctor_def reader_ok_def kernel_eval k_demo_def r_big_def tty_def)

lemma reader_big_file: "file_of k_rbig (r_fd r_big) = Some \<lparr>of_path = ''test.txt'', of_read = True, of_write = False, of_append = False, of_pos = 0\<rparr>"
  by (simp add: k_rbig_def r_big_def reader_ctor_def kernel_eval k_demo_def tty_def)

lemma reader_big_contents: "contents_of k_rbig ''test.txt'' = [72, 105, 33]"
  by (simp add: k_rbig_def reader_ctor_def kernel_eval k_demo_def tty_def)

lemma writer_demo_ctor:
  "writer_ctor ''out.txt'' False k_demo = (Inr w_demo, snd (writer_ctor ''out.txt'' False k_demo))"
  by (simp add: writer_ctor_def writer_flags_def kernel_eval k_demo_def w_demo_def tty_def)

lemma writer_demo_ok: "writer_ok w_demo k_wdemo"
  by (simp add: k_wdemo_def writer_ctor_def writer_flags_def writer_ok_def kernel_eval
      k_demo_def w_demo_def tty_def)

lemma writer_demo_file:
  "file_of k_wdemo (w_fd w_demo) = Some \<lparr>of_path = ''out.txt'', of_read = False, of_write = True, of_append = False, of_pos = 0\<rparr>"
  by (simp add: k_wdemo_def writer_ctor_def writer_flags_def kernel_eval k_demo_def w_demo_def tty_def)

lemma writer_demo_contents:
  "contents_of k_wdemo ''out.txt'' = []" "k_heap k_wdemo 1 = Some [72, 105, 33]"
  "k_fsize_limit k_wdemo = 1048576"
  by (simp_all add: k_wdemo_def writer_ctor_def writer_flags_def kernel_eval k_demo_def tty_def)

lemma test_data_length: "length test_data = 55"
  by (simp add: test_data_def)

lemmas win_eval = CreateFile_def alloc_handle_def fresh_handle_def share_conflict_def new_array_def
  CreateEvent_def CloseHandle_def handle_obj_def wfile_of_def wcontents_def ov_zero_def

lemma winreader_demo_ctor: "winreader_ctor ''test.txt'' 16 ws_demo = (Inr wr_demo, ws_rdemo)"
  by (simp add: ws_rdemo_def winreader_ctor_def win_eval ws_demo_def wr_demo_def)

lemma winreader_demo_ok: "winreader_ok wr_demo ws_rdemo"
  by (simp add: ws_rdemo_def winreader_ctor_def winreader_ok_def win_eval ws_demo_def wr_demo_def)

lemma winreader_demo_file:
  "wfile_of ws_rdemo (wr_hFile wr_demo) = Some \<lparr>hf_path = ''test.txt'', hf_access = GENERIC_READ, hf_share = FILE_SHARE_READ\<rparr>"
  "wcontents ws_rdemo ''test.txt'' = [72, 105, 33]"
  by (simp_all add: ws_rdemo_def winreader_ctor_def win_eval ws_demo_def wr_demo_def)

lemma winwriter_demo_ok: "winwriter_ok ww_demo ws_wdemo"
  by (simp add: ws_wdemo_def winwriter_ctor_def winwriter_ok_def win_eval ws_demo_def ww_demo_def)

lemma winwriter_demo_file:
  "wfile_of ws_wdemo (ww_hFile ww_demo) = Some \<lparr>hf_path = ''out.txt'', hf_access = GENERIC_WRITE, hf_share = 0\<rparr>"
  "wcontents ws_wdemo ''out.txt'' = []" "ws_heap ws_wdemo 1 = Some [72, 105, 33]" "ws_fsize_limit ws_wdemo = 1048576"
  by (simp_all add: ws_wdemo_def winwriter_ctor_def win_eval ws_demo_def ww_demo_def)

lemma winwriter_demo_ctor:
  "winwriter_ctor ''test.txt'' True ws_demo1 = (Inr ww_demo, snd (winwriter_ctor ''test.txt'' True ws_demo1))"
  by (simp add: winwriter_ctor_def win_eval ws_demo1_def ws_demo_def ww_demo_def)

end
