(* ===== verification/Spec2Isabelle.thy ===== *)
theory Spec2Isabelle
  imports Scenarios
begin

text \<open>
  \<^bold>\<open>AsyncFile: a verification development.\<close>

  The repository provides two classes, \<open>AsyncFileReader\<close> and \<open>AsyncFileWriter\<close>
  (\<open>src/include/AsyncFile/*.hpp\<close>, \<open>src/src/*.cpp\<close>), each with two backends selected
  at build time: io\_uring on Linux, overlapped handles with an event on Windows. An object
  opens its file and its completion context in its constructor, submits one request
  (\<open>readAsync\<close>, \<open>writeAsync\<close>), blocks until its completion (\<open>waitAndGetResult\<close>,
  \<open>wait\<close>), and releases everything in its destructor; objects are move-only.

  \<^bold>\<open>Theories.\<close>
  \<^item> \<open>AF_Base\<close>: bytes, paths, addresses; the byte slices a positional read or write
    acts on (\<open>read_at\<close>, \<open>write_at\<close>); the descriptor table with lowest-free-slot
    allocation (\<open>tbl_install\<close>) and its occupancy count; the exceptions the library
    throws (\<open>exn\<close>, one constructor per throw site, \<open>what\<close> its message).
  \<^item> \<open>Linux_Kernel\<close>: the environment of the Linux backend, which is not code of the
    repository: POSIX \<open>open\<close>/\<open>close\<close>, \<open>aligned_alloc\<close>/\<open>free\<close>/\<open>memset\<close>, and the
    liburing calls, over an explicit kernel state \<open>kstate\<close> (file contents, descriptor
    table holding files and io\_uring instances, heap of blocks, quotas, and a log of
    undefined-behaviour events). The kernel executes a submitted request in a step of its
    own. Lemmas: the io\_uring calls on a known instance, one request through an idle
    instance, what a read or a write does to a file and to user memory, frame lemmas.
  \<^item> \<open>Reader_Linux\<close>: the Linux \<open>AsyncFileReader\<close>: record \<open>reader\<close> (\<open>fd_\<close>,
    \<open>buffer_\<close>, \<open>buffer_size_\<close>, \<open>ring_\<close>), \<open>reader_cleanup\<close>, \<open>reader_ctor\<close>,
    \<open>reader_move\<close> (move constructor), \<open>reader_move_assign\<close> (over a store of objects,
    since it compares addresses), \<open>reader_readAsync\<close>, \<open>reader_waitAndGetResult\<close>,
    \<open>reader_dtor\<close>; the invariant \<open>reader_ok\<close>; and the properties: one submit and
    one wait perform exactly one positional read (\<open>reader_cycle\<close>), short reads and
    end of file, the bound on the view, the constructor's outcomes (open failure leaves
    nothing behind; the later failures leak what was acquired), resource balance of
    construction and destruction, and what the move constructor does to the shared
    io\_uring instance.
  \<^item> \<open>Writer_Linux\<close>: the Linux \<open>AsyncFileWriter\<close> in the same way: record \<open>writer\<close>,
    \<open>writer_flags\<close> (the \<open>open\<close> flags, decoded bitwise by \<open>sys_open\<close>),
    \<open>writer_ctor\<close>, \<open>writer_move\<close>, \<open>writer_move_assign\<close>, \<open>writer_writeAsync\<close>
    (which stores the borrowed pointer and size before it can throw), \<open>writer_wait\<close>,
    \<open>writer_dtor\<close>; the invariant \<open>writer_ok\<close>; and the properties: a write puts
    exactly its bytes at its offset, or at the end of the file in append mode; a write
    cut short at the file-size limit, or by the 32-bit truncation of the size, is still
    reported as a success; the kernel's refusals (\<open>EFBIG\<close>, \<open>EFAULT\<close>) become the
    write failure; the constructor truncates or keeps the file and leaks its descriptor
    when the io\_uring instance cannot be created; resource balance; the move bug.
  \<^item> \<open>Win32_Kernel\<close>: the environment of the Windows backend, not code of the
    repository: \<open>CreateFile\<close> with its dispositions and sharing check, \<open>CloseHandle\<close>,
    manual-reset events, \<open>new char[]\<close>/\<open>delete[]\<close>, and overlapped
    \<open>ReadFile\<close>/\<open>WriteFile\<close>: a started operation is recorded under the event of its
    \<open>OVERLAPPED\<close> and executed by the \<open>GetOverlappedResult\<close> that waits for it
    (\<open>w_exec\<close>), which writes status and count into \<open>Internal\<close>/\<open>InternalHigh\<close>.
    It also holds \<open>ov_split\<close>, the offset split both Windows classes perform, with its
    word-level round trip (\<open>ov_split_pos\<close>), and the lemma that one started operation
    waited for is executed exactly once (\<open>overlapped_cycle\<close>).
  \<^item> \<open>Reader_Win32\<close>: the Windows \<open>AsyncFileReader\<close>: record \<open>winreader\<close>
    (\<open>hFile_\<close>, \<open>buffer_\<close>, \<open>buffer_size_\<close>, \<open>overlapped_\<close>), its constructor,
    \<open>cleanup\<close>, destructor, moves, \<open>readAsync\<close> (offset split, \<open>DWORD\<close> cast of the size)
    and \<open>waitAndGetResult\<close>; the invariant \<open>winreader_ok\<close>; and the properties: a read
    before the end of the file returns the file's bytes, a read at the end throws
    (where the spec and the Linux backend return an empty view), the constructor's leaks (the buffer when \<open>CreateEvent\<close> fails, the handle when
    \<open>new\<close> throws) and its uninitialised buffer, the safe move, the immediate empty
    result of a wait with nothing started, and resource balance.
  \<^item> \<open>Writer_Win32\<close>: the Windows \<open>AsyncFileWriter\<close> in the same way (record
    \<open>winwriter\<close>, constructor with \<open>CREATE_ALWAYS\<close> or \<open>OPEN_ALWAYS\<close> and no sharing,
    \<open>cleanup\<close>, moves, \<open>writeAsync\<close>, \<open>wait\<close>); its properties: a write puts its bytes
    at its 64-bit offset, \<open>append = true\<close> overwrites the start of the file instead of
    appending, the constructor truncates or keeps the file, and an open writer makes
    the construction of a reader on the same file fail (the one property relating the
    two Windows classes).
  \<^item> \<open>Demo_Main\<close>: the demonstration program \<open>src/examples/main.cpp\<close> as the
    composition of its writing scope (\<open>demo_write\<close>), its reading scope
    (\<open>demo_read\<close>, which copies the view into a string) and the comparison
    (\<open>demo_main\<close>); destructors run at scope exit, also on unwinding. Its property is
    the end-to-end round trip: the program prints SUCCESS exactly when the test string
    fits the reader's default buffer of 4096 bytes, and gives back every resource.
  \<^item> \<open>Op_Spec\<close>: the abstract contract of one operation object from the specification
    (sections 4.1 to 4.3 and 7), independent of either backend: the state machine
    \<open>Idle \<rightarrow> Submitted \<rightarrow> (Completed | Failed) \<rightarrow> Idle\<close> as the inductive step relations
    \<open>read_spec\<close> (a result is at most \<open>bufferSize\<close> bytes that are the file's bytes from
    the offset; a read at or past the end of the file does not fail, so its only result
    is the empty view) and \<open>write_spec\<close> (a successful wait means all the bytes were written,
    at the offset or, in append mode, at the end), with their traces.
  \<^item> \<open>Refine_Linux\<close> and \<open>Refine_Win32\<close>: the refinement of the read contract by each
    backend's reader. The events a caller observes on one reader are a step relation
    (\<open>reader_step\<close>, \<open>winreader_step\<close>) over the concrete states, guarded by the
    caller's side of the contract (submit only when nothing is pending; on Windows, wait
    only for a submitted read, since a wait with nothing submitted returns at once). An
    abstraction function (\<open>reader_phase\<close>: the io\_uring instance holds a read in flight;
    \<open>winreader_phase\<close>: the \<open>OVERLAPPED\<close> is pending, at the offset its words
    recombine to) maps each concrete state to a phase of the contract. The refinement
    theorems show by rule induction on the trace, with the invariant "usable, or exactly
    one read pending", that every concrete trace from a usable reader is a trace of
    \<open>read_spec\<close> for the reader's buffer size and the file's contents. The Linux
    reader needs no hypothesis; the Windows reader refines the contract on the traces
    whose reads start before the end of the file (\<open>reads_before_eof\<close>), since at
    the end it throws (\<open>winreader_read_at_eof_fails\<close>).
    \<open>Refine_Linux\<close> also refines \<open>write_spec\<close> by the Linux writer opened without
    \<open>append\<close>: the caller lends a block that holds the bytes, and the theorem assumes
    (\<open>writes_fit\<close>) that every write fits the kernel's cap \<open>MAX_RW_COUNT\<close> and the
    file-size limit, the two conditions under which the code would otherwise report a
    short write as a success. \<open>Refine_Win32\<close> refines \<open>write_spec\<close> by the Windows
    writer in the same way; its hypothesis (\<open>wwrites_fit\<close>) is only that each count fits
    the \<open>DWORD\<close> of \<open>WriteFile\<close>, because a Windows write that passes the size limit
    fails as a whole. For the writers the abstract state pairs the phase with the
    file's contents.
  \<^item> \<open>Interface\<close>: the public interface the two headers declare, shared by both
    backends: the calls of a program on named objects (\<open>reader_call\<close>, \<open>writer_call\<close>),
    with the default arguments (\<open>buffer_size = 4096\<close>, \<open>append = false\<close>,
    \<open>offset = 0\<close>) as optional ones and no call for the deleted copy operations; one
    dispatcher per backend and class (\<open>reader_exec\<close>, \<open>writer_exec\<close>,
    \<open>winreader_exec\<close>, \<open>winwriter_exec\<close>) over a store of objects; and
    \<open>run_calls\<close>, which runs a list of calls with either backend. Its properties are
    the move-safety scenario of the specification (section 8) as a program: on Linux
    the source's destructor releases the io\_uring instance the destination still
    names, whose next \<open>readAsync\<close> then uses it; on Windows the destination reads.
    The append scenario of the same section is a program of two writer sessions
    (\<open>append_twice\<close>): on Linux it leaves the old contents followed by both blocks
    with \<open>append = true\<close> and only the second block without it.
  \<^item> \<open>Scenarios\<close>: concrete kernel states and the objects built on them, evaluated by
    \<open>simp\<close>; this theory applies every property with hypotheses to them.

  \<^bold>\<open>Modelling choices.\<close> C++ exceptions are left values of a sum, paired with the kernel
  state at the throw (a constructor that throws runs no destructor). A wait that never
  returns is \<open>None\<close>. A \<open>size_t\<close> is a \<open>64 word\<close>, an \<open>off_t\<close> a \<open>64 word\<close> read by
  \<open>sint\<close>; the \<open>unsigned\<close> byte count of \<open>io_uring_prep_read\<close> and \<open>io_uring_prep_write\<close> is a \<open>32 word\<close>, so the
  truncation of \<open>buffer_size_\<close> is in the model. A \<open>std::string_view\<close> is a pointer and a
  length, read through the heap (\<open>sv_bytes\<close>), so that it sees later writes to the buffer
  and dies with it. The kernel's file-size limit gives short writes; its \<open>MAX_RW_COUNT\<close>
  caps one transfer. A liburing call on an io\_uring instance that has been released
  (\<open>io_uring_queue_exit\<close> already run) is undefined behaviour: the model records it in
  the kernel's fault log (\<open>StaleRingUse\<close>, \<open>StaleRingExit\<close>) and goes on with one of
  the outcomes it allows (no submission entry, \<open>-EBADF\<close>); the properties about such
  runs state the logged faults and nothing about what follows them.

  \<^bold>\<open>Not modelled.\<close> The timing and console output of \<open>src/examples/main.cpp\<close>;
  the test harness \<open>src/tests/\<close>, a client whose write-then-compare scenario is the
  writer's \<open>writer_write_full\<close> and whose timing assertions have no counterpart in a
  model without time. Alignment of the read buffer, file permissions
  beyond a set of refused paths, and the mode argument of \<open>open\<close> are not modelled.
  On Windows, an operation is executed when it is waited for: a synchronous completion
  of \<open>ReadFile\<close>/\<open>WriteFile\<close> leaves the same state, and the code treats both alike
  (a read at the end of the file may also fail in \<open>ReadFile\<close> itself, with
  \<open>ERROR_HANDLE_EOF\<close>: then \<open>readAsync\<close> throws instead of the wait, still an
  exception where the spec asks for an empty view);
  two submissions without a wait (a caller-contract violation in the spec) and the
  cancellation of pending I/O when a handle is closed are outside the model.
\<close>

section \<open>Witnesses of the reader's properties\<close>

theorem reader_ctor_open_failure_witness:
  "k_files k_demo ''missing.txt'' = None \<and>
   reader_ctor ''missing.txt'' 16 k_demo = (Inl (ReaderOpenFailed ''missing.txt''), k_demo)"
  using Reader_Linux.reader_ctor_open_failure [of "''missing.txt''" k_demo 16] by (simp add: k_demo_def)

theorem reader_ctor_ring_failure_witness:
  "''test.txt'' \<notin> k_denied (k_demo\<lparr>k_ring_quota := 0\<rparr>) \<and>
   k_files (k_demo\<lparr>k_ring_quota := 0\<rparr>) ''test.txt'' = Some [72, 105, 33] \<and>
   (\<exists>k'. reader_ctor ''test.txt'' 16 (k_demo\<lparr>k_ring_quota := 0\<rparr>) = (Inl RingInitFailed, k') \<and>
         n_open k' = Suc (n_open (k_demo\<lparr>k_ring_quota := 0\<rparr>)))"
  using Reader_Linux.reader_ctor_ring_failure [of "''test.txt''" "k_demo\<lparr>k_ring_quota := 0\<rparr>" "[72, 105, 33]" 16]
  by (simp add: k_demo_def)

theorem reader_ctor_alloc_failure_witness:
  "''test.txt'' \<notin> k_denied (k_demo\<lparr>k_heap_quota := 8\<rparr>) \<and>
   k_heap_quota (k_demo\<lparr>k_heap_quota := 8\<rparr>) < unat (16 :: 64 word) \<and>
   (\<exists>k'. reader_ctor ''test.txt'' 16 (k_demo\<lparr>k_heap_quota := 8\<rparr>) = (Inl BufferAllocFailed, k') \<and>
         n_open k' = n_open (k_demo\<lparr>k_heap_quota := 8\<rparr>) + 2 \<and> k_ring_quota k' = 3)"
  using Reader_Linux.reader_ctor_alloc_failure [of "''test.txt''" "k_demo\<lparr>k_heap_quota := 8\<rparr>" "[72, 105, 33]" 16]
  by (simp add: k_demo_def)

theorem reader_move_source_dtor_witness:
  "reader_ok r_demo k_rdemo \<and>
   ring_of (reader_dtor (r_demo\<lparr>r_fd := -1, r_buffer := 0\<rparr>) k_rdemo) 4 = None \<and>
   file_of (reader_dtor (r_demo\<lparr>r_fd := -1, r_buffer := 0\<rparr>) k_rdemo) 3 = file_of k_rdemo 3"
  using Reader_Linux.reader_move_source_dtor [OF reader_demo_ok,
      of r_demo "r_demo\<lparr>r_fd := -1, r_buffer := 0\<rparr>"] reader_demo_ok
  by (simp add: reader_move_eq r_demo_def)

theorem reader_move_double_release_witness:
  "reader_ok r_demo k_rdemo \<and>
   StaleRingExit 4 \<in> set (k_faults (reader_dtor r_demo
      (reader_dtor (r_demo\<lparr>r_fd := -1, r_buffer := 0\<rparr>) k_rdemo)))"
  using Reader_Linux.reader_move_double_release [OF reader_demo_ok,
      of r_demo "r_demo\<lparr>r_fd := -1, r_buffer := 0\<rparr>"] reader_demo_ok
  by (simp add: reader_move_eq r_demo_def)

theorem reader_wait_idle_blocks_witness:
  "ring_idle k_rdemo 4 \<and> reader_waitAndGetResult r_demo k_rdemo = None"
  using Reader_Linux.reader_wait_idle_blocks [of k_rdemo r_demo] reader_demo_ok
  by (simp add: reader_ok_def r_demo_def)

theorem reader_read_returns_witness:
  "ring_idle k_rdemo 4 \<and> (\<exists>res. reader_read_once r_demo 0 k_rdemo = Some res)"
  using Reader_Linux.reader_read_returns [of k_rdemo r_demo 0] reader_demo_ok
  by (simp add: reader_ok_def r_demo_def)

theorem reader_read_keeps_ok_witness:
  "reader_ok r_demo k_rdemo \<and> 0 \<le> sint (0 :: 64 word) \<and>
   (\<exists>v k'. reader_read_once r_demo 0 k_rdemo = Some (Inr v, k') \<and> reader_ok r_demo k')"
  using Reader_Linux.reader_read_keeps_ok [OF reader_demo_ok, of 0] reader_demo_ok by simp

theorem reader_short_read_witness:
  "reader_ok r_demo2 k_rdemo2 \<and>
   (\<exists>v k'. reader_read_once r_demo2 0 k_rdemo2 = Some (Inr v, k') \<and> sv_bytes k' v = Some [72, 105])"
proof -
  have f: "file_of k_rdemo2 (r_fd r_demo2) =
      Some \<lparr>of_path = ''test.txt'', of_read = True, of_write = False, of_append = False, of_pos = 0\<rparr>"
    using reader_demo2_file by (simp add: r_demo2_def)
  show ?thesis
    using Reader_Linux.reader_short_read [OF reader_demo2_ok f] reader_demo_contents reader_demo2_ok
    by (simp add: r_demo2_def)
qed

theorem reader_read_at_eof_witness:
  "reader_ok r_demo k_rdemo \<and>
   (\<exists>k'. reader_read_once r_demo 3 k_rdemo = Some (Inr \<lparr>sv_ptr = 1, sv_len = 0\<rparr>, k'))"
proof -
  have f: "file_of k_rdemo (r_fd r_demo) =
      Some \<lparr>of_path = ''test.txt'', of_read = True, of_write = False, of_append = False, of_pos = 0\<rparr>"
    using reader_demo_file by (simp add: r_demo_def)
  show ?thesis
    using Reader_Linux.reader_read_at_eof [OF reader_demo_ok f, of 3] reader_demo_contents reader_demo_ok
    by (simp add: r_demo_def)
qed

theorem reader_view_length_witness:
  "reader_ok r_big k_rbig \<and>
   (\<exists>k'. reader_read_once r_big 0 k_rbig = Some (Inr \<lparr>sv_ptr = 1, sv_len = 2\<rparr>, k'))"
proof -
  obtain k' where k': "reader_read_once r_big 0 k_rbig =
      Some (Inr \<lparr>sv_ptr = r_buffer r_big,
                 sv_len = min (min (unat (r_buffer_size r_big) mod 2 ^ 32) MAX_RW_COUNT)
                              (length (contents_of k_rbig ''test.txt''))\<rparr>, k')"
    using reader_view_length [OF reader_big_ok _ reader_big_file, where off = 0] by auto
  have "min (min (unat (r_buffer_size r_big) mod 2 ^ 32) MAX_RW_COUNT)
            (length (contents_of k_rbig ''test.txt'')) = 2"
    by (simp add: r_big_def reader_big_contents)
  moreover have "r_buffer r_big = 1" by (simp add: r_big_def)
  ultimately show ?thesis using k' reader_big_ok by auto
qed

theorem reader_lifecycle_balance_witness:
  "n_open (reader_dtor r_demo k_rdemo) = n_open k_demo \<and>
   k_ring_quota (reader_dtor r_demo k_rdemo) = k_ring_quota k_demo \<and>
   k_heap_quota (reader_dtor r_demo k_rdemo) = k_heap_quota k_demo \<and>
   k_faults (reader_dtor r_demo k_rdemo) = k_faults k_demo"
  using Reader_Linux.reader_lifecycle_balance [OF reader_demo_ctor, of "[72, 105, 33]"]
  by (simp add: k_demo_def)

section \<open>Witnesses of the writer's properties\<close>

theorem writer_write_full_witness:
  "writer_ok w_demo k_wdemo \<and>
   (\<exists>k'. writer_write_once w_demo 1 3 0 k_wdemo = Some (Inr (), w_demo\<lparr>w_buffer := 1, w_buffer_size := 3\<rparr>, k') \<and>
         contents_of k' ''out.txt'' = [72, 105, 33])"
  using Writer_Linux.writer_write_full [OF writer_demo_ok writer_demo_file, of 0 1 "[72, 105, 33]" 3]
    writer_demo_contents writer_demo_ok
  by (simp, blast)

theorem writer_short_write_accepted_witness:
  "writer_ok w_demo (k_wdemo\<lparr>k_fsize_limit := 2\<rparr>) \<and>
   (\<exists>k'. writer_write_once w_demo 1 3 0 (k_wdemo\<lparr>k_fsize_limit := 2\<rparr>) =
           Some (Inr (), w_demo\<lparr>w_buffer := 1, w_buffer_size := 3\<rparr>, k') \<and>
         contents_of k' ''out.txt'' = [72, 105])"
proof -
  have ok: "writer_ok w_demo (k_wdemo\<lparr>k_fsize_limit := 2\<rparr>)"
    using writer_demo_ok by (simp add: writer_ok_def file_of_def ring_idle_def ring_of_def)
  have f: "file_of (k_wdemo\<lparr>k_fsize_limit := 2\<rparr>) (w_fd w_demo) =
      Some \<lparr>of_path = ''out.txt'', of_read = False, of_write = True, of_append = False, of_pos = 0\<rparr>"
    using writer_demo_file by (simp add: file_of_def)
  show ?thesis
    using Writer_Linux.writer_short_write_accepted [OF ok f, of 0 1 "[72, 105, 33]" 3]
      writer_demo_contents ok
    by (simp add: contents_of_def)
qed

theorem writer_write_length_witness:
  "writer_ok w_demo k_wdemo \<and>
   (\<exists>k'. writer_write_once w_demo 1 4294967298 0 k_wdemo =
           Some (Inr (), w_demo\<lparr>w_buffer := 1, w_buffer_size := 4294967298\<rparr>, k') \<and>
         contents_of k' ''out.txt'' = [72, 105])"
  using Writer_Linux.writer_write_length [OF writer_demo_ok writer_demo_file, of 0 1 "[72, 105, 33]" 4294967298]
    writer_demo_contents writer_demo_ok
  by simp

theorem writer_write_wrapped_zero_witness:
  "writer_ok w_demo k_wdemo \<and>
   writer_write_once w_demo 1 4294967296 0 k_wdemo =
     Some (Inr (), w_demo\<lparr>w_buffer := 1, w_buffer_size := 4294967296\<rparr>, k_wdemo)"
  using Writer_Linux.writer_write_wrapped_zero [OF writer_demo_ok, of 0 1 4294967296]
    writer_demo_contents writer_demo_ok
  by simp

theorem writer_append_write_witness:
  "writer_ctor ''test.txt'' True k_demo1 = (Inr w_demo, snd (writer_ctor ''test.txt'' True k_demo1)) \<and>
   (\<exists>k'. writer_write_once w_demo 1 3 0 (snd (writer_ctor ''test.txt'' True k_demo1)) =
           Some (Inr (), w_demo\<lparr>w_buffer := 1, w_buffer_size := 3\<rparr>, k') \<and>
         contents_of k' ''test.txt'' = [72, 105, 33, 72, 105, 33])"
proof -
  have c: "writer_ctor ''test.txt'' True k_demo1 = (Inr w_demo, snd (writer_ctor ''test.txt'' True k_demo1))"
    by (simp add: writer_ctor_def writer_flags_def kernel_eval k_demo1_def k_demo_def w_demo_def tty_def)
  show ?thesis
    using Writer_Linux.writer_append_write [OF c, of 0 1 "[72, 105, 33]" 3] c
    by (simp add: k_demo1_def k_demo_def contents_of_def)
qed

theorem writer_write_efbig_witness:
  "writer_ok w_demo (k_wdemo\<lparr>k_fsize_limit := 0\<rparr>) \<and>
   writer_write_once w_demo 1 3 0 (k_wdemo\<lparr>k_fsize_limit := 0\<rparr>) =
     Some (Inl (WriteFailed 27), w_demo\<lparr>w_buffer := 1, w_buffer_size := 3\<rparr>, k_wdemo\<lparr>k_fsize_limit := 0\<rparr>)"
proof -
  have ok: "writer_ok w_demo (k_wdemo\<lparr>k_fsize_limit := 0\<rparr>)"
    using writer_demo_ok by (simp add: writer_ok_def file_of_def ring_idle_def ring_of_def)
  have f: "file_of (k_wdemo\<lparr>k_fsize_limit := 0\<rparr>) (w_fd w_demo) =
      Some \<lparr>of_path = ''out.txt'', of_read = False, of_write = True, of_append = False, of_pos = 0\<rparr>"
    using writer_demo_file by (simp add: file_of_def)
  show ?thesis
    using Writer_Linux.writer_write_efbig [OF ok f, of 0 1 "[72, 105, 33]" 3] writer_demo_contents ok
    by simp
qed

theorem writer_write_efault_witness:
  "writer_ok w_demo k_wdemo \<and> k_heap k_wdemo 7 = None \<and>
   writer_write_once w_demo 7 3 0 k_wdemo =
     Some (Inl (WriteFailed 14), w_demo\<lparr>w_buffer := 7, w_buffer_size := 3\<rparr>, k_wdemo)"
proof -
  have "k_heap k_wdemo 7 = None" by (simp add: k_wdemo_def)
  then show ?thesis
    using Writer_Linux.writer_write_efault [OF writer_demo_ok, of 0 7 3] writer_demo_ok by simp
qed

theorem writer_ctor_contents_witness:
  "''test.txt'' \<notin> k_denied k_demo \<and> 0 < k_ring_quota k_demo \<and>
   (\<exists>w k'. writer_ctor ''test.txt'' False k_demo = (Inr w, k') \<and> writer_ok w k' \<and>
           k_files k' ''test.txt'' = Some [])"
  using Writer_Linux.writer_ctor_contents [of "''test.txt''" k_demo False] by (auto simp: k_demo_def)

theorem writer_ctor_open_failure_witness:
  "''/etc/shadow'' \<in> k_denied k_demo \<and>
   writer_ctor ''/etc/shadow'' True k_demo = (Inl (WriterOpenFailed ''/etc/shadow''), k_demo)"
  using Writer_Linux.writer_ctor_open_failure [of "''/etc/shadow''" k_demo True] by (simp add: k_demo_def)

theorem writer_ctor_ring_failure_witness:
  "''test.txt'' \<notin> k_denied (k_demo\<lparr>k_ring_quota := 0\<rparr>) \<and>
   (\<exists>k'. writer_ctor ''test.txt'' False (k_demo\<lparr>k_ring_quota := 0\<rparr>) = (Inl RingInitFailed, k') \<and>
         n_open k' = Suc (n_open (k_demo\<lparr>k_ring_quota := 0\<rparr>)) \<and> k_files k' ''test.txt'' = Some [])"
  using Writer_Linux.writer_ctor_ring_failure [of "''test.txt''" "k_demo\<lparr>k_ring_quota := 0\<rparr>" False]
  by (simp add: k_demo_def)

theorem writer_lifecycle_balance_witness:
  "n_open (writer_dtor w_demo (snd (writer_ctor ''out.txt'' False k_demo))) = n_open k_demo \<and>
   k_ring_quota (writer_dtor w_demo (snd (writer_ctor ''out.txt'' False k_demo))) = k_ring_quota k_demo \<and>
   k_faults (writer_dtor w_demo (snd (writer_ctor ''out.txt'' False k_demo))) = k_faults k_demo"
  using Writer_Linux.writer_lifecycle_balance [OF writer_demo_ctor] by (simp add: k_demo_def)

theorem writer_move_double_release_witness:
  "writer_ok w_demo k_wdemo \<and>
   StaleRingExit 4 \<in> set (k_faults (writer_dtor w_demo
      (writer_dtor (w_demo\<lparr>w_fd := -1, w_buffer := 0\<rparr>) k_wdemo)))"
  using Writer_Linux.writer_move_double_release [OF writer_demo_ok,
      of w_demo "w_demo\<lparr>w_fd := -1, w_buffer := 0\<rparr>"] writer_demo_ok
  by (simp add: writer_move_eq w_demo_def)

theorem writer_wait_idle_blocks_witness:
  "ring_idle k_wdemo 4 \<and> writer_wait w_demo k_wdemo = None"
  using Writer_Linux.writer_wait_idle_blocks [of k_wdemo w_demo] writer_demo_ok
  by (simp add: writer_ok_def w_demo_def)

section \<open>Witness of the demonstration program's property\<close>

theorem demo_main_roundtrip_witness:
  "\<exists>k'. demo_main 1 55 k_main = Some (Inr True, k') \<and> k_files k' ''test.txt'' = Some test_data \<and>
        n_open k' = n_open k_main \<and> k_faults k' = []"
  using Demo_Main.demo_main_roundtrip [of k_main 1 test_data] test_data_length
  by (simp add: k_main_def k_demo_def) blast

section \<open>Witnesses of the Windows reader's properties\<close>

theorem winreader_read_bytes_witness:
  "winreader_ok wr_demo ws_rdemo \<and>
   (\<exists>v r' ws'. winreader_read_once wr_demo 1 ws_rdemo = Some (Inr v, r', ws') \<and> wsv_bytes ws' v = Some [105, 33])"
  using Reader_Win32.winreader_read_bytes [OF winreader_demo_ok winreader_demo_file(1), of 1]
    winreader_demo_file(2) winreader_demo_ok
  by (simp add: wr_demo_def read_at_def) blast

theorem winreader_read_at_eof_fails_witness:
  "winreader_ok wr_demo ws_rdemo \<and>
   (\<exists>r' ws'. winreader_read_once wr_demo 3 ws_rdemo = Some (Inl Win_OverlappedFailed, r', ws') \<and>
             GetLastError ws' = 38)"
  using Reader_Win32.winreader_read_at_eof_fails [OF winreader_demo_ok winreader_demo_file(1), of 3]
    winreader_demo_file(2) winreader_demo_ok
  by (simp add: wr_demo_def) blast

theorem winreader_ctor_badalloc_witness:
  "\<exists>ws'. winreader_ctor ''test.txt'' 100000 ws_demo = (Inl Win_BadAlloc, ws') \<and> n_handles ws' = 1"
  using Reader_Win32.winreader_ctor_badalloc [of "''test.txt''" ws_demo "[72, 105, 33]" 100000]
  by (simp add: ws_demo_def share_conflict_def n_handles_def)

theorem winreader_ctor_event_failure_witness:
  "\<exists>ws'. winreader_ctor ''test.txt'' 16 (ws_demo\<lparr>ws_event_quota := 0\<rparr>) = (Inl Win_ReaderEventFailed, ws') \<and>
         ws_handles ws' = [] \<and> ws_heap_quota ws' = 65520 \<and> ws_heap ws' 1 = Some (replicate 16 205)"
  using Reader_Win32.winreader_ctor_event_failure [of "''test.txt''" "ws_demo\<lparr>ws_event_quota := 0\<rparr>" "[72, 105, 33]" 16]
  by (simp add: ws_demo_def share_conflict_def)

theorem winreader_buffer_not_zeroed_witness:
  "\<exists>r ws'. winreader_ctor ''test.txt'' 16 ws_demo = (Inr r, ws') \<and> winreader_ok r ws' \<and>
           ws_heap ws' (wr_buffer r) = Some (replicate 16 205)"
  using Reader_Win32.winreader_buffer_not_zeroed [of "''test.txt''" ws_demo "[72, 105, 33]" 16]
  by (simp add: ws_demo_def share_conflict_def)

theorem winreader_fresh_wait_empty_witness:
  "winreader_waitAndGetResult wr_demo ws_rdemo = Some (Inr \<lparr>sv_ptr = 1, sv_len = 0\<rparr>, wr_demo, ws_rdemo)"
  using Reader_Win32.winreader_fresh_wait_empty [OF winreader_demo_ctor] by (simp add: wr_demo_def)

theorem winreader_lifecycle_balance_witness:
  "ws_handles (winreader_dtor wr_demo ws_rdemo) = [] \<and>
   ws_event_quota (winreader_dtor wr_demo ws_rdemo) = 4 \<and>
   ws_heap_quota (winreader_dtor wr_demo ws_rdemo) = 65536"
  using Reader_Win32.winreader_lifecycle_balance [OF winreader_demo_ctor, of "[72, 105, 33]"]
  by (simp add: ws_demo_def share_conflict_def)

section \<open>Witnesses of the Windows writer's properties\<close>

theorem winwriter_write_full_witness:
  "winwriter_ok ww_demo ws_wdemo \<and>
   (\<exists>w' ws'. winwriter_write_once ww_demo 1 3 2 ws_wdemo = Some (Inr (), w', ws') \<and> winwriter_ok w' ws' \<and>
             wcontents ws' ''out.txt'' = [0, 0, 72, 105, 33])"
proof -
  have z: "replicate 2 (0 :: byte) = [0, 0]" by (simp add: numeral_2_eq_2)
  show ?thesis
    using Writer_Win32.winwriter_write_full [OF winwriter_demo_ok winwriter_demo_file(1), of 2 1 "[72, 105, 33]" 3]
      winwriter_demo_file(2-4) winwriter_demo_ok
    by (simp add: write_at_def z)
qed

theorem winwriter_append_overwrites_witness:
  "\<exists>w' ws'. winwriter_write_once ww_demo 1 1 0 (snd (winwriter_ctor ''test.txt'' True ws_demo1)) =
              Some (Inr (), w', ws') \<and> wcontents ws' ''test.txt'' = [65, 105, 33]"
  using Writer_Win32.winwriter_append_overwrites [OF winwriter_demo_ctor, of 1 "[65]" 1]
  by (simp add: ws_demo1_def ws_demo_def share_conflict_def wcontents_def)

theorem winwriter_ctor_contents_witness:
  "\<exists>w ws'. winwriter_ctor ''test.txt'' False ws_demo = (Inr w, ws') \<and> winwriter_ok w ws' \<and>
           ws_files ws' ''test.txt'' = Some []"
  using Writer_Win32.winwriter_ctor_contents [of "''test.txt''" ws_demo False]
  by (auto simp: ws_demo_def share_conflict_def)

theorem winwriter_excludes_reader_witness:
  "winreader_ctor ''test.txt'' 16 (snd (winwriter_ctor ''test.txt'' True ws_demo1)) =
     (Inl Win_ReaderOpenFailed, (snd (winwriter_ctor ''test.txt'' True ws_demo1))\<lparr>ws_last_error := 32\<rparr>)"
  using Writer_Win32.winwriter_excludes_reader [OF winwriter_demo_ctor, of 16]
  by (simp add: ws_demo1_def ws_demo_def share_conflict_def)

section \<open>Witnesses of the refinement properties\<close>

theorem reader_refines_read_spec_witness:
  "\<exists>k'. reader_trace r_demo k_rdemo [RdSubmit 0, RdResult [72, 105, 33]] k' \<and>
        read_spec_trace 16 [72, 105, 33] Idle [RdSubmit 0, RdResult [72, 105, 33]] (reader_phase r_demo k')"
proof -
  have f: "file_of k_rdemo (r_fd r_demo) =
      Some \<lparr>of_path = ''test.txt'', of_read = True, of_write = False, of_append = False, of_pos = 0\<rparr>"
    using reader_demo_file by (simp add: r_demo_def)
  obtain k1 where s: "reader_readAsync r_demo 0 k_rdemo = (Inr (), k1)"
    using reader_submit_busy [OF reader_demo_ok] by blast
  obtain k2 where w: "reader_waitAndGetResult r_demo k1 = Some (Inr \<lparr>sv_ptr = 1, sv_len = 3\<rparr>, k2)"
    "sv_bytes k2 \<lparr>sv_ptr = 1, sv_len = 3\<rparr> = Some [72, 105, 33]"
    using reader_read_file [OF reader_demo_ok _ f refl, where off = 0] s reader_demo_contents
    by (simp add: reader_read_once_def r_demo_def sv_bytes_def read_at_def)
  have "reader_trace r_demo k_rdemo ([] @ [RdSubmit (sint (0 :: 64 word))] @ [RdResult [72, 105, 33]]) k2"
    using rtr_snoc [OF rtr_snoc [OF rtr_nil rstep_submit [OF reader_ok_phase [OF reader_demo_ok] s]]
                       rstep_result [OF w]] by simp
  then have t: "reader_trace r_demo k_rdemo [RdSubmit 0, RdResult [72, 105, 33]] k2" by simp
  show ?thesis
    using Refine_Linux.reader_refines_read_spec [OF reader_demo_ok f t] reader_demo_contents t
    by (auto simp: r_demo_def)
qed

theorem winreader_refines_read_spec_witness:
  "\<exists>s'. winreader_trace (wr_demo, ws_rdemo) [RdSubmit 1, RdResult [105, 33]] s' \<and>
        reads_before_eof [72, 105, 33] [RdSubmit 1, RdResult [105, 33]] \<and>
        read_spec_trace 16 [72, 105, 33] Idle [RdSubmit 1, RdResult [105, 33]] (winreader_phase (fst s'))"
proof -
  obtain r1 ws1 where s: "winreader_readAsync wr_demo 1 ws_rdemo = (Inr (), r1, ws1)"
    using winreader_readAsync_busy [OF winreader_demo_ok, of 1] by blast
  have ph: "winreader_phase r1 \<noteq> Idle"
    using winreader_readAsync_busy [OF winreader_demo_ok, of 1] s by auto
  obtain v r2 ws2 where w: "winreader_waitAndGetResult r1 ws1 = Some (Inr v, r2, ws2)"
    "wsv_bytes ws2 v = Some [105, 33]"
    using Reader_Win32.winreader_read_file [OF winreader_demo_ok winreader_demo_file(1), of 1] s
      winreader_demo_file(2)
    by (auto simp: winreader_read_once_def wr_demo_def wsv_bytes_def read_at_def)
  have "winreader_trace (wr_demo, ws_rdemo) ([] @ [RdSubmit (sint (1 :: 64 word))] @ [RdResult [105, 33]]) (r2, ws2)"
    using wrtr_snoc [OF wrtr_snoc [OF wrtr_nil wrstep_submit [OF winreader_ok_phase [OF winreader_demo_ok] s]]
                       wrstep_result [OF ph w]] by simp
  then have t: "winreader_trace (wr_demo, ws_rdemo) [RdSubmit 1, RdResult [105, 33]] (r2, ws2)" by simp
  have e: "reads_before_eof [72, 105, 33] [RdSubmit 1, RdResult [105, 33]]"
    by (simp add: reads_before_eof_def)
  have e': "reads_before_eof (wcontents ws_rdemo (hf_path \<lparr>hf_path = ''test.txt'', hf_access = GENERIC_READ, hf_share = FILE_SHARE_READ\<rparr>))
              [RdSubmit 1, RdResult [105, 33]]"
    using e winreader_demo_file(2) by simp
  show ?thesis
    using Refine_Win32.winreader_refines_read_spec [OF winreader_demo_ok winreader_demo_file(1) e' t]
      winreader_demo_file(2) t e
    by (auto simp: wr_demo_def)
qed

theorem winwriter_refines_write_spec_witness:
  "\<exists>s'. winwriter_trace (ww_demo, ws_wdemo) [WrSubmit 2 [72, 105, 33], WrDone] s' \<and>
        wwrites_fit [WrSubmit 2 [72, 105, 33], WrDone] \<and>
        write_spec_trace False (WIdle, []) [WrSubmit 2 [72, 105, 33], WrDone]
          (winwriter_phase (fst s') (snd s'), wcontents (snd s') ''out.txt'')"
proof -
  obtain w1 ws1 where s: "winwriter_writeAsync ww_demo 1 3 2 ws_wdemo = (Inr (), w1, ws1)"
    and busy: "winwriter_busy w1 ws1"
    using winwriter_writeAsync_busy [OF winwriter_demo_ok, of 1 3 2] by blast
  obtain w2 ws2 where once: "winwriter_write_once ww_demo 1 3 2 ws_wdemo = Some (Inr (), w2, ws2)"
    using Writer_Win32.winwriter_write_file [OF winwriter_demo_ok winwriter_demo_file(1), of 2 1 "[72, 105, 33]" 3]
      winwriter_demo_file(3,4)
    by auto
  have w: "winwriter_wait w1 ws1 = Some (Inr (), w2, ws2)"
    using once s by (simp add: winwriter_write_once_def)
  have bo: "wborrow_ok ws_wdemo 1 3" "wborrowed ws_wdemo 1 3 = [72, 105, 33]"
    using winwriter_demo_file(3) by (simp_all add: wborrow_ok_def wborrowed_def)
  have "winwriter_trace (ww_demo, ws_wdemo) ([] @ [WrSubmit (sint (2 :: 64 word)) (wborrowed ws_wdemo 1 3)] @ [WrDone]) (w2, ws2)"
    using wwtr_snoc [OF wwtr_snoc [OF wwtr_nil wwstep_submit [OF winwriter_ok_phase [OF winwriter_demo_ok] bo(1) s]]
                       wwstep_done [OF winwriter_busy_phase [OF busy] w]] by simp
  then have t: "winwriter_trace (ww_demo, ws_wdemo) [WrSubmit 2 [72, 105, 33], WrDone] (w2, ws2)"
    using bo(2) by simp
  have fit: "wwrites_fit [WrSubmit 2 [72, 105, 33], WrDone]" by (simp add: wwrites_fit_def)
  show ?thesis
    using Refine_Win32.winwriter_refines_write_spec [OF winwriter_demo_ok winwriter_demo_file(1) fit t]
      winwriter_demo_file(2) fit t
    by auto
qed

theorem writer_refines_write_spec_witness:
  "\<exists>s'. writer_trace (w_demo, k_wdemo) [WrSubmit 0 [72, 105, 33], WrDone] s' \<and>
        writes_fit 1048576 [WrSubmit 0 [72, 105, 33], WrDone] \<and>
        write_spec_trace False (WIdle, []) [WrSubmit 0 [72, 105, 33], WrDone]
          (writer_phase (fst s') (snd s'), contents_of (snd s') ''out.txt'')"
proof -
  let ?w1 = "w_demo\<lparr>w_buffer := 1, w_buffer_size := 3\<rparr>"
  obtain k1 where s: "writer_writeAsync w_demo 1 3 0 k_wdemo = (Inr (), ?w1, k1)"
    using writer_submit_busy [OF writer_demo_ok] by blast
  have idle: "ring_idle k_wdemo (w_ring w_demo)" using writer_demo_ok by (simp add: writer_ok_def)
  obtain k2 where kw: "k_write (w_fd w_demo) 1 (ucast (3 :: 64 word)) 0 k_wdemo = (int 3, k2)"
    using k_write_full [OF writer_demo_file _ _ _ writer_demo_contents(2), where n = "ucast (3 :: 64 word)" and off = 0]
      writer_demo_contents(3) by (auto simp: unat_ucast_32)
  have "writer_write_once w_demo 1 3 0 k_wdemo = Some (Inr (), ?w1, k2)"
    using writer_cycle [OF idle, of 1 3 0] kw by simp
  then have w: "writer_wait ?w1 k1 = Some (Inr (), k2)"
    using s by (auto simp: writer_write_once_def)
  have bo: "borrow_ok k_wdemo 1 3" "borrowed k_wdemo 1 3 = [72, 105, 33]"
    using writer_demo_contents(2) by (simp_all add: borrow_ok_def borrowed_def)
  have "writer_trace (w_demo, k_wdemo) ([] @ [WrSubmit (sint (0 :: 64 word)) (borrowed k_wdemo 1 3)] @ [WrDone]) (?w1, k2)"
    using wtr_snoc [OF wtr_snoc [OF wtr_nil wstep_submit [OF writer_ok_phase [OF writer_demo_ok] bo(1) s]]
                       wstep_done [OF w]] by simp
  then have t: "writer_trace (w_demo, k_wdemo) [WrSubmit 0 [72, 105, 33], WrDone] (?w1, k2)"
    using bo(2) by simp
  have fit: "writes_fit 1048576 [WrSubmit 0 [72, 105, 33], WrDone]" by (simp add: writes_fit_def)
  have f: "of_path \<lparr>of_path = ''out.txt'', of_read = False, of_write = True, of_append = False, of_pos = 0\<rparr> = ''out.txt''"
    by simp
  show ?thesis
    using Refine_Linux.writer_refines_write_spec [OF writer_demo_ok writer_demo_file _ _ t] fit t
      writer_demo_contents
    by auto
qed

theorem reader_move_then_read_stale_ring_witness:
  "\<exists>objs' k' rb. run_calls reader_exec (take 3 (move_then_read (1 :: nat) 2 ''test.txt'')) (Map.empty, k_demo) =
       Some (Inr [RetUnit, RetUnit, RetUnit], objs', k') \<and>
     objs' 1 = None \<and> objs' 2 = Some rb \<and> ring_of k' (r_ring rb) = None \<and>
     file_of k' (r_fd rb) \<noteq> None \<and> k_heap k' (r_buffer rb) \<noteq> None \<and>
     (\<exists>res objs'' k''. run_calls reader_exec (move_then_read (1 :: nat) 2 ''test.txt'') (Map.empty, k_demo) =
        Some (res, objs'', k'') \<and> StaleRingUse (r_ring rb) \<in> set (k_faults k''))"
proof -
  have h: "(1 :: nat) \<noteq> 2" "''test.txt'' \<notin> k_denied k_demo" "k_files k_demo ''test.txt'' = Some [72, 105, 33]"
    "0 < k_ring_quota k_demo" "4096 \<le> k_heap_quota k_demo" "0 < k_next_addr k_demo"
    by (simp_all add: k_demo_def)
  show ?thesis using Interface.reader_move_then_read_stale_ring [OF h, of Map.empty] by blast
qed

theorem winreader_move_then_read_witness:
  "\<exists>v objs' ws'. run_calls winreader_exec (move_then_read (1 :: nat) 2 ''test.txt'') (Map.empty, ws_demo) =
     Some (Inr [RetUnit, RetUnit, RetUnit, RetUnit, RetView v], objs', ws') \<and>
     wsv_bytes ws' v = Some [72, 105, 33] \<and> (\<exists>r'. objs' 2 = Some r' \<and> winreader_ok r' ws')"
  using Interface.winreader_move_then_read [of "1 :: nat" 2 "''test.txt''" ws_demo "[72, 105, 33]" Map.empty]
  by (simp add: ws_demo_def share_conflict_def)

theorem writer_append_semantics_witness:
  "\<exists>objs' k'. run_calls writer_exec (append_twice (1 :: nat) 2 ''test.txt'' True 1 2 1 1) (Map.empty, k_demo1) =
       Some (Inr [RetUnit, RetUnit, RetUnit, RetUnit, RetUnit, RetUnit, RetUnit, RetUnit], objs', k') \<and>
     contents_of k' ''test.txt'' = [72, 105, 33, 72, 105, 72] \<and>
     n_open k' = n_open k_demo1 \<and> k_ring_quota k' = k_ring_quota k_demo1 \<and> k_faults k' = k_faults k_demo1"
proof -
  have h: "''test.txt'' \<notin> k_denied k_demo1" "0 < k_ring_quota k_demo1"
    "k_heap k_demo1 1 = Some [72, 105, 33]" "0 < unat (2 :: 64 word)" "unat (2 :: 64 word) \<le> length [72, 105, 33 :: byte]"
    "unat (2 :: 64 word) \<le> MAX_RW_COUNT"
    "k_heap k_demo1 1 = Some [72, 105, 33]" "0 < unat (1 :: 64 word)" "unat (1 :: 64 word) \<le> length [72, 105, 33 :: byte]"
    "unat (1 :: 64 word) \<le> MAX_RW_COUNT"
    "length (contents_of k_demo1 ''test.txt'') + unat (2 :: 64 word) + unat (1 :: 64 word) \<le> k_fsize_limit k_demo1"
    by (simp_all add: k_demo1_def k_demo_def contents_of_def)
  have c: "contents_of k_demo1 ''test.txt'' = [72, 105, 33]" by (simp add: k_demo1_def k_demo_def contents_of_def)
  show ?thesis
    using Interface.writer_append_semantics [OF h, where a = "1 :: nat" and b = 2 and app = True and objs = Map.empty] c
    by simp
qed

end
